(* ===== verification/Prelude.thy ===== *)
theory Prelude
  imports Main "HOL-Library.AList" "HOL-Library.Sublist"
begin

text \<open>
  Shared vocabulary of the development: Go values and the idioms every component uses.
  \<^item> A Go map is an association list with distinct keys. The order of the list is the order in
    which one \<open>range\<close> statement visits the map; Go leaves that order open, so a theorem about
    every list is a theorem about every iteration order. Nil and empty maps coincide.
  \<^item> A Go error is a value of \<open>err\<close>; \<open>errors_Is\<close> looks through wrapped errors. \<open>ErrSuffix e m\<close> is
    \<open>fmt.Errorf("%w: m", e)\<close>.
  \<^item> An operation that can fail and changes a state \<open>'s\<close> returns \<open>(err + 'a) \<times> 's\<close>:
    the state is returned on the error path too, because a failed operation may have written
    part of its data. \<open>andThen\<close> is the idiom \<open>if err != nil { return err }\<close>.
  \<^item> The functions of package strings that the code calls, on byte strings.
\<close>

named_theorems store_simps \<open>equations and laws of the storage operations\<close>
named_theorems key_simps \<open>injectivity and disjointness of storage keys\<close>

section \<open>Go maps\<close>

type_synonym gomap = "(string \<times> string) list"

definition gwf :: "('k \<times> 'v) list \<Rightarrow> bool" where
  "gwf m \<longleftrightarrow> distinct (map fst m)"

text \<open>Reading a string-valued map at a missing key gives the zero value.\<close>

definition gidx :: "('k \<times> string) list \<Rightarrow> 'k \<Rightarrow> string" where
  "gidx m k = (case map_of m k of None \<Rightarrow> [] | Some v \<Rightarrow> v)"

lemma gwf_Nil [simp]: "gwf []"
  by (simp add: gwf_def)

lemma gwf_update [simp]: "gwf m \<Longrightarrow> gwf (AList.update k v m)"
  by (simp add: gwf_def distinct_update)

lemma gwf_delete [simp]: "gwf m \<Longrightarrow> gwf (AList.delete k m)"
  by (simp add: gwf_def distinct_delete)

lemma map_of_update [simp]: "map_of (AList.update k v m) = (map_of m)(k \<mapsto> v)"
  by (rule update_conv')

lemma map_of_delete [simp]: "map_of (AList.delete k m) = (map_of m)(k := None)"
  by (rule delete_conv')

lemma map_of_mem: "gwf m \<Longrightarrow> (k, v) \<in> set m \<longleftrightarrow> map_of m k = Some v"
  by (simp add: gwf_def)

lemma map_of_perm: "gwf m \<Longrightarrow> gwf m' \<Longrightarrow> set m = set m' \<Longrightarrow> map_of m = map_of m'"
  by (simp add: gwf_def map_of_inject_set)

section \<open>Errors\<close>

datatype err =
    ErrNew string
  | ErrWrap string err
  | ErrNotFound
  | RedisNil
  | RedisErr string
  | CtxDeadlineExceeded
  | CtxCanceled
  | NetErr string
  | ErrBadPattern
  | ErrParse string
  | ErrSuffix err string

fun errors_Is :: "err \<Rightarrow> err \<Rightarrow> bool" where
  "errors_Is (ErrWrap m e) t = (ErrWrap m e = t \<or> errors_Is e t)"
| "errors_Is (ErrSuffix e m) t = (ErrSuffix e m = t \<or> errors_Is e t)"
| "errors_Is e t = (e = t)"

text \<open>\<open>errors.Wrap\<close> of a nil error is nil.\<close>

fun errors_Wrap :: "err option \<Rightarrow> string \<Rightarrow> err option" where
  "errors_Wrap None m = None"
| "errors_Wrap (Some e) m = Some (ErrWrap m e)"

text \<open>\<open>err.Error()\<close>\<close>

fun err_Error :: "err \<Rightarrow> string" where
  "err_Error (ErrNew m) = m"
| "err_Error (ErrWrap m e) = m @ '': '' @ err_Error e"
| "err_Error ErrNotFound = ''not found''"
| "err_Error RedisNil = ''redis: nil''"
| "err_Error (RedisErr m) = m"
| "err_Error CtxDeadlineExceeded = ''context deadline exceeded''"
| "err_Error CtxCanceled = ''context canceled''"
| "err_Error (NetErr m) = m"
| "err_Error ErrBadPattern = ''syntax error in pattern''"
| "err_Error (ErrParse m) = m"
| "err_Error (ErrSuffix e m) = err_Error e @ '': '' @ m"

lemma errors_Is_refl [simp]: "errors_Is e e"
  by (cases e) auto

section \<open>Sequencing fallible, stateful operations\<close>

fun andThen :: "(err + 'a) \<times> 's \<Rightarrow> ('a \<Rightarrow> 's \<Rightarrow> (err + 'b) \<times> 's) \<Rightarrow> (err + 'b) \<times> 's" where
  "andThen (Inl e, s) f = (Inl e, s)"
| "andThen (Inr a, s) f = f a s"

text \<open>\<open>if err != nil { return errors.Wrap(err, m) }\<close>\<close>

fun wrapErr :: "string \<Rightarrow> (err + 'a) \<times> 's \<Rightarrow> (err + 'a) \<times> 's" where
  "wrapErr m (Inl e, s) = (Inl (ErrWrap m e), s)"
| "wrapErr m (Inr a, s) = (Inr a, s)"

lemma andThen_Inr_conv:
  "andThen p f = (Inr b, t) \<longleftrightarrow> (\<exists>a s. p = (Inr a, s) \<and> f a s = (Inr b, t))"
  by (cases "(p, f)" rule: andThen.cases) auto

lemma andThen_Inl_conv:
  "andThen p f = (Inl e, t) \<longleftrightarrow> p = (Inl e, t) \<or> (\<exists>a s. p = (Inr a, s) \<and> f a s = (Inl e, t))"
  by (cases "(p, f)" rule: andThen.cases) auto

lemma wrapErr_Inr_conv [simp]: "wrapErr m p = (Inr a, s) \<longleftrightarrow> p = (Inr a, s)"
  by (cases "(m, p)" rule: wrapErr.cases) auto

lemma wrapErr_Inl_conv [simp]:
  "wrapErr m p = (Inl e, s) \<longleftrightarrow> (\<exists>e'. e = ErrWrap m e' \<and> p = (Inl e', s))"
  by (cases "(m, p)" rule: wrapErr.cases) auto

lemma snd_wrapErr [simp]: "snd (wrapErr m p) = snd p"
  by (cases "(m, p)" rule: wrapErr.cases) auto

section \<open>Package strings\<close>

fun strings_Split :: "char \<Rightarrow> string \<Rightarrow> string list" where
  "strings_Split c [] = [[]]"
| "strings_Split c (x # xs) =
     (if x = c then [] # strings_Split c xs
      else (x # hd (strings_Split c xs)) # tl (strings_Split c xs))"

definition strings_Contains :: "string \<Rightarrow> char \<Rightarrow> bool" where
  "strings_Contains s c \<longleftrightarrow> c \<in> set s"

definition strings_ReplaceAll :: "string \<Rightarrow> char \<Rightarrow> char \<Rightarrow> string" where
  "strings_ReplaceAll s a b = map (\<lambda>x. if x = a then b else x) s"

definition strings_HasPrefix :: "string \<Rightarrow> string \<Rightarrow> bool" where
  "strings_HasPrefix s p \<longleftrightarrow> take (length p) s = p"

definition strings_HasSuffix :: "string \<Rightarrow> string \<Rightarrow> bool" where
  "strings_HasSuffix s p \<longleftrightarrow> length p \<le> length s \<and> drop (length s - length p) s = p"

definition strings_TrimPrefix :: "string \<Rightarrow> string \<Rightarrow> string" where
  "strings_TrimPrefix s p = (if strings_HasPrefix s p then drop (length p) s else s)"

definition strings_Trim :: "string \<Rightarrow> char \<Rightarrow> string" where
  "strings_Trim s c = rev (dropWhile ((=) c) (rev (dropWhile ((=) c) s)))"

lemma strings_Split_nonempty [simp]: "strings_Split c s \<noteq> []"
  by (cases s) auto

lemma strings_Split_plain: "c \<notin> set s \<Longrightarrow> strings_Split c s = [s]"
  by (induction s) auto

lemma strings_Split_append:
  "c \<notin> set a \<Longrightarrow> strings_Split c (a @ c # b) = a # strings_Split c b"
  by (induction a) auto

lemma strings_Split_parts: "p \<in> set (strings_Split c s) \<Longrightarrow> c \<notin> set p"
proof (induction s arbitrary: p)
  case (Cons x xs)
  show ?case
  proof (cases "x = c")
    case False
    have "hd (strings_Split c xs) \<in> set (strings_Split c xs)"
      and "set (tl (strings_Split c xs)) \<subseteq> set (strings_Split c xs)"
      by (auto dest: list.set_sel(2)[rotated])
    with Cons False show ?thesis by auto
  qed (use Cons in auto)
qed simp

lemma strings_HasPrefix_append [simp]: "strings_HasPrefix (p @ s) p"
  by (simp add: strings_HasPrefix_def)

lemma strings_HasPrefix_iff: "strings_HasPrefix s p \<longleftrightarrow> (\<exists>t. s = p @ t)"
  by (metis append_eq_conv_conj append_take_drop_id strings_HasPrefix_def)

lemma strings_HasSuffix_iff: "strings_HasSuffix s p \<longleftrightarrow> (\<exists>t. s = t @ p)"
proof
  assume h: "strings_HasSuffix s p"
  have "s = take (length s - length p) s @ drop (length s - length p) s" by simp
  with h have "s = take (length s - length p) s @ p"
    by (simp add: strings_HasSuffix_def)
  then show "\<exists>t. s = t @ p" ..
qed (auto simp: strings_HasSuffix_def)

text \<open>Strings that end in different suffixes of which neither ends the other are different.\<close>

lemma suffix_neq: "\<lbrakk>\<not> strings_HasSuffix q r; \<not> strings_HasSuffix r q\<rbrakk> \<Longrightarrow> a @ q \<noteq> b @ r"
  by (auto simp: strings_HasSuffix_iff append_eq_append_conv2)

section \<open>Decimal numerals\<close>

fun digitChar :: "nat \<Rightarrow> char" where
  "digitChar d = char_of (48 + d)"

fun itoa :: "nat \<Rightarrow> string" where
  "itoa n = (if n < 10 then [digitChar n] else itoa (n div 10) @ [digitChar (n mod 10)])"

declare itoa.simps [simp del]

text \<open>The verb \<open>%d\<close>\<close>

definition fmt_d :: "int \<Rightarrow> string" where
  "fmt_d i = (if i < 0 then CHR ''-'' # itoa (nat (- i)) else itoa (nat i))"

fun padDigits :: "nat \<Rightarrow> nat \<Rightarrow> string" where
  "padDigits 0 n = []"
| "padDigits (Suc k) n = padDigits k (n div 10) @ [digitChar (n mod 10)]"

end
