(* ===== verification/Models.thy ===== *)
theory Models
  imports Prelude
begin

text \<open>
  The structs shared by the components: common/models.go, common/constants.go, the messages of
  common/proto/syntest.pb.go and the custom resource of controller/api/v1. Struct fields keep
  their names behind a short prefix for the struct. Times are nanoseconds since an epoch and
  durations are nanoseconds, both as integers; where overflow matters (the restart back-off) the
  component uses 64-bit words. Protobuf's bookkeeping fields are left out.
\<close>

type_synonym time = int
type_synonym duration = int

section \<open>Constants\<close>

definition second :: duration where "second = 1000000000"

definition NotRunning :: string where "NotRunning = ''notRunning''"
definition Running :: string where "Running = ''running''"
definition StatusError :: string where "StatusError = ''error''"
definition Restarting :: string where "Restarting = ''restarting''"
definition StatusUnknown :: string where "StatusUnknown = ''unknown''"

lemmas status_defs = NotRunning_def Running_def StatusError_def Restarting_def StatusUnknown_def

definition RestartAlways :: string where "RestartAlways = ''always''"
definition RestartNever :: string where "RestartNever = ''never''"
definition RestartOnError :: string where "RestartOnError = ''onError''"
definition DefaultRestartPolicy :: string where "DefaultRestartPolicy = RestartAlways"

lemmas policy_defs = RestartAlways_def RestartNever_def RestartOnError_def DefaultRestartPolicy_def

definition LogOnFail :: string where "LogOnFail = ''onFail''"
definition LogNever :: string where "LogNever = ''never''"
definition LogAlways :: string where "LogAlways = ''always''"

definition K8sDiscoverLabel :: string where "K8sDiscoverLabel = ''synheart.infra.webex.com/discover''"
definition K8sDiscoverLabelVal :: string where "K8sDiscoverLabelVal = ''true''"
definition SpecialKeyNodeName :: string where "SpecialKeyNodeName = ''$nodeName''"
definition SpecialKeyAgentId :: string where "SpecialKeyAgentId = ''$agentId''"
definition SpecialKeyPodName :: string where "SpecialKeyPodName = ''$podName''"
definition SpecialKeyAgentNs :: string where "SpecialKeyAgentNs = ''$agentNamespace''"

lemmas special_key_defs =
  SpecialKeyNodeName_def SpecialKeyAgentId_def SpecialKeyPodName_def SpecialKeyAgentNs_def

definition ErrorKey :: string where "ErrorKey = ''_error''"
definition LogKey :: string where "LogKey = ''_log''"
definition PrometheusKey :: string where "PrometheusKey = ''_prometheus''"

definition TriggerTypeTimer :: string where "TriggerTypeTimer = ''timer''"

section \<open>Protobuf messages\<close>

record Timeouts =
  to_Init :: string
  to_Run :: string
  to_Finish :: string

record SynTestConfig =
  stc_Name :: string
  stc_Version :: string
  stc_Labels :: gomap
  stc_PluginName :: string
  stc_DisplayName :: string
  stc_Description :: string
  stc_Namespace :: string
  stc_Importance :: string
  stc_Repeat :: string
  stc_NodeSelector :: string
  stc_PodLabelSelector :: gomap
  stc_DependsOn :: "string list"
  stc_Timeouts :: Timeouts
  stc_PluginRestartPolicy :: string
  stc_LogWaitTime :: string
  stc_Config :: string
  stc_Runtime :: gomap

record TestResult =
  tres_Marks :: nat
  tres_MaxMarks :: nat
  tres_Details :: gomap

text \<open>A test run carries its trigger, and a trigger may carry the run that caused it.\<close>

datatype TestRun = TestRun
    (tr_Id: string) (tr_AgentId: string) (tr_StartTime: string) (tr_EndTime: string)
    (tr_TestConfig: SynTestConfig) (tr_Trigger: Trigger) (tr_TestResult: TestResult)
    (tr_Details: gomap)
and Trigger = Trigger
    (tg_TriggerType: string) (tg_TriggeringTest: "TestRun option") (tg_Details: string)

section \<open>Structs of the common package\<close>

record PluginState =
  ps_Status :: string
  ps_StatusMsg :: string
  ps_Config :: SynTestConfig
  ps_Restarts :: int
  ps_RestartBackOff :: string
  ps_TotalRestarts :: int
  ps_RunningSince :: time
  ps_LastUpdated :: time

record AgentInfo =
  ai_NodeName :: string
  ai_PodName :: string
  ai_PodLabels :: gomap
  ai_AgentNamespace :: string

record PluginDiscoveryConfig =
  pdc_Path :: string
  pdc_Cmd :: string

record StorageConfig =
  sc_Type :: string
  sc_BufferSize :: int
  sc_Address :: string
  sc_ExportRate :: duration

record PrometheusConfig =
  pc_ServerAddress :: string
  pc_Push :: bool
  pc_PrometheusPushUrl :: string
  pc_Labels :: gomap

record AgentConfig =
  ac_MatchTestNamespaces :: "string list"
  ac_MatchTestLabels :: gomap
  ac_LabelFileLocation :: string
  ac_SyncFrequency :: duration
  ac_GracePeriod :: duration
  ac_PrometheusConfig :: PrometheusConfig
  ac_StoreConfig :: StorageConfig
  ac_PrintPluginLogs :: string
  ac_EnabledPlugins :: "PluginDiscoveryConfig list"
  ac_DebugMode :: bool
  ac_DiscoveredPlugins :: "(string \<times> string list) list"
  ac_RunTimeInfo :: AgentInfo
  ac_MatchNamespaceSet :: "(string \<times> bool) list"

record AgentStatus =
  as_SynTests :: "string list"
  as_StatusTime :: string
  as_AgentConfig :: AgentConfig

record SyntestConfigSummary =
  sum_Name :: string
  sum_Namespace :: string
  sum_ConfigId :: string
  sum_Version :: string
  sum_DisplayName :: string
  sum_Description :: string
  sum_Plugin :: string
  sum_Repeat :: string

record SyntestConfigStatus =
  css_Deployed :: bool
  css_Message :: string
  css_Agent :: string
  css_Timestamp :: string

section \<open>Zero values\<close>

definition zeroTimeouts :: Timeouts where
  "zeroTimeouts = \<lparr>to_Init = [], to_Run = [], to_Finish = []\<rparr>"

definition zeroSynTestConfig :: SynTestConfig where
  "zeroSynTestConfig = \<lparr>stc_Name = [], stc_Version = [], stc_Labels = [], stc_PluginName = [],
     stc_DisplayName = [], stc_Description = [], stc_Namespace = [], stc_Importance = [],
     stc_Repeat = [], stc_NodeSelector = [], stc_PodLabelSelector = [], stc_DependsOn = [],
     stc_Timeouts = zeroTimeouts, stc_PluginRestartPolicy = [], stc_LogWaitTime = [],
     stc_Config = [], stc_Runtime = []\<rparr>"

definition zeroAgentInfo :: AgentInfo where
  "zeroAgentInfo = \<lparr>ai_NodeName = [], ai_PodName = [], ai_PodLabels = [], ai_AgentNamespace = []\<rparr>"

definition zeroAgentConfig :: AgentConfig where
  "zeroAgentConfig = \<lparr>ac_MatchTestNamespaces = [], ac_MatchTestLabels = [],
     ac_LabelFileLocation = [], ac_SyncFrequency = 0, ac_GracePeriod = 0,
     ac_PrometheusConfig = \<lparr>pc_ServerAddress = [], pc_Push = False, pc_PrometheusPushUrl = [],
       pc_Labels = []\<rparr>,
     ac_StoreConfig = \<lparr>sc_Type = [], sc_BufferSize = 0, sc_Address = [], sc_ExportRate = 0\<rparr>,
     ac_PrintPluginLogs = [], ac_EnabledPlugins = [], ac_DebugMode = False,
     ac_DiscoveredPlugins = [], ac_RunTimeInfo = zeroAgentInfo, ac_MatchNamespaceSet = []\<rparr>"

definition zeroAgentStatus :: AgentStatus where
  "zeroAgentStatus = \<lparr>as_SynTests = [], as_StatusTime = [], as_AgentConfig = zeroAgentConfig\<rparr>"

definition FailedTestResult :: TestResult where
  "FailedTestResult = \<lparr>tres_Marks = 0, tres_MaxMarks = 1, tres_Details = []\<rparr>"

section \<open>Identifiers\<close>

definition ComputePluginId :: "string \<Rightarrow> string \<Rightarrow> string \<Rightarrow> string" where
  "ComputePluginId testName namespace agentId = testName @ ''/'' @ namespace @ ''/'' @ agentId"

definition ComputeSynTestConfigId :: "string \<Rightarrow> string \<Rightarrow> string" where
  "ComputeSynTestConfigId testName testNamespace = testName @ ''/'' @ testNamespace"

definition ComputeAgentId :: "string \<Rightarrow> string \<Rightarrow> string" where
  "ComputeAgentId podName namespace = podName @ ''/'' @ namespace"

definition GetPluginIdComponents :: "string \<Rightarrow> err + (string \<times> string \<times> string \<times> string)" where
  "GetPluginIdComponents pluginId =
     (let comp = strings_Split CHR ''/'' pluginId in
      if length comp < 4 then Inl (ErrNew ''invalid id, not enough components'')
      else Inr (comp ! 0, comp ! 1, comp ! 2, comp ! 3))"

text \<open>Kubernetes object names and namespaces contain no slash.\<close>

definition slashFree :: "string \<Rightarrow> bool" where
  "slashFree s \<longleftrightarrow> CHR ''/'' \<notin> set s"

lemma split_slash [simp]:
  "slashFree a \<Longrightarrow> strings_Split CHR ''/'' (a @ CHR ''/'' # b) = a # strings_Split CHR ''/'' b"
  "slashFree a \<Longrightarrow> strings_Split CHR ''/'' a = [a]"
  by (simp_all add: slashFree_def strings_Split_append strings_Split_plain)

lemma slash_inject:
  assumes "slashFree a" and "slashFree a'"
  shows "a @ CHR ''/'' # b = a' @ CHR ''/'' # b' \<longleftrightarrow> a = a' \<and> b = b'"
proof
  assume eq: "a @ CHR ''/'' # b = a' @ CHR ''/'' # b'"
  then have "strings_Split CHR ''/'' (a @ CHR ''/'' # b) = strings_Split CHR ''/'' (a' @ CHR ''/'' # b')"
    by simp
  with assms have "a = a'" by simp
  with eq show "a = a' \<and> b = b'" by simp
qed simp

lemma ComputeSynTestConfigId_inject:
  assumes "slashFree n" and "slashFree n'"
  shows "ComputeSynTestConfigId n ns = ComputeSynTestConfigId n' ns' \<longleftrightarrow> n = n' \<and> ns = ns'"
  using assms by (simp add: ComputeSynTestConfigId_def slash_inject)

lemma ComputeAgentId_inject:
  assumes "slashFree n" and "slashFree n'"
  shows "ComputeAgentId n ns = ComputeAgentId n' ns' \<longleftrightarrow> n = n' \<and> ns = ns'"
  using assms by (simp add: ComputeAgentId_def slash_inject)

lemma ComputePluginId_inject:
  assumes "slashFree n" "slashFree n'" "slashFree ns" "slashFree ns'"
  shows "ComputePluginId n ns a = ComputePluginId n' ns' a' \<longleftrightarrow> n = n' \<and> ns = ns' \<and> a = a'"
  using assms by (simp add: ComputePluginId_def slash_inject)

lemma GetPluginIdComponents_Compute:
  assumes "slashFree t" "slashFree ns" "slashFree p" "slashFree pns"
  shows "GetPluginIdComponents (ComputePluginId t ns (ComputeAgentId p pns)) = Inr (t, ns, p, pns)"
  using assms by (simp add: GetPluginIdComponents_def ComputePluginId_def ComputeAgentId_def)

text \<open>
  Plugin identifiers round trip: the components read back from an identifier built from
  slash-free names are the names it was built from, and two identifiers are equal only when all
  four names are.
\<close>

theorem plugin_id_roundtrip:
  assumes "slashFree t" "slashFree ns" "slashFree p" "slashFree pns"
    and "slashFree t'" "slashFree ns'" "slashFree p'" "slashFree pns'"
  shows "GetPluginIdComponents (ComputePluginId t ns (ComputeAgentId p pns)) = Inr (t, ns, p, pns) \<and>
    (ComputePluginId t ns (ComputeAgentId p pns) = ComputePluginId t' ns' (ComputeAgentId p' pns')
      \<longleftrightarrow> t = t' \<and> ns = ns' \<and> p = p' \<and> pns = pns')"
  using assms by (auto simp: GetPluginIdComponents_Compute ComputePluginId_inject ComputeAgentId_inject)

theorem plugin_id_roundtrip_witness:
  "GetPluginIdComponents (ComputePluginId ''dns'' ''prod'' (ComputeAgentId ''pod-1'' ''heart''))
     = Inr (''dns'', ''prod'', ''pod-1'', ''heart'') \<and>
   ComputePluginId ''dns'' ''prod'' (ComputeAgentId ''pod-1'' ''heart'')
     \<noteq> ComputePluginId ''dns'' ''prod'' (ComputeAgentId ''pod-2'' ''heart'')"
proof -
  have s: "slashFree ''dns''" "slashFree ''prod''" "slashFree ''pod-1''" "slashFree ''pod-2''"
      "slashFree ''heart''"
    by (simp_all add: slashFree_def)
  show ?thesis
    using plugin_id_roundtrip[OF s(1,2,3,5) s(1,2,4,5)] by simp
qed

end
