(* ===== verification/Float64.thy ===== *)
theory Float64
  imports Prelude
begin

text \<open>
  Go's float64, as far as the pass ratio of a test run and the metrics need it:
  conversion of an integer, division, comparisons, and the format \<open>%.5f\<close>. A finite value \<open>Fin m n\<close> is \<open>m / 2 ^ n\<close>. Rounding is to 53 bits, to
  nearest with ties to even; quotients of 64-bit integers never reach the subnormal range.
\<close>

section \<open>Rounding\<close>

definition roundHalfEven :: "nat \<Rightarrow> nat \<Rightarrow> nat" where
  "roundHalfEven p q =
     (let d = p div q; r = p mod q in
      if 2 * r < q then d else if 2 * r > q then d + 1 else if even d then d else d + 1)"

text \<open>
  The numbers of doublings that bring \<open>a / b\<close> to at least \<open>2 ^ 52\<close> and of halvings that
  bring it below \<open>2 ^ 53\<close>. The first argument is fuel: 116 doublings and 12 halvings are enough
  for numerators and denominators of at most 64 bits.
\<close>

fun doublings :: "nat \<Rightarrow> nat \<Rightarrow> nat \<Rightarrow> nat" where
  "doublings 0 a b = 0"
| "doublings (Suc f) a b = (if 2 ^ 52 * b \<le> a then 0 else Suc (doublings f (2 * a) b))"

fun halvings :: "nat \<Rightarrow> nat \<Rightarrow> nat \<Rightarrow> nat" where
  "halvings 0 a b = 0"
| "halvings (Suc f) a b = (if a < 2 ^ 53 * b then 0 else Suc (halvings f a (2 * b)))"

datatype f64 = NaN | PInf | Fin nat nat

text \<open>The float nearest to \<open>a / b\<close>.\<close>

definition f64_quot :: "nat \<Rightarrow> nat \<Rightarrow> f64" where
  "f64_quot a b =
     (if b = 0 then (if a = 0 then NaN else PInf)
      else if a = 0 then Fin 0 0
      else let h = halvings 12 a b; n = doublings 116 a b in
        if 0 < h then Fin (roundHalfEven a (b * 2 ^ h) * 2 ^ h) 0
        else Fin (roundHalfEven (a * 2 ^ n) b) n)"

text \<open>\<open>float64(u)\<close> of an unsigned integer is an integer again.\<close>

definition f64_of_uint :: "nat \<Rightarrow> nat" where
  "f64_of_uint u = (if u < 2 ^ 53 then u
     else let h = halvings 12 u 1 in roundHalfEven u (2 ^ h) * 2 ^ h)"

definition f64_div :: "nat \<Rightarrow> nat \<Rightarrow> f64" where
  "f64_div a b = f64_quot (f64_of_uint a) (f64_of_uint b)"

fun f64_lt1 :: "f64 \<Rightarrow> bool" where
  "f64_lt1 NaN = False"
| "f64_lt1 PInf = False"
| "f64_lt1 (Fin m n) = (m < 2 ^ n)"

section \<open>Signed values\<close>

text \<open>A sign and a magnitude; the sign of a NaN has no meaning. Integers convert with rounding.\<close>

type_synonym float64 = "bool \<times> f64"

definition f64_of_int :: "int \<Rightarrow> float64" where
  "f64_of_int i = (i < 0, Fin (f64_of_uint (nat \<bar>i\<bar>)) 0)"

fun float_lt1 :: "float64 \<Rightarrow> bool" where
  "float_lt1 (neg, NaN) = False"
| "float_lt1 (neg, PInf) = neg"
| "float_lt1 (neg, Fin m n) = (neg \<or> m < 2 ^ n)"

fun float_eq1 :: "float64 \<Rightarrow> bool" where
  "float_eq1 (neg, Fin m n) = (\<not> neg \<and> m = 2 ^ n)"
| "float_eq1 _ = False"

fun float_eq0 :: "float64 \<Rightarrow> bool" where
  "float_eq0 (neg, Fin m n) = (m = 0)"
| "float_eq0 _ = False"

fun float_gt_half :: "float64 \<Rightarrow> bool" where
  "float_gt_half (neg, NaN) = False"
| "float_gt_half (neg, PInf) = (\<not> neg)"
| "float_gt_half (neg, Fin m n) = (\<not> neg \<and> 2 ^ n < 2 * m)"

section \<open>Printing with five decimals\<close>

fun f64_format5 :: "f64 \<Rightarrow> string" where
  "f64_format5 NaN = ''NaN''"
| "f64_format5 PInf = ''+Inf''"
| "f64_format5 (Fin m n) =
     (let r = roundHalfEven (m * 100000) (2 ^ n)
      in itoa (r div 100000) @ ''.'' @ padDigits 5 (r mod 100000))"

section \<open>Rounding to nearest\<close>

lemma roundHalfEven_bounds:
  assumes "0 < q"
  shows "2 * p \<le> 2 * (roundHalfEven p q * q) + q \<and> 2 * (roundHalfEven p q * q) \<le> 2 * p + q"
proof -
  define d r where "d = p div q" and "r = p mod q"
  have p: "p = d * q + r" and r: "r < q" using assms by (simp_all add: d_def r_def)
  have "roundHalfEven p q = d \<and> 2 * r \<le> q \<or> roundHalfEven p q = d + 1 \<and> q \<le> 2 * r"
    by (auto simp: roundHalfEven_def Let_def d_def r_def)
  then show ?thesis
  proof
    assume "roundHalfEven p q = d + 1 \<and> q \<le> 2 * r"
    then have "roundHalfEven p q * q = d * q + q" "q \<le> 2 * r" by auto
    with p r show ?thesis by linarith
  qed (use p in auto)
qed

lemma roundHalfEven_exact [simp]: "0 < q \<Longrightarrow> roundHalfEven (k * q) q = k"
  by (simp add: roundHalfEven_def)

lemma roundHalfEven_mono_low:
  assumes "0 < q" and "k * q \<le> p"
  shows "k \<le> roundHalfEven p q"
proof -
  have "k \<le> p div q" using assms by (simp add: less_eq_div_iff_mult_less_eq)
  then show ?thesis by (auto simp: roundHalfEven_def Let_def)
qed

lemma roundHalfEven_mono_high:
  assumes "0 < q" and "p \<le> k * q"
  shows "roundHalfEven p q \<le> k"
proof (cases "p = k * q")
  case False
  with assms have "p div q < k" by (simp add: div_less_iff_less_mult)
  then show ?thesis by (auto simp: roundHalfEven_def Let_def)
qed (use assms in simp)

lemma doublings_step:
  assumes "doublings f a b = Suc n"
  shows "a * 2 ^ n < 2 ^ 52 * b"
  using assms
proof (induction f arbitrary: a n)
  case (Suc f)
  then have lt: "a < 2 ^ 52 * b" and d: "doublings f (2 * a) b = n" by (auto split: if_splits)
  show ?case
  proof (cases n)
    case (Suc m)
    with d Suc.IH[of "2 * a" m] show ?thesis by (simp add: algebra_simps)
  qed (use lt in simp)
qed simp

lemma doublings_le: "doublings f a b \<le> f"
  by (induction f arbitrary: a) auto

lemma doublings_enough:
  assumes "2 ^ 52 * b \<le> a * 2 ^ f"
  shows "2 ^ 52 * b \<le> a * 2 ^ doublings f a b"
  using assms
proof (induction f arbitrary: a)
  case (Suc f)
  show ?case
  proof (cases "2 ^ 52 * b \<le> a")
    case False
    from Suc.prems have "2 ^ 52 * b \<le> 2 * a * 2 ^ f" by (simp add: mult.commute mult.left_commute)
    from Suc.IH[OF this] False show ?thesis by (simp add: mult.commute mult.left_commute)
  qed simp
qed simp

lemma halvings_0: "a < 2 ^ 53 * b \<Longrightarrow> halvings f a b = 0"
  by (cases f) auto

text \<open>Below one, the quotient is scaled by at least \<open>2 ^ 53\<close>.\<close>

lemma doublings_below:
  assumes "0 < a" "a < b" "b < 2 ^ 64"
  shows "53 \<le> doublings 116 a b"
proof (rule ccontr)
  assume "\<not> 53 \<le> doublings 116 a b"
  then have "(2::nat) ^ doublings 116 a b \<le> 2 ^ 52" by (intro power_increasing) auto
  then have "a * 2 ^ doublings 116 a b \<le> a * 2 ^ 52" by simp
  moreover have "2 ^ 52 * b \<le> a * 2 ^ doublings 116 a b"
    using assms by (intro doublings_enough) (auto intro: order_trans[of _ "2 ^ 116"])
  moreover have "a * 2 ^ 52 < 2 ^ 52 * b" using assms by simp
  ultimately show False by linarith
qed

section \<open>The pass ratio\<close>

lemma f64_div_small:
  assumes "0 < a" "0 < b" "a < 2 ^ 53" "b < 2 ^ 53"
  shows "f64_div a b = Fin (roundHalfEven (a * 2 ^ doublings 116 a b) b) (doublings 116 a b)"
proof -
  have "a < 2 ^ 53 * b" using assms by (simp add: less_le_trans)
  then show ?thesis using assms halvings_0[of a b 12]
    by (simp add: f64_div_def f64_of_uint_def f64_quot_def Let_def)
qed

lemma round_below:
  assumes "0 < a" "a < b" "b < 2 ^ 53"
  shows "roundHalfEven (a * 2 ^ doublings 116 a b) b < 2 ^ doublings 116 a b"
proof -
  obtain n where n: "doublings 116 a b = Suc n" "52 \<le> n"
    using doublings_below[of a b] assms by (cases "doublings 116 a b") auto
  show ?thesis
  proof (cases "n = 52")
    case True
    from assms have "a + 1 \<le> b" by simp
    then have "(a + 1) * 2 ^ 53 \<le> b * 2 ^ 53" by (rule mult_right_mono) simp
    with assms(3) have "a * 2 ^ 53 \<le> (2 ^ 53 - 1) * b" by (simp add: algebra_simps)
    then have "roundHalfEven (a * 2 ^ 53) b \<le> 2 ^ 53 - 1"
      using assms by (intro roundHalfEven_mono_high) auto
    then show ?thesis using n True by simp
  next
    case False
    have "a * 2 ^ Suc n \<le> 2 ^ 53 * b" using doublings_step[OF n(1)] by simp
    then have "roundHalfEven (a * 2 ^ Suc n) b \<le> 2 ^ 53"
      using assms by (intro roundHalfEven_mono_high) auto
    also have "(2::nat) ^ 53 < 2 ^ Suc n" using n False by (intro power_strict_increasing) auto
    finally show ?thesis using n by simp
  qed
qed

lemma f64_lt1_div:
  assumes "a < 2 ^ 53" "0 < b" "b < 2 ^ 53"
  shows "f64_lt1 (f64_div a b) \<longleftrightarrow> a < b"
proof (cases "a = 0")
  case True
  with assms show ?thesis by (simp add: f64_div_def f64_of_uint_def f64_quot_def)
next
  case False
  then have a: "0 < a" by simp
  show ?thesis
  proof (cases "a < b")
    case True
    with round_below[OF a True assms(3)] show ?thesis by (simp add: f64_div_small[OF a assms(2,1,3)])
  next
    case False
    then have "2 ^ doublings 116 a b \<le> roundHalfEven (a * 2 ^ doublings 116 a b) b"
      using assms by (intro roundHalfEven_mono_low) auto
    with False show ?thesis by (simp add: f64_div_small[OF a assms(2,1,3)])
  qed
qed

lemma f64_format5_full:
  assumes "0 < a" "a < 2 ^ 53"
  shows "f64_format5 (f64_div a a) = ''1.00000''"
proof -
  have "roundHalfEven (a * 2 ^ n) a = 2 ^ n" for n
    using assms roundHalfEven_exact[of a "2 ^ n"] by (simp add: mult.commute)
  moreover have "roundHalfEven (2 ^ n * 100000) (2 ^ n) = 100000" for n :: nat
    using roundHalfEven_exact[of "2 ^ n" 100000] by (simp add: mult.commute)
  moreover have "padDigits 5 0 = ''00000''" by code_simp
  moreover have "itoa 1 = ''1''" by code_simp
  ultimately show ?thesis
    using assms by (simp add: f64_div_small)
qed

end
