(* ===== verification/Store.thy ===== *)
theory Store
  imports Models Float64
begin

text \<open>
  The storage of common/storage: the operations of redis.go, each as the sequence of Redis
  commands the method sends, and the interface of interface.go. The Redis client
  (\<open>rs_client\<close>), the retry helper of client-go (\<open>rs_onError\<close>) and the JSON codecs are
  fields of the store, so every definition is parametric in them; \<open>'s\<close> is the state of the
  outside world. A method sends its commands one after the other and stops at the first one that
  fails, except where the code only logs the error.
\<close>

section \<open>Redis commands\<close>

datatype redis_cmd =
    GET string
  | SET string string
  | DEL string
  | HSET string string string
  | HDEL string string
  | HGETALL string
  | PUBLISH string string

datatype redis_reply = RDone | RVal string | RMap gomap

record 's RedisSynHeartStore =
  rs_client :: "redis_cmd \<Rightarrow> 's \<Rightarrow> (err + redis_reply) \<times> 's"
  rs_onError :: "(err \<Rightarrow> bool) \<Rightarrow> ('s \<Rightarrow> (err + redis_reply) \<times> 's) \<Rightarrow> 's \<Rightarrow> (err + redis_reply) \<times> 's"
  rs_ping :: "'s \<Rightarrow> (err + unit) \<times> 's"
  rs_marshalRun :: "TestRun \<Rightarrow> err + string"
  rs_unmarshalRun :: "string \<Rightarrow> err + TestRun"
  rs_marshalConfig :: "SynTestConfig \<Rightarrow> err + string"
  rs_unmarshalConfig :: "string \<Rightarrow> err + SynTestConfig"
  rs_marshalSummary :: "SyntestConfigSummary \<Rightarrow> err + string"
  rs_unmarshalSummary :: "string \<Rightarrow> err + SyntestConfigSummary"
  rs_marshalStatus :: "SyntestConfigStatus \<Rightarrow> err + string"
  rs_unmarshalStatus :: "string \<Rightarrow> err + SyntestConfigStatus"
  rs_marshalState :: "PluginState \<Rightarrow> err + string"
  rs_unmarshalState :: "string \<Rightarrow> err + PluginState"
  rs_marshalAgent :: "AgentStatus \<Rightarrow> err + string"
  rs_unmarshalAgent :: "string \<Rightarrow> err + AgentStatus"

section \<open>Keys\<close>

definition AllTestRunStatus :: string where "AllTestRunStatus = ''syntest-plugins/all/testRunStatus''"
definition AllPluginStatus :: string where "AllPluginStatus = ''syntest-plugins/all/pluginStatus''"
definition ConfigSynTestsSummary :: string where "ConfigSynTestsSummary = ''configs/syntests/summary''"
definition AgentsAll :: string where "AgentsAll = ''agents/all''"

definition PluginLatestHealthFmt :: "string \<Rightarrow> string" where
  "PluginLatestHealthFmt i = ''syntest-plugins/'' @ i @ ''/latestHealth''"
definition PluginLastUnhealthyFmt :: "string \<Rightarrow> string" where
  "PluginLastUnhealthyFmt i = ''syntest-plugins/'' @ i @ ''/lastUnhealthy''"
definition TestRunLatestFmt :: "string \<Rightarrow> string" where
  "TestRunLatestFmt i = ''syntest-plugins/'' @ i @ ''/latestRun''"
definition TestRunLastFailedFmt :: "string \<Rightarrow> string" where
  "TestRunLastFailedFmt i = ''syntest-plugins/'' @ i @ ''/lastFailedRun''"
definition ConfigSynTestJsonFmt :: "string \<Rightarrow> string" where
  "ConfigSynTestJsonFmt i = ''configs/syntest/'' @ i @ ''/json''"
definition ConfigSynTestRawFmt :: "string \<Rightarrow> string" where
  "ConfigSynTestRawFmt i = ''configs/syntest/'' @ i @ ''/raw''"
definition ConfigSynTestStatusFmt :: "string \<Rightarrow> string" where
  "ConfigSynTestStatusFmt i = ''configs/syntest/'' @ i @ ''/status''"

definition SynTestChannel :: string where "SynTestChannel = ''syntests''"
definition ConfigChannel :: string where "ConfigChannel = ''config''"
definition AgentChannel :: string where "AgentChannel = ''agent''"

section \<open>Commands with retries\<close>

text \<open>
  The type assertion \<open>err.(redis.Error)\<close> holds for the errors the server replied with and for
  the nil reply. Get spells the nil reply out once more.
\<close>

fun isRedisError :: "err \<Rightarrow> bool" where
  "isRedisError (RedisErr m) = True"
| "isRedisError RedisNil = True"
| "isRedisError e = False"

definition isCtxError :: "err \<Rightarrow> bool" where
  "isCtxError e \<longleftrightarrow> errors_Is e CtxDeadlineExceeded \<or> errors_Is e CtxCanceled"

definition retriable :: "err \<Rightarrow> bool" where
  "retriable e \<longleftrightarrow> \<not> isRedisError e \<and> \<not> isCtxError e"

definition retriableGet :: "err \<Rightarrow> bool" where
  "retriableGet e \<longleftrightarrow> \<not> isRedisError e \<and> \<not> isCtxError e \<and> \<not> errors_Is e RedisNil"

fun onReply :: "(redis_reply \<Rightarrow> 'a) \<Rightarrow> (err + redis_reply) \<times> 's \<Rightarrow> (err + 'a) \<times> 's" where
  "onReply f (Inl e, s) = (Inl e, s)"
| "onReply f (Inr rep, s) = (Inr (f rep), s)"

fun replyVal :: "redis_reply \<Rightarrow> string" where
  "replyVal (RVal v) = v"
| "replyVal _ = []"

fun replyMap :: "redis_reply \<Rightarrow> gomap" where
  "replyMap (RMap m) = m"
| "replyMap _ = []"

definition GetR :: "'s RedisSynHeartStore \<Rightarrow> string \<Rightarrow> 's \<Rightarrow> (err + string) \<times> 's" where
  "GetR r key s = onReply replyVal (rs_onError r retriableGet (rs_client r (GET key)) s)"

definition PublishR :: "'s RedisSynHeartStore \<Rightarrow> string \<Rightarrow> string \<Rightarrow> 's \<Rightarrow> (err + unit) \<times> 's" where
  "PublishR r channel msg s = onReply (\<lambda>_. ()) (rs_onError r retriable (rs_client r (PUBLISH channel msg)) s)"

definition SetR :: "'s RedisSynHeartStore \<Rightarrow> string \<Rightarrow> string \<Rightarrow> 's \<Rightarrow> (err + unit) \<times> 's" where
  "SetR r key val s = onReply (\<lambda>_. ()) (rs_onError r retriable (rs_client r (SET key val)) s)"

definition DelR :: "'s RedisSynHeartStore \<Rightarrow> string \<Rightarrow> 's \<Rightarrow> (err + unit) \<times> 's" where
  "DelR r key s = onReply (\<lambda>_. ()) (rs_onError r retriable (rs_client r (DEL key)) s)"

definition HSetR :: "'s RedisSynHeartStore \<Rightarrow> string \<Rightarrow> string \<Rightarrow> string \<Rightarrow> 's \<Rightarrow> (err + unit) \<times> 's" where
  "HSetR r key field val s = onReply (\<lambda>_. ()) (rs_onError r retriable (rs_client r (HSET key field val)) s)"

definition HDelR :: "'s RedisSynHeartStore \<Rightarrow> string \<Rightarrow> string \<Rightarrow> 's \<Rightarrow> (err + unit) \<times> 's" where
  "HDelR r key field s = onReply (\<lambda>_. ()) (rs_onError r retriable (rs_client r (HDEL key field)) s)"

definition HGetAllR :: "'s RedisSynHeartStore \<Rightarrow> string \<Rightarrow> 's \<Rightarrow> (err + gomap) \<times> 's" where
  "HGetAllR r key s = onReply replyMap (rs_onError r retriable (rs_client r (HGETALL key)) s)"

section \<open>Helpers of the methods\<close>

text \<open>\<open>errors.Wrap\<close> around the result of a marshaller.\<close>

fun wrapSum :: "string \<Rightarrow> err + 'a \<Rightarrow> err + 'a" where
  "wrapSum m (Inl e) = Inl (ErrWrap m e)"
| "wrapSum m (Inr a) = Inr a"

text \<open>An error that is logged and otherwise ignored.\<close>

definition logErr :: "(err + unit) \<times> 's \<Rightarrow> (err + unit) \<times> 's" where
  "logErr p = (Inr (), snd p)"

text \<open>The pattern of the fetch methods: a nil reply is \<open>ErrNotFound\<close>, then unmarshal.\<close>

definition fetched ::
  "string \<Rightarrow> string \<Rightarrow> (string \<Rightarrow> err + 'a) \<Rightarrow> (err + string) \<times> 's \<Rightarrow> (err + 'a) \<times> 's" where
  "fetched msg umsg unmarshal p =
     (case p of
        (Inl e, s) \<Rightarrow> (if errors_Is e RedisNil then Inl ErrNotFound else Inl (ErrWrap msg e), s)
      | (Inr v, s) \<Rightarrow> (wrapSum umsg (unmarshal v), s))"

text \<open>
  The loop that unmarshals the fields of a hash: the result is a new map, and the first field
  that does not unmarshal ends it with an error.
\<close>

fun unmarshalAll :: "string \<Rightarrow> (string \<Rightarrow> err + 'a) \<Rightarrow> gomap \<Rightarrow> (string \<times> 'a) list \<Rightarrow> err + (string \<times> 'a) list" where
  "unmarshalAll msg unmarshal [] acc = Inr acc"
| "unmarshalAll msg unmarshal ((k, v) # kvs) acc =
     (case unmarshal v of
        Inl e \<Rightarrow> Inl (ErrWrap msg e)
      | Inr x \<Rightarrow> unmarshalAll msg unmarshal kvs (AList.update k x acc))"

section \<open>Test runs\<close>

definition UpdateTestRunStatus :: "'s RedisSynHeartStore \<Rightarrow> string \<Rightarrow> f64 \<Rightarrow> 's \<Rightarrow> (err + unit) \<times> 's" where
  "UpdateTestRunStatus r pluginId passRatio s =
     wrapErr ''error writing test run status'' (HSetR r AllTestRunStatus pluginId (f64_format5 passRatio) s)"

definition WriteTestRun :: "'s RedisSynHeartStore \<Rightarrow> string \<Rightarrow> TestRun \<Rightarrow> 's \<Rightarrow> (err + unit) \<times> 's" where
  "WriteTestRun r pluginId testRun s =
     (case rs_marshalRun r testRun of
        Inl e \<Rightarrow> (Inl (ErrWrap ''error marshalling test run'' e), s)
      | Inr bytes \<Rightarrow>
          andThen (wrapErr ''error writing test run'' (SetR r (TestRunLatestFmt pluginId) bytes s)) (\<lambda>_ s.
          let passRatio = f64_div (tres_Marks (tr_TestResult testRun)) (tres_MaxMarks (tr_TestResult testRun)) in
          andThen (UpdateTestRunStatus r pluginId passRatio s) (\<lambda>_ s.
          andThen (if f64_lt1 passRatio
                   then wrapErr ''error writing test run'' (SetR r (TestRunLastFailedFmt pluginId) bytes s)
                   else (Inr (), s)) (\<lambda>_ s.
          wrapErr ''error publishing test run to channel''
            (PublishR r SynTestChannel (''new run: '' @ pluginId) s)))))"

definition FetchAllTestRunStatus :: "'s RedisSynHeartStore \<Rightarrow> 's \<Rightarrow> (err + gomap) \<times> 's" where
  "FetchAllTestRunStatus r s = HGetAllR r AllTestRunStatus s"

definition FetchLatestTestRun :: "'s RedisSynHeartStore \<Rightarrow> string \<Rightarrow> 's \<Rightarrow> (err + TestRun) \<times> 's" where
  "FetchLatestTestRun r pluginId s =
     fetched (''couldn't fetch latest test run for:'' @ pluginId) ''error un-marshalling syntest from redis''
       (rs_unmarshalRun r) (GetR r (TestRunLatestFmt pluginId) s)"

definition FetchLastFailedTestRun :: "'s RedisSynHeartStore \<Rightarrow> string \<Rightarrow> 's \<Rightarrow> (err + TestRun) \<times> 's" where
  "FetchLastFailedTestRun r pluginId s =
     fetched (''couldn't fetch last failed test run for:'' @ pluginId) ''error un-marshalling syntest from redis''
       (rs_unmarshalRun r) (GetR r (TestRunLastFailedFmt pluginId) s)"

definition DeleteAllTestRunInfo :: "'s RedisSynHeartStore \<Rightarrow> string \<Rightarrow> 's \<Rightarrow> (err + unit) \<times> 's" where
  "DeleteAllTestRunInfo r pluginId s =
     andThen (logErr (HDelR r AllTestRunStatus pluginId s)) (\<lambda>_ s.
     andThen (logErr (HDelR r AllPluginStatus pluginId s)) (\<lambda>_ s.
     andThen (logErr (DelR r (TestRunLatestFmt pluginId) s)) (\<lambda>_ s.
     andThen (logErr (DelR r (TestRunLastFailedFmt pluginId) s)) (\<lambda>_ s.
     andThen (logErr (DelR r (PluginLatestHealthFmt pluginId) s)) (\<lambda>_ s.
     logErr (DelR r (PluginLastUnhealthyFmt pluginId) s))))))"

section \<open>Test configurations\<close>

definition WriteTestConfigStatus ::
  "'s RedisSynHeartStore \<Rightarrow> string \<Rightarrow> SyntestConfigStatus \<Rightarrow> 's \<Rightarrow> (err + unit) \<times> 's" where
  "WriteTestConfigStatus r configId status s =
     (case rs_marshalStatus r status of
        Inl e \<Rightarrow> (Inl (ErrWrap ''error marshalling config status'' e), s)
      | Inr statusJson \<Rightarrow>
          wrapErr (''error writing config'' @ '', testName='' @ configId)
            (SetR r (ConfigSynTestStatusFmt configId) statusJson s))"

definition FetchTestConfigStatus ::
  "'s RedisSynHeartStore \<Rightarrow> string \<Rightarrow> 's \<Rightarrow> (err + SyntestConfigStatus) \<times> 's" where
  "FetchTestConfigStatus r configId s =
     fetched ''error fetching config status'' ''error un-marshalling config status from redis''
       (rs_unmarshalStatus r) (GetR r (ConfigSynTestStatusFmt configId) s)"

definition summaryOf :: "SynTestConfig \<Rightarrow> SyntestConfigSummary" where
  "summaryOf config =
     \<lparr>sum_Name = stc_Name config, sum_Namespace = stc_Namespace config,
      sum_ConfigId = ComputeSynTestConfigId (stc_Name config) (stc_Namespace config),
      sum_Version = stc_Version config, sum_DisplayName = stc_DisplayName config,
      sum_Description = stc_Description config, sum_Plugin = stc_PluginName config,
      sum_Repeat = stc_Repeat config\<rparr>"

definition emptyConfigStatus :: SyntestConfigStatus where
  "emptyConfigStatus = \<lparr>css_Deployed = False, css_Message = [], css_Agent = [], css_Timestamp = []\<rparr>"

text \<open>The error of writing the empty status is overwritten by the next assignment.\<close>

definition WriteTestConfig ::
  "'s RedisSynHeartStore \<Rightarrow> SynTestConfig \<Rightarrow> string \<Rightarrow> 's \<Rightarrow> (err + unit) \<times> 's" where
  "WriteTestConfig r config raw s =
     (let configId = ComputeSynTestConfigId (stc_Name config) (stc_Namespace config);
          tn = '', testName='' @ configId in
      andThen (wrapErr (''error writing config'' @ tn) (SetR r (ConfigSynTestRawFmt configId) raw s)) (\<lambda>_ s.
      andThen (logErr (WriteTestConfigStatus r configId emptyConfigStatus s)) (\<lambda>_ s.
      case rs_marshalConfig r config of
        Inl e \<Rightarrow> (Inl e, s)
      | Inr b \<Rightarrow>
          andThen (wrapErr (''error writing config'' @ tn) (SetR r (ConfigSynTestJsonFmt configId) b s)) (\<lambda>_ s.
          case rs_marshalSummary r (summaryOf config) of
            Inl e \<Rightarrow> (Inl (ErrWrap ''error marshalling config summary'' e), s)
          | Inr summaryJson \<Rightarrow>
              andThen (wrapErr (''error writing config summary to hashmap'' @ tn)
                        (HSetR r ConfigSynTestsSummary configId summaryJson s)) (\<lambda>_ s.
              wrapErr (''error publishing to config channel'' @ tn)
                (PublishR r ConfigChannel (''update '' @ configId) s))))))"

definition FetchTestConfig :: "'s RedisSynHeartStore \<Rightarrow> string \<Rightarrow> 's \<Rightarrow> (err + SynTestConfig) \<times> 's" where
  "FetchTestConfig r testConfigId s =
     fetched (''couldn't fetch latest config for:'' @ testConfigId) ''error un-marshalling config from redis''
       (rs_unmarshalConfig r) (GetR r (ConfigSynTestJsonFmt testConfigId) s)"

definition FetchAllTestConfigSummary ::
  "'s RedisSynHeartStore \<Rightarrow> 's \<Rightarrow> (err + (string \<times> SyntestConfigSummary) list) \<times> 's" where
  "FetchAllTestConfigSummary r s =
     andThen (wrapErr ''error fetching all test config summaries'' (HGetAllR r ConfigSynTestsSummary s))
       (\<lambda>m s. (unmarshalAll ''error unmarshalling config summary'' (rs_unmarshalSummary r) m [], s))"

definition DeleteTestConfig :: "'s RedisSynHeartStore \<Rightarrow> string \<Rightarrow> 's \<Rightarrow> (err + unit) \<times> 's" where
  "DeleteTestConfig r configId s =
     (let tn = '', testName='' @ configId in
      andThen (wrapErr (''error deleting syntest raw config in ext-storage'' @ tn)
                (DelR r (ConfigSynTestRawFmt configId) s)) (\<lambda>_ s.
      andThen (wrapErr (''error deleting syntest config in ext-storage'' @ tn)
                (DelR r (ConfigSynTestJsonFmt configId) s)) (\<lambda>_ s.
      andThen (wrapErr (''error deleting syntest config status in ext-storage'' @ tn)
                (DelR r (ConfigSynTestStatusFmt configId) s)) (\<lambda>_ s.
      andThen (wrapErr (''error deleting syntest from 'summary' set in ext-storage'' @ tn)
                (HDelR r ConfigSynTestsSummary configId s)) (\<lambda>_ s.
      wrapErr ''error publishing delete signal to config channel''
        (PublishR r ConfigChannel (''deleting '' @ configId) s))))))"

section \<open>Plugin health\<close>

definition UpdatePluginStatus :: "'s RedisSynHeartStore \<Rightarrow> string \<Rightarrow> string \<Rightarrow> 's \<Rightarrow> (err + unit) \<times> 's" where
  "UpdatePluginStatus r pluginId status s =
     wrapErr ''error writing plugin status'' (HSetR r AllPluginStatus pluginId status s)"

definition WritePluginHealthStatus ::
  "'s RedisSynHeartStore \<Rightarrow> string \<Rightarrow> PluginState \<Rightarrow> 's \<Rightarrow> (err + unit) \<times> 's" where
  "WritePluginHealthStatus r pluginId pluginState s =
     (case rs_marshalState r pluginState of
        Inl e \<Rightarrow> (Inl (ErrWrap ''error marshalling plugin state json'' e), s)
      | Inr b \<Rightarrow>
          andThen (wrapErr (''error writing health status to redis, plugin: '' @ pluginId)
                    (SetR r (PluginLatestHealthFmt pluginId) b s)) (\<lambda>_ s.
          andThen (if ps_Status pluginState \<noteq> Running
                   then wrapErr (''error writing last bad health status to redis, plugin: '' @ pluginId)
                          (SetR r (PluginLastUnhealthyFmt pluginId) b s)
                   else (Inr (), s)) (\<lambda>_ s.
          wrapErr (''error updating plugins status, plugin: '' @ pluginId)
            (UpdatePluginStatus r pluginId (ps_Status pluginState) s))))"

definition FetchPluginHealthStatus ::
  "'s RedisSynHeartStore \<Rightarrow> string \<Rightarrow> 's \<Rightarrow> (err + PluginState) \<times> 's" where
  "FetchPluginHealthStatus r pluginId s =
     fetched (''error reading health status frp, redis, plugin: '' @ pluginId) ''error unmarshalling plugin state json''
       (rs_unmarshalState r) (GetR r (PluginLatestHealthFmt pluginId) s)"

definition FetchPluginLastUnhealthyStatus ::
  "'s RedisSynHeartStore \<Rightarrow> string \<Rightarrow> 's \<Rightarrow> (err + PluginState) \<times> 's" where
  "FetchPluginLastUnhealthyStatus r pluginId s =
     fetched (''error reading last unhealthy status frp, redis, plugin: '' @ pluginId) ''error unmarshalling plugin state json''
       (rs_unmarshalState r) (GetR r (PluginLastUnhealthyFmt pluginId) s)"

definition FetchAllPluginStatus :: "'s RedisSynHeartStore \<Rightarrow> 's \<Rightarrow> (err + gomap) \<times> 's" where
  "FetchAllPluginStatus r s = HGetAllR r AllPluginStatus s"

section \<open>Agents\<close>

definition FetchAllAgentStatus ::
  "'s RedisSynHeartStore \<Rightarrow> 's \<Rightarrow> (err + (string \<times> AgentStatus) list) \<times> 's" where
  "FetchAllAgentStatus r s =
     andThen (HGetAllR r AgentsAll s)
       (\<lambda>m s. (unmarshalAll ''error getting agent status'' (rs_unmarshalAgent r) m [], s))"

definition WriteAgentStatus :: "'s RedisSynHeartStore \<Rightarrow> string \<Rightarrow> AgentStatus \<Rightarrow> 's \<Rightarrow> (err + unit) \<times> 's" where
  "WriteAgentStatus r agentId status s =
     (case rs_marshalAgent r status of
        Inl e \<Rightarrow> (Inl (ErrWrap ''error marshalling agent status'' e), s)
      | Inr b \<Rightarrow> wrapErr ''error writing agent status to redis'' (HSetR r AgentsAll agentId b s))"

definition DeleteAgentStatus :: "'s RedisSynHeartStore \<Rightarrow> string \<Rightarrow> 's \<Rightarrow> (err + unit) \<times> 's" where
  "DeleteAgentStatus r agentId s =
     wrapErr ''error deleting agent from redis'' (HDelR r AgentsAll agentId s)"

definition NewAgentEvent :: "'s RedisSynHeartStore \<Rightarrow> string \<Rightarrow> 's \<Rightarrow> (err + unit) \<times> 's" where
  "NewAgentEvent r event s =
     wrapErr ''error publishing 'agent' signal to config channel'' (PublishR r AgentChannel event s)"

section \<open>The storage interface\<close>

text \<open>The methods of the Go interface that the components call; subscriptions are left out.\<close>

record 's SynHeartStore =
  st_WriteTestRun :: "string \<Rightarrow> TestRun \<Rightarrow> 's \<Rightarrow> (err + unit) \<times> 's"
  st_FetchLatestTestRun :: "string \<Rightarrow> 's \<Rightarrow> (err + TestRun) \<times> 's"
  st_FetchLastFailedTestRun :: "string \<Rightarrow> 's \<Rightarrow> (err + TestRun) \<times> 's"
  st_FetchAllTestRunStatus :: "'s \<Rightarrow> (err + gomap) \<times> 's"
  st_DeleteAllTestRunInfo :: "string \<Rightarrow> 's \<Rightarrow> (err + unit) \<times> 's"
  st_WritePluginHealthStatus :: "string \<Rightarrow> PluginState \<Rightarrow> 's \<Rightarrow> (err + unit) \<times> 's"
  st_FetchPluginHealthStatus :: "string \<Rightarrow> 's \<Rightarrow> (err + PluginState) \<times> 's"
  st_FetchPluginLastUnhealthyStatus :: "string \<Rightarrow> 's \<Rightarrow> (err + PluginState) \<times> 's"
  st_FetchAllPluginStatus :: "'s \<Rightarrow> (err + gomap) \<times> 's"
  st_WriteTestConfig :: "SynTestConfig \<Rightarrow> string \<Rightarrow> 's \<Rightarrow> (err + unit) \<times> 's"
  st_FetchTestConfig :: "string \<Rightarrow> 's \<Rightarrow> (err + SynTestConfig) \<times> 's"
  st_DeleteTestConfig :: "string \<Rightarrow> 's \<Rightarrow> (err + unit) \<times> 's"
  st_WriteTestConfigStatus :: "string \<Rightarrow> SyntestConfigStatus \<Rightarrow> 's \<Rightarrow> (err + unit) \<times> 's"
  st_FetchTestConfigStatus :: "string \<Rightarrow> 's \<Rightarrow> (err + SyntestConfigStatus) \<times> 's"
  st_FetchAllTestConfigSummary :: "'s \<Rightarrow> (err + (string \<times> SyntestConfigSummary) list) \<times> 's"
  st_FetchAllAgentStatus :: "'s \<Rightarrow> (err + (string \<times> AgentStatus) list) \<times> 's"
  st_WriteAgentStatus :: "string \<Rightarrow> AgentStatus \<Rightarrow> 's \<Rightarrow> (err + unit) \<times> 's"
  st_DeleteAgentStatus :: "string \<Rightarrow> 's \<Rightarrow> (err + unit) \<times> 's"
  st_NewAgentEvent :: "string \<Rightarrow> 's \<Rightarrow> (err + unit) \<times> 's"
  st_Ping :: "'s \<Rightarrow> (err + unit) \<times> 's"

definition NewRedisSynHeartStore :: "'s RedisSynHeartStore \<Rightarrow> 's SynHeartStore" where
  "NewRedisSynHeartStore r =
     \<lparr>st_WriteTestRun = WriteTestRun r, st_FetchLatestTestRun = FetchLatestTestRun r,
      st_FetchLastFailedTestRun = FetchLastFailedTestRun r,
      st_FetchAllTestRunStatus = FetchAllTestRunStatus r,
      st_DeleteAllTestRunInfo = DeleteAllTestRunInfo r,
      st_WritePluginHealthStatus = WritePluginHealthStatus r,
      st_FetchPluginHealthStatus = FetchPluginHealthStatus r,
      st_FetchPluginLastUnhealthyStatus = FetchPluginLastUnhealthyStatus r,
      st_FetchAllPluginStatus = FetchAllPluginStatus r,
      st_WriteTestConfig = WriteTestConfig r, st_FetchTestConfig = FetchTestConfig r,
      st_DeleteTestConfig = DeleteTestConfig r,
      st_WriteTestConfigStatus = WriteTestConfigStatus r,
      st_FetchTestConfigStatus = FetchTestConfigStatus r,
      st_FetchAllTestConfigSummary = FetchAllTestConfigSummary r,
      st_FetchAllAgentStatus = FetchAllAgentStatus r, st_WriteAgentStatus = WriteAgentStatus r,
      st_DeleteAgentStatus = DeleteAgentStatus r, st_NewAgentEvent = NewAgentEvent r,
      st_Ping = rs_ping r\<rparr>"

definition NewSynHeartStore :: "string \<Rightarrow> 's RedisSynHeartStore \<Rightarrow> err + 's SynHeartStore" where
  "NewSynHeartStore type r =
     (if type = ''redis'' then Inr (NewRedisSynHeartStore r)
      else Inl (ErrNew (''unsupported store type '' @ type)))"

end
