(* ===== verification/StoreLaws.thy ===== *)
theory StoreLaws
  imports Store
begin

text \<open>
  What the storage promises. \<open>redis_service\<close> states the documented behaviour of a Redis
  server behind its client and of the retry helper: a command that returns without an error has
  taken effect, one that returns an error may or may not have. Encoding and decoding a protobuf
  message gives it back; encoding a struct as JSON gives text that can be decoded. \<open>synheart_store\<close> is the contract
  of the storage interface the other components are verified against: what each method keeps
  and what it changes of an abstract view, whether it fails or not. The Redis implementation is
  shown to meet the contract over every such server.
\<close>

section \<open>A Redis server\<close>

text \<open>Strings and hashes share the key space; a missing hash is empty.\<close>

record rview =
  rv_str :: "string \<rightharpoonup> string"
  rv_hash :: "string \<Rightarrow> string \<rightharpoonup> string"
  rv_pub :: "(string \<times> string) list"

fun effect :: "redis_cmd \<Rightarrow> rview \<Rightarrow> rview" where
  "effect (GET k) v = v"
| "effect (HGETALL k) v = v"
| "effect (SET k x) v = v\<lparr>rv_str := (rv_str v)(k \<mapsto> x), rv_hash := (rv_hash v)(k := Map.empty)\<rparr>"
| "effect (DEL k) v = v\<lparr>rv_str := (rv_str v)(k := None), rv_hash := (rv_hash v)(k := Map.empty)\<rparr>"
| "effect (HSET k f x) v = v\<lparr>rv_hash := (rv_hash v)(k := (rv_hash v k)(f \<mapsto> x))\<rparr>"
| "effect (HDEL k f) v = v\<lparr>rv_hash := (rv_hash v)(k := (rv_hash v k)(f := None))\<rparr>"
| "effect (PUBLISH c m) v = v\<lparr>rv_pub := rv_pub v @ [(c, m)]\<rparr>"

fun replyOk :: "redis_cmd \<Rightarrow> rview \<Rightarrow> redis_reply \<Rightarrow> bool" where
  "replyOk (GET k) v rep \<longleftrightarrow> (\<exists>x. rep = RVal x \<and> rv_str v k = Some x)"
| "replyOk (HGETALL k) v rep \<longleftrightarrow> (\<exists>m. rep = RMap m \<and> gwf m \<and> map_of m = rv_hash v k)"
| "replyOk _ v rep \<longleftrightarrow> True"

text \<open>A command on a key that holds the other type is an error.\<close>

fun typeOk :: "redis_cmd \<Rightarrow> rview \<Rightarrow> bool" where
  "typeOk (GET k) v \<longleftrightarrow> rv_hash v k = Map.empty"
| "typeOk (HSET k f x) v \<longleftrightarrow> rv_str v k = None"
| "typeOk (HDEL k f) v \<longleftrightarrow> rv_str v k = None"
| "typeOk (HGETALL k) v \<longleftrightarrow> rv_str v k = None"
| "typeOk _ v \<longleftrightarrow> True"

text \<open>The runs of the retry helper: each attempt but the last fails with a retriable error.\<close>

inductive retried :: "(err \<Rightarrow> bool) \<Rightarrow> ('s \<Rightarrow> (err + 'a) \<times> 's) \<Rightarrow> 's \<Rightarrow> (err + 'a) \<times> 's \<Rightarrow> bool"
  for retr fn where
  attempt: "retried retr fn s (fn s)"
| again: "\<lbrakk>fn s = (Inl e, s1); retr e; retried retr fn s1 p\<rbrakk> \<Longrightarrow> retried retr fn s p"

locale redis_service =
  fixes r :: "'s RedisSynHeartStore" and v :: "'s \<Rightarrow> rview"
  assumes client_ok: "rs_client r c s = (Inr rep, s') \<Longrightarrow> v s' = effect c (v s) \<and> replyOk c (v s) rep"
    and client_err: "rs_client r c s = (Inl e, s') \<Longrightarrow> v s' = v s \<or> v s' = effect c (v s)"
    and client_nil: "rs_client r c s = (Inl e, s') \<Longrightarrow> errors_Is e RedisNil \<Longrightarrow>
      \<exists>k. c = GET k \<and> rv_str (v s) k = None"
    and onError_retries: "retried retr fn s (rs_onError r retr fn s)"
    and run_codec: "rs_marshalRun r t = Inr b \<Longrightarrow> rs_unmarshalRun r b = Inr t"
    and config_codec: "rs_marshalConfig r c' = Inr b \<Longrightarrow> rs_unmarshalConfig r b = Inr c'"
    and summary_codec: "rs_marshalSummary r sm = Inr b \<Longrightarrow> \<exists>y. rs_unmarshalSummary r b = Inr y"
    and status_codec: "rs_marshalStatus r x = Inr b \<Longrightarrow> \<exists>y. rs_unmarshalStatus r b = Inr y"
    and state_codec: "rs_marshalState r p = Inr b \<Longrightarrow> \<exists>y. rs_unmarshalState r b = Inr y"
    and agent_codec: "rs_marshalAgent r a = Inr b \<Longrightarrow> \<exists>y. rs_unmarshalAgent r b = Inr y"
    and ping_reads: "v (snd (rs_ping r s)) = v s"

text \<open>A server that answers every well-typed command; the structs of the codecs can be encoded.\<close>

locale reliable_redis = redis_service +
  assumes client_total: "typeOk c (v s) \<Longrightarrow>
      (\<exists>rep s'. rs_client r c s = (Inr rep, s')) \<or>
      (\<exists>k s'. c = GET k \<and> rv_str (v s) k = None \<and> rs_client r c s = (Inl RedisNil, s'))"
    and summary_encodes: "\<exists>b. rs_marshalSummary r sm = Inr b"
    and agent_encodes: "\<exists>b. rs_marshalAgent r a = Inr b"
    and state_encodes: "\<exists>b. rs_marshalState r p = Inr b"
    and status_encodes: "\<exists>b. rs_marshalStatus r x = Inr b"

section \<open>Retries\<close>

lemma reads_funpow [simp]: "(effect (GET k) ^^ n) w = w" "(effect (HGETALL k) ^^ n) w = w"
  by (induction n) auto

text \<open>A command sent any number of times, and at least once when it is reported as done.\<close>

definition did :: "bool \<Rightarrow> redis_cmd \<Rightarrow> rview \<Rightarrow> rview \<Rightarrow> bool" where
  "did sure c w w' \<longleftrightarrow> (\<exists>n. w' = (effect c ^^ n) w \<and> (sure \<longrightarrow> 0 < n))"

context redis_service begin

lemma client_err_funpow: "rs_client r c s = (Inl e, s') \<Longrightarrow> \<exists>n. v s' = (effect c ^^ n) (v s)"
proof -
  assume "rs_client r c s = (Inl e, s')"
  from client_err[OF this] have "v s' = (effect c ^^ 0) (v s) \<or> v s' = (effect c ^^ 1) (v s)" by simp
  then show ?thesis by blast
qed

lemma retried_effect:
  assumes "retried retr (rs_client r c) s p" and "p = (res, s')"
  shows "\<exists>n. v s' = (effect c ^^ n) (v s) \<and> (\<forall>rep. res = Inr rep \<longrightarrow> 0 < n \<and> (\<exists>m. replyOk c ((effect c ^^ m) (v s)) rep)) \<and>
    (\<forall>e. res = Inl e \<longrightarrow> errors_Is e RedisNil \<longrightarrow> (\<exists>k. c = GET k \<and> rv_str (v s) k = None))"
  using assms
proof (induction rule: retried.induct)
  case (attempt s)
  show ?case
  proof (cases res)
    case (Inl e)
    with attempt obtain n where "v s' = (effect c ^^ n) (v s)" using client_err_funpow by blast
    with client_nil[of c s e s'] attempt Inl show ?thesis by auto
  next
    case (Inr rep)
    with client_ok[of c s rep s'] attempt have "v s' = (effect c ^^ 1) (v s)" "replyOk c ((effect c ^^ 0) (v s)) rep"
      by auto
    with Inr show ?thesis by blast
  qed
next
  case (again s e s1 p)
  obtain k where k: "v s1 = (effect c ^^ k) (v s)"
    using client_err_funpow[OF again.hyps(1)] by blast
  from again.IH[OF again.prems] obtain n where n: "v s' = (effect c ^^ n) (v s1)"
    "\<And>rep. res = Inr rep \<Longrightarrow> 0 < n \<and> (\<exists>m. replyOk c ((effect c ^^ m) (v s1)) rep)"
    "\<And>e. res = Inl e \<Longrightarrow> errors_Is e RedisNil \<Longrightarrow> (\<exists>k. c = GET k \<and> rv_str (v s1) k = None)"
    by blast
  have "v s' = (effect c ^^ (n + k)) (v s)" using n(1) k by (simp add: funpow_add)
  moreover have "0 < n + k \<and> (\<exists>m. replyOk c ((effect c ^^ m) (v s)) rep)" if "res = Inr rep" for rep
    using n(2)[OF that] k by (metis add_gr_0 comp_apply funpow_add)
  moreover have "\<exists>j. c = GET j \<and> rv_str (v s) j = None" if "res = Inl x" "errors_Is x RedisNil" for x
  proof -
    from n(3)[OF that] obtain j where j: "c = GET j" "rv_str (v s1) j = None" by blast
    then have "v s1 = v s" using client_err[OF again.hyps(1)] by simp
    with j show ?thesis by simp
  qed
  ultimately show ?case by blast
qed

lemma command_did:
  assumes "onReply f (rs_onError r retr (rs_client r c) s) = (res, s')"
  shows "did (\<exists>y. res = Inr y) c (v s) (v s')"
    and "res = Inr y \<Longrightarrow> \<exists>rep m. y = f rep \<and> replyOk c ((effect c ^^ m) (v s)) rep"
    and "res = Inl e \<Longrightarrow> errors_Is e RedisNil \<Longrightarrow> \<exists>k. c = GET k \<and> rv_str (v s) k = None"
proof -
  obtain res0 where res0: "rs_onError r retr (rs_client r c) s = (res0, s')"
    "res = (case res0 of Inl e \<Rightarrow> Inl e | Inr rep \<Rightarrow> Inr (f rep))"
    using assms(1) by (cases "(f, rs_onError r retr (rs_client r c) s)" rule: onReply.cases) auto
  from retried_effect[OF onError_retries res0(1)] obtain n where
    n: "v s' = (effect c ^^ n) (v s)"
      "\<forall>rep. res0 = Inr rep \<longrightarrow> 0 < n \<and> (\<exists>m. replyOk c ((effect c ^^ m) (v s)) rep)"
      "\<forall>e. res0 = Inl e \<longrightarrow> errors_Is e RedisNil \<longrightarrow> (\<exists>k. c = GET k \<and> rv_str (v s) k = None)"
    by blast
  show "did (\<exists>y. res = Inr y) c (v s) (v s')"
    using n(1,2) res0(2) by (cases res0) (auto simp: did_def)
  show "\<exists>rep m. y = f rep \<and> replyOk c ((effect c ^^ m) (v s)) rep" if "res = Inr y"
    using that res0(2) n(2) by (cases res0) auto
  show "\<exists>k. c = GET k \<and> rv_str (v s) k = None" if "res = Inl e" "errors_Is e RedisNil"
    using that n(3) res0(2) by (cases res0) auto
qed

lemma primitives_did:
  "SetR r k x s = (res, s') \<Longrightarrow> did (res = Inr ()) (SET k x) (v s) (v s')"
  "DelR r k s = (res, s') \<Longrightarrow> did (res = Inr ()) (DEL k) (v s) (v s')"
  "HSetR r k f x s = (res, s') \<Longrightarrow> did (res = Inr ()) (HSET k f x) (v s) (v s')"
  "HDelR r k f s = (res, s') \<Longrightarrow> did (res = Inr ()) (HDEL k f) (v s) (v s')"
  "PublishR r k x s = (res, s') \<Longrightarrow> did (res = Inr ()) (PUBLISH k x) (v s) (v s')"
  using command_did(1)[where f = "\<lambda>_. ()"]
  by (fastforce simp: SetR_def DelR_def HSetR_def HDelR_def PublishR_def)+

lemma GetR_law:
  assumes "GetR r k s = (res, s')"
  shows "v s' = v s" and "res = Inr x \<Longrightarrow> rv_str (v s) k = Some x"
    and "res = Inl e \<Longrightarrow> errors_Is e RedisNil \<Longrightarrow> rv_str (v s) k = None"
proof -
  note law = command_did[OF assms[unfolded GetR_def], simplified]
  show "v s' = v s" using law(1) by (auto simp: did_def)
  show "rv_str (v s) k = Some x" if "res = Inr x" using law(2)[OF that] by auto
  show "rv_str (v s) k = None" if "res = Inl e" "errors_Is e RedisNil" using law(3)[OF that] by auto
qed

lemma HGetAllR_law:
  assumes "HGetAllR r k s = (res, s')"
  shows "v s' = v s" and "res = Inr m \<Longrightarrow> gwf m \<and> map_of m = rv_hash (v s) k"
proof -
  note law = command_did[OF assms[unfolded HGetAllR_def], simplified]
  show "v s' = v s" using law(1) by (auto simp: did_def)
  show "gwf m \<and> map_of m = rv_hash (v s) k" if "res = Inr m" using law(2)[OF that] by auto
qed

end

section \<open>Methods as chains of commands\<close>

text \<open>
  A method that sends the given commands. A command marked True ends the method when it fails;
  the failure of one marked False is only logged. The flag of the relation says whether the
  method returned without an error.
\<close>

fun chain :: "(bool \<times> redis_cmd) list \<Rightarrow> bool \<Rightarrow> rview \<Rightarrow> rview \<Rightarrow> bool" where
  "chain [] ok w w' \<longleftrightarrow> w' = w"
| "chain ((must, c) # cs) ok w w' \<longleftrightarrow>
     must \<and> \<not> ok \<and> did False c w w' \<or> (\<exists>w1. did must c w w1 \<and> chain cs ok w1 w')"

lemma did_preserves:
  assumes "did must c w w'" and "\<And>w. P w \<Longrightarrow> P (effect c w)" and "P w"
  shows "P w'"
proof -
  have "P ((effect c ^^ n) w)" for n by (induction n) (auto intro: assms(2,3))
  with assms(1) show ?thesis by (auto simp: did_def)
qed

lemma did_establishes:
  assumes "did True c w w'" and "\<And>w. P (effect c w)"
  shows "P w'"
  using assms by (auto simp: did_def gr0_conv_Suc)

lemma chain_preserves:
  assumes "chain cs ok w w'" and "\<And>m c w. (m, c) \<in> set cs \<Longrightarrow> P w \<Longrightarrow> P (effect c w)" and "P w"
  shows "P w'"
  using assms
proof (induction cs ok w w' rule: chain.induct)
  case (2 must c cs ok w w')
  have step: "P w1" if "did b c w w1" for b w1
    using did_preserves[OF that, of P] 2(3,4) by auto
  show ?case using 2(1) 2(2) 2(3) step by auto (metis 2(1))
qed simp

lemma chain_keeps:
  assumes "chain cs ok w w'" and "\<And>m c w. (m, c) \<in> set cs \<Longrightarrow> F (effect c w) = F w"
  shows "F w' = F w"
  using chain_preserves[OF assms(1), of "\<lambda>x. F x = F w"] assms(2) by auto

lemma chain_establishes:
  assumes "chain (as @ (True, c) # bs) True w w'"
    and "\<And>w. P (effect c w)" and "\<And>m d w. (m, d) \<in> set bs \<Longrightarrow> P w \<Longrightarrow> P (effect d w)"
  shows "P w'"
  using assms(1)
proof (induction as arbitrary: w)
  case Nil
  then obtain w1 where w1: "did True c w w1" "chain bs True w1 w'" by auto
  from chain_preserves[OF w1(2), of P] did_establishes[OF w1(1), of P] assms(2,3) show ?case by blast
next
  case (Cons a as)
  then show ?case by (cases a) auto
qed

lemma chain_establishes_nth:
  assumes "chain cs True w w'" and "n < length cs" and "cs ! n = (True, c)"
    and "\<And>w. P (effect c w)"
    and "\<And>m d w. (m, d) \<in> set (drop (Suc n) cs) \<Longrightarrow> P w \<Longrightarrow> P (effect d w)"
  shows "P w'"
proof -
  have "cs = take n cs @ (True, c) # drop (Suc n) cs"
    using id_take_nth_drop[OF assms(2)] assms(3) by simp
  with assms(1) have "chain (take n cs @ (True, c) # drop (Suc n) cs) True w w'" by simp
  from chain_establishes[OF this, of P] assms(4,5) show ?thesis by blast
qed

lemma chain_must:
  assumes "andThen (wrapErr m p) f = (res, s')" and "\<And>res1 s1. p = (res1, s1) \<Longrightarrow> did (res1 = Inr ()) c w (v s1)"
    and "\<And>s1. f () s1 = (res, s') \<Longrightarrow> chain cs (res = Inr x) (v s1) (v s')"
  shows "chain ((True, c) # cs) (res = Inr x) w (v s')"
proof (cases p)
  case (Pair res1 s1)
  show ?thesis
  proof (cases res1)
    case (Inl e)
    with assms(1) Pair have "s1 = s'" "res = Inl (ErrWrap m e)" by auto
    with assms(2)[OF Pair] Inl show ?thesis by simp
  next
    case (Inr u)
    with assms Pair show ?thesis by auto
  qed
qed

lemma chain_log:
  assumes "andThen (logErr p) f = (res, s')" and "\<And>res1 s1. p = (res1, s1) \<Longrightarrow> did (res1 = Inr ()) c w (v s1)"
    and "\<And>s1. f () s1 = (res, s') \<Longrightarrow> chain cs (res = Inr x) (v s1) (v s')"
  shows "chain ((False, c) # cs) (res = Inr x) w (v s')"
proof -
  obtain res1 s1 where p: "p = (res1, s1)" by (cases p)
  with assms(2) have "did False c w (v s1)" by (auto simp: did_def)
  with assms(1,3) p show ?thesis by (auto simp: logErr_def)
qed

lemma chain_end:
  assumes "wrapErr m p = (res, s')" and "\<And>res1 s1. p = (res1, s1) \<Longrightarrow> did (res1 = Inr ()) c w (v s1)"
  shows "chain [(True, c)] (res = Inr ()) w (v s')"
proof (cases p)
  case (Pair res1 s1)
  with assms(1) assms(2)[OF Pair] show ?thesis by (cases res1) auto
qed

lemma did_wrapErr:
  assumes "\<And>res1 s1. p = (res1, s1) \<Longrightarrow> did (res1 = Inr ()) c w (v s1)" and "wrapErr m p = (res, s')"
  shows "did (res = Inr ()) c w (v s')"
proof (cases p)
  case (Pair res1 s1)
  with assms(2) assms(1)[OF Pair] show ?thesis by (cases res1) auto
qed

lemma chain_log_end:
  assumes "logErr p = (res, s')" and "\<And>res1 s1. p = (res1, s1) \<Longrightarrow> did (res1 = Inr ()) c w (v s1)"
  shows "chain [(False, c)] (res = Inr ()) w (v s')"
proof -
  obtain res1 s1 where p: "p = (res1, s1)" by (cases p)
  with assms(2) have "did False c w (v s1)" by (auto simp: did_def)
  with assms(1) p show ?thesis by (auto simp: logErr_def)
qed

end
