(* ===== verification/StoreContract.thy ===== *)
theory StoreContract
  imports StoreLaws
begin

text \<open>
  The contract \<open>synheart_store\<close> of the storage interface, over an abstract view of the stored
  data, and the proof that the Redis implementation meets it over every server of
  \<open>redis_service\<close>.
\<close>

section \<open>The abstract view\<close>

record store_view =
  v_cfg :: "string \<rightharpoonup> SynTestConfig"
  v_raw :: "string \<rightharpoonup> string"
  v_status :: "string \<rightharpoonup> SyntestConfigStatus"
  v_sum :: "string \<rightharpoonup> SyntestConfigSummary"
  v_agents :: "string \<rightharpoonup> AgentStatus"
  v_latest :: "string \<rightharpoonup> TestRun"
  v_failed :: "string \<rightharpoonup> TestRun"
  v_runStatus :: "string \<rightharpoonup> string"
  v_health :: "string \<rightharpoonup> PluginState"
  v_unhealthy :: "string \<rightharpoonup> PluginState"
  v_pluginStatus :: "string \<rightharpoonup> string"

text \<open>Everything but the data of one configuration, and everything but the data of one plugin.\<close>

definition offConfig :: "string \<Rightarrow> store_view \<Rightarrow> store_view" where
  "offConfig i a = a\<lparr>v_cfg := (v_cfg a)(i := None), v_raw := (v_raw a)(i := None),
     v_status := (v_status a)(i := None), v_sum := (v_sum a)(i := None)\<rparr>"

definition offPlugin :: "string \<Rightarrow> store_view \<Rightarrow> store_view" where
  "offPlugin i a = a\<lparr>v_latest := (v_latest a)(i := None), v_failed := (v_failed a)(i := None),
     v_runStatus := (v_runStatus a)(i := None), v_health := (v_health a)(i := None),
     v_unhealthy := (v_unhealthy a)(i := None), v_pluginStatus := (v_pluginStatus a)(i := None)\<rparr>"

lemma offConfig_other:
  assumes "offConfig i a = offConfig i b"
  shows "j \<noteq> i \<Longrightarrow> v_cfg a j = v_cfg b j" "j \<noteq> i \<Longrightarrow> v_sum a j = v_sum b j"
    "j \<noteq> i \<Longrightarrow> v_status a j = v_status b j" "v_agents a = v_agents b"
    "v_runStatus a = v_runStatus b"
proof -
  have eqs: "(v_cfg a)(i := None) = (v_cfg b)(i := None)" "(v_sum a)(i := None) = (v_sum b)(i := None)"
    "(v_status a)(i := None) = (v_status b)(i := None)" "v_agents a = v_agents b"
    "v_runStatus a = v_runStatus b"
    using assms by (auto simp: offConfig_def intro: store_view.equality dest: arg_cong[of _ _ v_cfg]
        arg_cong[of _ _ v_sum] arg_cong[of _ _ v_status] arg_cong[of _ _ v_agents] arg_cong[of _ _ v_runStatus])
  show "j \<noteq> i \<Longrightarrow> v_cfg a j = v_cfg b j" using fun_cong[OF eqs(1), of j] by simp
  show "j \<noteq> i \<Longrightarrow> v_sum a j = v_sum b j" using fun_cong[OF eqs(2), of j] by simp
  show "j \<noteq> i \<Longrightarrow> v_status a j = v_status b j" using fun_cong[OF eqs(3), of j] by simp
qed (use assms in \<open>auto simp: offConfig_def dest: arg_cong[of _ _ v_agents] arg_cong[of _ _ v_runStatus]\<close>)

lemma offPlugin_other:
  assumes "offPlugin i a = offPlugin i b"
  shows "j \<noteq> i \<Longrightarrow> v_runStatus a j = v_runStatus b j" "v_agents a = v_agents b"
    "v_cfg a = v_cfg b" "v_sum a = v_sum b" "v_status a = v_status b"
proof -
  have "(v_runStatus a)(i := None) = (v_runStatus b)(i := None)"
    using assms by (auto simp: offPlugin_def dest: arg_cong[of _ _ v_runStatus])
  from fun_cong[OF this, of j] show "j \<noteq> i \<Longrightarrow> v_runStatus a j = v_runStatus b j" by simp
qed (use assms in \<open>auto simp: offPlugin_def dest: arg_cong[of _ _ v_agents] arg_cong[of _ _ v_cfg]
    arg_cong[of _ _ v_sum] arg_cong[of _ _ v_status]\<close>)

abbreviation cid :: "SynTestConfig \<Rightarrow> string" where
  "cid c \<equiv> ComputeSynTestConfigId (stc_Name c) (stc_Namespace c)"

section \<open>The contract of the interface\<close>

text \<open>
  \<open>nsum\<close> and \<open>nagent\<close> are what is kept of a summary and of an agent status that is written
  and read back. Every law holds whether the method returns an error or not; the last part of
  a law says what a return without an error means.
\<close>

locale synheart_store =
  fixes st :: "'s SynHeartStore" and view :: "'s \<Rightarrow> store_view" and inv :: "'s \<Rightarrow> bool"
    and nsum :: "SyntestConfigSummary \<Rightarrow> SyntestConfigSummary" and nagent :: "AgentStatus \<Rightarrow> AgentStatus"
    and nstatus :: "SyntestConfigStatus \<Rightarrow> SyntestConfigStatus"
  assumes write_config: "inv s \<Longrightarrow> st_WriteTestConfig st c raw s = (res, s') \<Longrightarrow>
      inv s' \<and> offConfig (cid c) (view s') = offConfig (cid c) (view s) \<and>
      (v_cfg (view s') (cid c) = v_cfg (view s) (cid c) \<or> v_cfg (view s') (cid c) = Some c) \<and>
      (res = Inr () \<longrightarrow> v_cfg (view s') (cid c) = Some c \<and> v_raw (view s') (cid c) = Some raw \<and>
        v_sum (view s') (cid c) = Some (nsum (summaryOf c)))"
    and fetch_config: "inv s \<Longrightarrow> st_FetchTestConfig st i s = (res1, s') \<Longrightarrow>
      inv s' \<and> view s' = view s \<and> (\<forall>c. res1 = Inr c \<longrightarrow> v_cfg (view s) i = Some c) \<and>
      (res1 = Inl ErrNotFound \<longrightarrow> v_cfg (view s) i = None)"
    and delete_config: "inv s \<Longrightarrow> st_DeleteTestConfig st i s = (res, s') \<Longrightarrow>
      inv s' \<and> offConfig i (view s') = offConfig i (view s) \<and>
      (v_sum (view s') i = v_sum (view s) i \<or> v_sum (view s') i = None) \<and>
      (res = Inr () \<longrightarrow> v_cfg (view s') i = None \<and> v_sum (view s') i = None \<and>
        v_raw (view s') i = None \<and> v_status (view s') i = None)"
    and write_config_status: "inv s \<Longrightarrow> st_WriteTestConfigStatus st i x s = (res, s') \<Longrightarrow>
      inv s' \<and> (view s' = view s \<and> res \<noteq> Inr () \<or>
        view s' = (view s)\<lparr>v_status := (v_status (view s))(i \<mapsto> nstatus x)\<rparr>)"
    and fetch_summaries: "inv s \<Longrightarrow> st_FetchAllTestConfigSummary st s = (res2, s') \<Longrightarrow>
      inv s' \<and> view s' = view s \<and> (\<forall>m. res2 = Inr m \<longrightarrow> gwf m \<and> map_of m = v_sum (view s))"
    and fetch_agents: "inv s \<Longrightarrow> st_FetchAllAgentStatus st s = (res3, s') \<Longrightarrow>
      inv s' \<and> view s' = view s \<and> (\<forall>m. res3 = Inr m \<longrightarrow> gwf m \<and> map_of m = v_agents (view s))"
    and write_agent: "inv s \<Longrightarrow> st_WriteAgentStatus st i a s = (res, s') \<Longrightarrow>
      inv s' \<and> (view s' = view s \<and> res \<noteq> Inr () \<or>
        view s' = (view s)\<lparr>v_agents := (v_agents (view s))(i \<mapsto> nagent a)\<rparr>)"
    and delete_agent: "inv s \<Longrightarrow> st_DeleteAgentStatus st i s = (res, s') \<Longrightarrow>
      inv s' \<and> (view s' = view s \<and> res \<noteq> Inr () \<or>
        view s' = (view s)\<lparr>v_agents := (v_agents (view s))(i := None)\<rparr>)"
    and fetch_run_status: "inv s \<Longrightarrow> st_FetchAllTestRunStatus st s = (res4, s') \<Longrightarrow>
      inv s' \<and> view s' = view s \<and> (\<forall>m. res4 = Inr m \<longrightarrow> gwf m \<and> map_of m = v_runStatus (view s))"
    and delete_run_info: "inv s \<Longrightarrow> st_DeleteAllTestRunInfo st i s = (res, s') \<Longrightarrow>
      inv s' \<and> offPlugin i (view s') = offPlugin i (view s) \<and> res = Inr () \<and>
      (v_runStatus (view s') i = v_runStatus (view s) i \<or> v_runStatus (view s') i = None)"
    and new_agent_event: "inv s \<Longrightarrow> st_NewAgentEvent st ev s = (res, s') \<Longrightarrow> inv s' \<and> view s' = view s"
    and ping: "inv s \<Longrightarrow> st_Ping st s = (res, s') \<Longrightarrow> inv s' \<and> view s' = view s"

text \<open>Storage that never fails on data that can be encoded.\<close>

locale reliable_store = synheart_store +
  fixes encodable :: "SynTestConfig \<Rightarrow> bool"
  assumes write_config_total: "inv s \<Longrightarrow> encodable c \<Longrightarrow> fst (st_WriteTestConfig st c raw s) = Inr ()"
    and fetch_config_total: "inv s \<Longrightarrow> fst (st_FetchTestConfig st i s) =
      (case v_cfg (view s) i of None \<Rightarrow> Inl ErrNotFound | Some c \<Rightarrow> Inr c)"
    and delete_config_total: "inv s \<Longrightarrow> fst (st_DeleteTestConfig st i s) = Inr ()"
    and write_config_status_total: "inv s \<Longrightarrow> fst (st_WriteTestConfigStatus st i x s) = Inr ()"
    and fetch_summaries_total: "inv s \<Longrightarrow> \<exists>m. fst (st_FetchAllTestConfigSummary st s) = Inr m"
    and fetch_agents_total: "inv s \<Longrightarrow> \<exists>m. fst (st_FetchAllAgentStatus st s) = Inr m"
    and write_agent_total: "inv s \<Longrightarrow> fst (st_WriteAgentStatus st i a s) = Inr ()"
    and delete_agent_total: "inv s \<Longrightarrow> fst (st_DeleteAgentStatus st i s) = Inr ()"
    and fetch_run_status_total: "inv s \<Longrightarrow> \<exists>m. fst (st_FetchAllTestRunStatus st s) = Inr m"
    and delete_run_info_total: "inv s \<Longrightarrow> v_runStatus (view (snd (st_DeleteAllTestRunInfo st i s))) i = None"

end
