(* ===== verification/Glob.thy ===== *)
theory Glob
  imports Prelude
begin

text \<open>
  \<open>filepath.Match\<close> of the Go standard library on Unix, which decides every selector of the
  program (node selector, pod label selector, agent namespace and pod name). The definitions
  follow the library: a pattern is cut into chunks at unescaped stars (\<open>scanChunk\<close>), a chunk is
  matched literally (\<open>matchChunk\<close>: character classes, question marks, escapes), and a star
  tries the leftmost position at which the next chunk matches. A malformed pattern is reported
  even when the match has already failed. Strings are byte strings and one byte is one rune,
  which is what Kubernetes names and label values are.

  \<open>glob\<close> is the meaning of a pattern built from literals, question marks and stars, as an
  inductive relation; \<open>Match_glob\<close> shows that the greedy algorithm decides it.
\<close>

section \<open>The library's algorithm\<close>

fun getEsc :: "string \<Rightarrow> err + (char \<times> string)" where
  "getEsc [] = Inl ErrBadPattern"
| "getEsc (c # cs) =
     (if c = CHR ''-'' \<or> c = CHR '']'' then Inl ErrBadPattern
      else if c = CHR 0x5C then
        (case cs of [] \<Rightarrow> Inl ErrBadPattern
         | d # ds \<Rightarrow> if ds = [] then Inl ErrBadPattern else Inr (d, ds))
      else if cs = [] then Inl ErrBadPattern else Inr (c, cs))"

lemma getEsc_length: "getEsc cs = Inr (c, ds) \<Longrightarrow> length ds < length cs"
  by (cases cs) (auto split: if_splits list.splits)

text \<open>The ranges of a character class; \<open>r\<close> is the rune to be classified.\<close>

function matchRanges :: "nat \<Rightarrow> bool \<Rightarrow> nat \<Rightarrow> string \<Rightarrow> err + (bool \<times> string)" where
  "matchRanges r m nrange chunk =
     (if chunk \<noteq> [] \<and> hd chunk = CHR '']'' \<and> nrange > 0 then Inr (m, tl chunk)
      else case getEsc chunk of
        Inl e \<Rightarrow> Inl e
      | Inr (lo, chunk1) \<Rightarrow>
          (if chunk1 \<noteq> [] \<and> hd chunk1 = CHR ''-'' then
             (case getEsc (tl chunk1) of
                Inl e \<Rightarrow> Inl e
              | Inr (hi, chunk2) \<Rightarrow>
                  matchRanges r (m \<or> of_char lo \<le> r \<and> r \<le> of_char hi) (Suc nrange) chunk2)
           else matchRanges r (m \<or> of_char lo = r) (Suc nrange) chunk1))"
  by pat_completeness auto
termination
  by (relation "measure (\<lambda>(r, m, n, chunk). length chunk)")
    (auto dest!: getEsc_length simp: less_diff_conv)

declare matchRanges.simps [simp del]

lemma matchRanges_length: "matchRanges r m n chunk = Inr (b, rest) \<Longrightarrow> length rest < length chunk"
proof (induction r m n chunk rule: matchRanges.induct)
  case (1 r m n chunk)
  show ?case
  proof (cases "chunk \<noteq> [] \<and> hd chunk = CHR '']'' \<and> n > 0")
    case True
    then have "matchRanges r m n chunk = Inr (m, tl chunk)"
      by (simp add: matchRanges.simps)
    with "1.prems" have "rest = tl chunk" by simp
    with True show ?thesis by (cases chunk) auto
  next
    case close: False
    then obtain lo c1 where g: "getEsc chunk = Inr (lo, c1)"
      using "1.prems" by (subst (asm) matchRanges.simps) (auto split: sum.splits if_splits)
    show ?thesis
    proof (cases "c1 \<noteq> [] \<and> hd c1 = CHR ''-''")
      case True
      with g close obtain hi c2 where g2: "getEsc (tl c1) = Inr (hi, c2)"
        using "1.prems" by (subst (asm) matchRanges.simps) (auto split: sum.splits if_splits)
      have "length rest < length c2"
        using "1.IH"(1)[OF close g _ True g2] "1.prems" g g2 True close
        by (subst (asm) matchRanges.simps[of r m n chunk]) (auto split: if_splits)
      with getEsc_length[OF g] getEsc_length[OF g2] show ?thesis by simp
    next
      case False
      have "length rest < length c1"
        using "1.IH"(2)[OF close g _ False] "1.prems" g False close
        by (subst (asm) matchRanges.simps[of r m n chunk]) (auto split: if_splits)
      with getEsc_length[OF g] show ?thesis by simp
    qed
  qed
qed

text \<open>
  \<open>matchChunk failed chunk s\<close>: \<open>Some rest\<close> when the chunk matches a prefix of \<open>s\<close>,
  \<open>None\<close> when it does not, an error when the chunk is malformed.
\<close>

function matchChunk :: "bool \<Rightarrow> string \<Rightarrow> string \<Rightarrow> err + string option" where
  "matchChunk failed [] s = Inr (if failed then None else Some s)"
| "matchChunk failed (c # cs) s =
     (let failed1 = (failed \<or> s = []) in
      if c = CHR ''['' then
        (let r = (if failed1 then 0 else of_char (hd s));
             s1 = (if failed1 then s else tl s);
             negated = (cs \<noteq> [] \<and> hd cs = CHR ''^'') in
         case matchRanges r False 0 (if negated then tl cs else cs) of
           Inl e \<Rightarrow> Inl e
         | Inr (m, cs1) \<Rightarrow> matchChunk (failed1 \<or> m = negated) cs1 s1)
      else if c = CHR ''?'' then
        (if failed1 then matchChunk True cs s
         else matchChunk (hd s = CHR ''/'') cs (tl s))
      else if c = CHR 0x5C then
        (case cs of
           [] \<Rightarrow> Inl ErrBadPattern
         | d # ds \<Rightarrow> if failed1 then matchChunk True ds s
                     else matchChunk (d \<noteq> hd s) ds (tl s))
      else if failed1 then matchChunk True cs s
      else matchChunk (c \<noteq> hd s) cs (tl s))"
  by pat_completeness auto
termination
  by (relation "measure (\<lambda>(failed, chunk, s). length chunk)")
    (auto dest!: matchRanges_length split: if_splits)

text \<open>\<open>scanChunk\<close> after its leading stars are removed: the chunk up to the next star.\<close>

fun scan :: "bool \<Rightarrow> string \<Rightarrow> string \<times> string" where
  "scan inrange [] = ([], [])"
| "scan inrange (c # cs) =
     (if c = CHR 0x5C then
        (case cs of
           [] \<Rightarrow> ([c], [])
         | d # ds \<Rightarrow> (case scan inrange ds of (chunk, rest) \<Rightarrow> (c # d # chunk, rest)))
      else if c = CHR ''*'' \<and> \<not> inrange then ([], c # cs)
      else (case scan (if c = CHR ''['' then True else if c = CHR '']'' then False else inrange) cs of
              (chunk, rest) \<Rightarrow> (c # chunk, rest)))"

definition scanChunk :: "string \<Rightarrow> bool \<times> string \<times> string" where
  "scanChunk pattern =
     (pattern \<noteq> [] \<and> hd pattern = CHR ''*'', scan False (dropWhile ((=) CHR ''*'') pattern))"

lemma scan_append: "scan inrange p = (chunk, rest) \<Longrightarrow> p = chunk @ rest"
  by (induction inrange p arbitrary: chunk rest rule: scan.induct)
    (auto split: if_splits list.splits prod.splits)

lemma scanChunk_rest_less:
  "scanChunk p = (star, chunk, rest) \<Longrightarrow> p \<noteq> [] \<Longrightarrow> length rest < length p"
proof (cases p)
  case (Cons c cs)
  assume h: "scanChunk p = (star, chunk, rest)"
  then have "dropWhile ((=) CHR ''*'') p = chunk @ rest"
    by (auto simp: scanChunk_def dest: scan_append)
  moreover have "length (dropWhile ((=) CHR ''*'') cs) \<le> length cs"
    by (rule length_dropWhile_le)
  moreover have "chunk \<noteq> []" if "c \<noteq> CHR ''*''"
    using h Cons that by (auto simp: scanChunk_def split: if_splits list.splits prod.splits)
  ultimately show ?thesis
    using Cons by (cases "c = CHR ''*''") (auto simp: Suc_le_eq dest: arg_cong[of _ _ length])
qed simp

text \<open>A star skips bytes, but never a separator, until the next chunk matches.\<close>

fun starLoop :: "string \<Rightarrow> bool \<Rightarrow> string \<Rightarrow> err + string option" where
  "starLoop chunk fin [] = Inr None"
| "starLoop chunk fin (c # cs) =
     (if c = CHR ''/'' then Inr None
      else case matchChunk False chunk cs of
        Inl e \<Rightarrow> Inl e
      | Inr None \<Rightarrow> starLoop chunk fin cs
      | Inr (Some t) \<Rightarrow> if fin \<and> t \<noteq> [] then starLoop chunk fin cs else Inr (Some t))"

function checkRest :: "string \<Rightarrow> err + bool" where
  "checkRest pattern =
     (if pattern = [] then Inr False
      else case scanChunk pattern of (star, chunk, rest) \<Rightarrow>
        (case matchChunk False chunk [] of
           Inl e \<Rightarrow> Inl e
         | Inr _ \<Rightarrow> checkRest rest))"
  by pat_completeness auto
termination
  by (relation "measure length") (auto dest: scanChunk_rest_less[OF sym])

declare checkRest.simps [simp del]

function Match :: "string \<Rightarrow> string \<Rightarrow> err + bool" where
  "Match pattern name =
     (if pattern = [] then Inr (name = [])
      else case scanChunk pattern of (star, chunk, rest) \<Rightarrow>
        (if star \<and> chunk = [] then Inr (\<not> strings_Contains name CHR ''/'')
         else case matchChunk False chunk name of
           Inl e \<Rightarrow> Inl e
         | Inr t0 \<Rightarrow>
             (if t0 \<noteq> None \<and> (the t0 = [] \<or> rest \<noteq> []) then Match rest (the t0)
              else if star then
                (case starLoop chunk (rest = []) name of
                   Inl e \<Rightarrow> Inl e
                 | Inr None \<Rightarrow> checkRest rest
                 | Inr (Some t) \<Rightarrow> Match rest t)
              else checkRest rest)))"
  by pat_completeness auto
termination
  by (relation "measure (\<lambda>(pattern, name). length pattern)")
    (auto dest: scanChunk_rest_less[OF sym])

declare Match.simps [simp del]

section \<open>The meaning of a pattern\<close>

text \<open>One pattern character other than a star against one byte.\<close>

definition tok :: "char \<Rightarrow> char \<Rightarrow> bool" where
  "tok c x \<longleftrightarrow> (if c = CHR ''?'' then x \<noteq> CHR ''/'' else c = x)"

inductive glob :: "string \<Rightarrow> string \<Rightarrow> bool" where
  glob_end: "glob [] []"
| glob_tok: "c \<noteq> CHR ''*'' \<Longrightarrow> tok c x \<Longrightarrow> glob p s \<Longrightarrow> glob (c # p) (x # s)"
| glob_stop: "glob p s \<Longrightarrow> glob (CHR ''*'' # p) s"
| glob_skip: "x \<noteq> CHR ''/'' \<Longrightarrow> glob (CHR ''*'' # p) s \<Longrightarrow> glob (CHR ''*'' # p) (x # s)"

inductive_simps glob_Nil: "glob [] s"
inductive_simps glob_Cons_Nil: "glob (c # p) []"
inductive_simps glob_Cons_Cons: "glob (c # p) (x # s)"

lemmas glob_simps = glob_Nil glob_Cons_Nil glob_Cons_Cons

definition plain :: "string \<Rightarrow> bool" where
  "plain p \<longleftrightarrow> CHR ''['' \<notin> set p \<and> CHR 0x5C \<notin> set p"

lemma plain_simps [simp]:
  "plain []" "plain (c # p) \<longleftrightarrow> c \<noteq> CHR ''['' \<and> c \<noteq> CHR 0x5C \<and> plain p"
  "plain (p @ q) \<longleftrightarrow> plain p \<and> plain q"
  by (auto simp: plain_def)

fun lit :: "string \<Rightarrow> string \<Rightarrow> string option" where
  "lit [] s = Some s"
| "lit (c # cs) [] = None"
| "lit (c # cs) (x # xs) = (if tok c x then lit cs xs else None)"

lemma lit_drop: "lit cs s = Some t \<Longrightarrow> t = drop (length cs) s"
  by (induction cs s rule: lit.induct) (auto split: if_splits)

lemma matchChunk_failed: "plain cs \<Longrightarrow> matchChunk True cs s = Inr None"
  by (induction cs arbitrary: s) (auto simp: Let_def)

lemma matchChunk_lit:
  "plain cs \<Longrightarrow> matchChunk False cs s = Inr (lit cs s)"
proof (induction cs arbitrary: s)
  case (Cons c cs)
  show ?case
  proof (cases s)
    case Nil
    with Cons.prems show ?thesis by (simp add: Let_def matchChunk_failed)
  next
    case (Cons x xs)
    with Cons.IH Cons.prems show ?thesis
      by (auto simp: Let_def tok_def matchChunk_failed)
  qed
qed simp

lemma scan_plain:
  "plain p \<Longrightarrow> scan False p = (takeWhile ((\<noteq>) CHR ''*'') p, dropWhile ((\<noteq>) CHR ''*'') p)"
  by (induction p) auto

lemma glob_lit:
  "CHR ''*'' \<notin> set cs \<Longrightarrow> glob (cs @ p) s \<longleftrightarrow> (\<exists>t. lit cs s = Some t \<and> glob p t)"
  by (induction cs s rule: lit.induct) (auto simp: glob_simps)

lemma glob_star:
  "glob (CHR ''*'' # p) s \<longleftrightarrow> (\<exists>u t. s = u @ t \<and> CHR ''/'' \<notin> set u \<and> glob p t)"
proof (induction s)
  case Nil
  show ?case by (auto simp: glob_simps)
next
  case (Cons x xs)
  have "glob (CHR ''*'' # p) (x # xs) \<longleftrightarrow>
      glob p (x # xs) \<or> (x \<noteq> CHR ''/'' \<and> glob (CHR ''*'' # p) xs)"
    by (auto simp: glob_simps)
  also have "\<dots> \<longleftrightarrow> (\<exists>u t. x # xs = u @ t \<and> CHR ''/'' \<notin> set u \<and> glob p t)"
    (is "_ \<longleftrightarrow> ?R")
  proof
    assume "glob p (x # xs) \<or> (x \<noteq> CHR ''/'' \<and> glob (CHR ''*'' # p) xs)"
    then show ?R
    proof
      assume "glob p (x # xs)"
      then show ?R by (intro exI[of _ "[]"] exI[of _ "x # xs"]) simp
    next
      assume h: "x \<noteq> CHR ''/'' \<and> glob (CHR ''*'' # p) xs"
      then obtain u t where "xs = u @ t" "CHR ''/'' \<notin> set u" "glob p t"
        unfolding Cons.IH by blast
      with h have "x # xs = (x # u) @ t \<and> CHR ''/'' \<notin> set (x # u) \<and> glob p t" by auto
      then show ?R by blast
    qed
  next
    assume ?R
    then show "glob p (x # xs) \<or> (x \<noteq> CHR ''/'' \<and> glob (CHR ''*'' # p) xs)"
      unfolding Cons.IH Cons_eq_append_conv by fastforce
  qed
  finally show ?case .
qed

lemma glob_star_absorb:
  "CHR ''/'' \<notin> set u \<Longrightarrow> glob (CHR ''*'' # p) t \<Longrightarrow> glob (CHR ''*'' # p) (u @ t)"
  unfolding glob_star by (metis Un_iff append_assoc set_append)

lemma glob_stars:
  "glob (CHR ''*'' # p) s \<longleftrightarrow> glob (CHR ''*'' # dropWhile ((=) CHR ''*'') p) s"
proof (induction p)
  case (Cons c p)
  have "glob (CHR ''*'' # CHR ''*'' # p) s \<longleftrightarrow> glob (CHR ''*'' # p) s"
    by (metis append.left_neutral append_assoc glob_star glob_star_absorb glob_stop)
  with Cons.IH show ?case by (cases "c = CHR ''*''") auto
qed simp

section \<open>The algorithm decides the meaning\<close>

lemma suffix_drop_mono: "suffix w xs \<Longrightarrow> suffix (drop n w) (drop n xs)"
proof -
  assume "suffix w xs"
  then obtain u where xs: "xs = u @ w" by (auto simp: suffix_def)
  have "drop n w = drop (n - (n - length u)) (drop (n - length u) w)" by simp
  then have "suffix (drop n w) (drop (n - length u) w)" by (metis suffix_drop)
  then show ?thesis unfolding xs by (auto simp: suffix_def)
qed

lemma lit_suffix:
  "lit cs w = Some t' \<Longrightarrow> lit cs xs = Some t \<Longrightarrow> suffix w xs \<Longrightarrow> suffix t' t"
  by (auto dest!: lit_drop intro: suffix_drop_mono)

text \<open>
  \<open>starLoop\<close> finds the leftmost later position at which the chunk fits (and, for the last
  chunk, uses up the name); every other such position leaves a shorter rest.
\<close>

definition fits :: "string \<Rightarrow> bool \<Rightarrow> string \<Rightarrow> string \<Rightarrow> bool" where
  "fits chunk fin w t \<longleftrightarrow> lit chunk w = Some t \<and> (fin \<longrightarrow> t = [])"

lemma starLoop_Cons:
  assumes "plain chunk" and "x \<noteq> CHR ''/''"
  shows "starLoop chunk fin (x # xs) =
    (if \<exists>t. fits chunk fin xs t then Inr (lit chunk xs) else starLoop chunk fin xs)"
  using assms by (auto simp: matchChunk_lit fits_def split: option.splits)

lemma starLoop_sound:
  "starLoop chunk fin s = Inr (Some t) \<Longrightarrow> plain chunk \<Longrightarrow> CHR ''/'' \<notin> set s \<Longrightarrow>
     \<exists>w. suffix w s \<and> fits chunk fin w t"
proof (induction s)
  case (Cons x xs)
  then have "if \<exists>t. fits chunk fin xs t then lit chunk xs = Some t
      else starLoop chunk fin xs = Inr (Some t)"
    by (auto simp: starLoop_Cons simp del: starLoop.simps split: if_splits)
  with Cons show ?case by (auto simp: fits_def intro: suffix_ConsI split: if_splits)
qed simp

lemma starLoop_complete:
  "fits chunk fin w t' \<Longrightarrow> strict_suffix w s \<Longrightarrow> plain chunk \<Longrightarrow> CHR ''/'' \<notin> set s \<Longrightarrow>
     \<exists>t. starLoop chunk fin s = Inr (Some t) \<and> suffix t' t"
proof (induction s)
  case (Cons x xs)
  then have w: "suffix w xs" by (auto simp: strict_suffix_def suffix_Cons)
  show ?case
  proof (cases "\<exists>t. fits chunk fin xs t")
    case True
    with Cons.prems w show ?thesis
      by (auto simp: starLoop_Cons fits_def simp del: starLoop.simps intro: lit_suffix)
  next
    case False
    with Cons.prems(1) w have "strict_suffix w xs" by (auto simp: strict_suffix_def)
    with Cons False show ?thesis by (auto simp: starLoop_Cons simp del: starLoop.simps)
  qed
qed (simp add: strict_suffix_def)

lemma starLoop_total: "plain chunk \<Longrightarrow> \<exists>r. starLoop chunk fin s = Inr r"
  by (induction s) (auto simp: matchChunk_lit split: option.splits)

lemma checkRest_plain: "plain p \<Longrightarrow> checkRest p = Inr False"
proof (induction p rule: checkRest.induct)
  case (1 p)
  obtain star chunk rest where sc: "scanChunk p = (star, chunk, rest)" by (cases "scanChunk p")
  then have "plain (chunk @ rest)"
    using "1.prems" set_dropWhileD[of _ "(=) CHR ''*''" p]
    by (auto simp: scanChunk_def plain_def dest!: scan_append)
  then have "plain chunk" "plain rest" by auto
  with "1.IH"[OF _ sc[symmetric]] sc show ?case
    by (subst checkRest.simps) (auto simp: matchChunk_lit)
qed

text \<open>The first chunk of a plain pattern, and the meaning of the pattern in terms of it.\<close>

lemma scanChunk_plain:
  assumes p: "plain p" "p \<noteq> []" and sc: "scanChunk p = (star, chunk, rest)"
  shows "plain chunk" "plain rest" "CHR ''*'' \<notin> set chunk"
    "rest = [] \<or> (\<exists>r. rest = CHR ''*'' # r)" "star \<and> chunk = [] \<Longrightarrow> rest = []"
    "\<exists>q. p = (if star then CHR ''*'' # q else chunk @ rest) \<and>
       (star \<longrightarrow> dropWhile ((=) CHR ''*'') q = chunk @ rest)"
proof -
  define q where "q = dropWhile ((=) CHR ''*'') p"
  have pq: "plain q" using p set_dropWhileD[of _ "(=) CHR ''*''" p]
    by (auto simp: q_def plain_def)
  then have cr: "chunk = takeWhile ((\<noteq>) CHR ''*'') q" "rest = dropWhile ((\<noteq>) CHR ''*'') q"
    and star: "star \<longleftrightarrow> hd p = CHR ''*''"
    using sc p by (auto simp: scanChunk_def scan_plain simp flip: q_def)
  then have q: "q = chunk @ rest" by simp
  with pq show "plain chunk" "plain rest" by auto
  show "CHR ''*'' \<notin> set chunk" by (auto simp: cr dest: set_takeWhileD)
  show rest: "rest = [] \<or> (\<exists>r. rest = CHR ''*'' # r)"
    unfolding cr
    by (cases "dropWhile ((\<noteq>) CHR ''*'') q") (auto simp: dropWhile_eq_Cons_conv)
  have "q = [] \<or> hd q \<noteq> CHR ''*''"
    using hd_dropWhile[of "(=) CHR ''*''" p] unfolding q_def by metis
  then show "rest = []" if "star \<and> chunk = []"
    using that rest q by auto
  show "\<exists>q. p = (if star then CHR ''*'' # q else chunk @ rest) \<and>
       (star \<longrightarrow> dropWhile ((=) CHR ''*'') q = chunk @ rest)"
    using p(2) q star by (cases p) (auto simp: q_def)
qed

lemma glob_chunk:
  assumes p: "plain p" "p \<noteq> []" and sc: "scanChunk p = (star, chunk, rest)"
    and s: "CHR ''/'' \<notin> set s"
  shows "glob p s \<longleftrightarrow>
    (if star then \<exists>w t. suffix w s \<and> lit chunk w = Some t \<and> glob rest t
     else \<exists>t. lit chunk s = Some t \<and> glob rest t)"
proof -
  note lit = glob_lit[OF scanChunk_plain(3)[OF p sc]]
  obtain q where q: "p = (if star then CHR ''*'' # q else chunk @ rest)"
      "star \<longrightarrow> dropWhile ((=) CHR ''*'') q = chunk @ rest"
    using scanChunk_plain(6)[OF p sc] by blast
  show ?thesis
  proof (cases star)
    case True
    with q have "glob p s \<longleftrightarrow> glob (CHR ''*'' # chunk @ rest) s"
      using glob_stars[of q s] by simp
    then show ?thesis
      using True s unfolding glob_star lit suffix_def by fastforce
  next
    case False
    with q show ?thesis by (simp add: lit)
  qed
qed

text \<open>
  The fit that one round of \<open>Match\<close> commits to. It is the leftmost one, and committing to it
  loses nothing, because the rest of the pattern is empty or begins with a star.
\<close>

definition firstFit :: "bool \<Rightarrow> string \<Rightarrow> bool \<Rightarrow> string \<Rightarrow> string option" where
  "firstFit star chunk fin s =
     (if \<exists>t. fits chunk fin s t then lit chunk s
      else if star then (case starLoop chunk fin s of Inl e \<Rightarrow> None | Inr r \<Rightarrow> r) else None)"

lemma Match_round:
  assumes p: "plain p" "p \<noteq> []" and sc: "scanChunk p = (star, chunk, rest)"
    and nt: "\<not> (star \<and> chunk = [])"
  shows "Match p s = (case firstFit star chunk (rest = []) s of
    None \<Rightarrow> Inr False | Some t \<Rightarrow> Match rest t)"
proof -
  note pl = scanChunk_plain[OF p sc]
  obtain r where "starLoop chunk (rest = []) s = Inr r"
    using starLoop_total[OF pl(1)] by blast
  then show ?thesis
    using sc p(2) nt pl(1,2) checkRest_plain[OF pl(2)]
    by (subst Match.simps)
      (auto simp: matchChunk_lit firstFit_def fits_def split: option.splits)
qed

lemma firstFit_sound:
  assumes "firstFit star chunk fin s = Some t" and "plain chunk" and "CHR ''/'' \<notin> set s"
  shows "\<exists>w. suffix w s \<and> fits chunk fin w t \<and> (star \<or> w = s)"
  using assms starLoop_sound[of chunk fin s t]
  by (auto simp: firstFit_def fits_def split: if_splits sum.splits)

lemma firstFit_rest:
  assumes "firstFit star chunk fin s = Some t" and "plain chunk" and "CHR ''/'' \<notin> set s"
  shows "CHR ''/'' \<notin> set t" "fin \<longrightarrow> t = []"
proof -
  from firstFit_sound[OF assms] obtain w where w: "suffix w s" "fits chunk fin w t" by blast
  then have "set t \<subseteq> set s"
    using set_drop_subset[of "length chunk" w]
    by (auto simp: fits_def suffix_def dest!: lit_drop)
  with w assms(3) show "CHR ''/'' \<notin> set t" "fin \<longrightarrow> t = []" by (auto simp: fits_def)
qed

lemma firstFit_complete:
  assumes "fits chunk fin w t'" "suffix w s" "star \<or> w = s"
    and "plain chunk" and "CHR ''/'' \<notin> set s"
  shows "\<exists>t. firstFit star chunk fin s = Some t \<and> suffix t' t"
proof (cases "\<exists>t. fits chunk fin s t")
  case True
  with assms(1,2) show ?thesis by (auto simp: firstFit_def fits_def intro: lit_suffix)
next
  case False
  with assms(1-3) have "star" "strict_suffix w s" by (auto simp: strict_suffix_def)
  with False starLoop_complete[OF assms(1) _ assms(4,5)] show ?thesis
    by (auto simp: firstFit_def)
qed

lemma glob_absorb:
  assumes "rest = [] \<or> (\<exists>r. rest = CHR ''*'' # r)" and "CHR ''/'' \<notin> set t"
    and "suffix t' t" and "glob rest t'" and "rest = [] \<longrightarrow> t = []"
  shows "glob rest t"
proof -
  from assms(3) obtain v where "t = v @ t'" by (auto simp: suffix_def)
  with assms show ?thesis by (auto intro: glob_star_absorb)
qed

lemma glob_firstFit:
  assumes p: "plain p" "p \<noteq> []" and sc: "scanChunk p = (star, chunk, rest)"
    and s: "CHR ''/'' \<notin> set s"
  shows "glob p s \<longleftrightarrow> (\<exists>t. firstFit star chunk (rest = []) s = Some t \<and> glob rest t)"
proof -
  note pl = scanChunk_plain[OF p sc]
  have g: "glob p s \<longleftrightarrow>
      (\<exists>w t. suffix w s \<and> fits chunk (rest = []) w t \<and> (star \<or> w = s) \<and> glob rest t)"
  proof -
    have "rest = [] \<longrightarrow> t = []" if "glob rest t" for t
      using that by (auto simp: glob_Nil)
    then show ?thesis
      unfolding glob_chunk[OF p sc s] fits_def using suffix_order.refl[of s] by metis
  qed
  show ?thesis
  proof
    assume "glob p s"
    then obtain w t' where w: "suffix w s" "fits chunk (rest = []) w t'" "star \<or> w = s" "glob rest t'"
      unfolding g by blast
    obtain t where t: "firstFit star chunk (rest = []) s = Some t" "suffix t' t"
      using firstFit_complete[OF w(2,1,3) pl(1) s] by blast
    with glob_absorb[OF pl(4) _ t(2) w(4)] firstFit_rest[OF t(1) pl(1) s]
    show "\<exists>t. firstFit star chunk (rest = []) s = Some t \<and> glob rest t" by blast
  next
    assume "\<exists>t. firstFit star chunk (rest = []) s = Some t \<and> glob rest t"
    then show "glob p s" unfolding g using firstFit_sound[OF _ pl(1) s] by blast
  qed
qed

lemma Match_glob:
  "plain p \<Longrightarrow> CHR ''/'' \<notin> set s \<Longrightarrow> Match p s = Inr (glob p s)"
proof (induction "length p" arbitrary: p s rule: less_induct)
  case less
  show ?case
  proof (cases "p = []")
    case True
    then show ?thesis by (simp add: Match.simps glob_Nil)
  next
    case ne: False
    obtain star chunk rest where sc: "scanChunk p = (star, chunk, rest)" by (cases "scanChunk p")
    note pl = scanChunk_plain[OF less.prems(1) ne sc]
    show ?thesis
    proof (cases "star \<and> chunk = []")
      case True
      with pl(5) have "glob p s"
        using glob_chunk[OF less.prems(1) ne sc less.prems(2)] by (auto simp: glob_Nil)
      with True sc ne less.prems(2) show ?thesis
        by (simp add: Match.simps strings_Contains_def)
    next
      case False
      have "Match rest t = Inr (glob rest t)" if "firstFit star chunk (rest = []) s = Some t" for t
        using less.hyps[OF scanChunk_rest_less[OF sc ne] pl(2)]
          firstFit_rest[OF that pl(1) less.prems(2)] by blast
      then show ?thesis
        unfolding Match_round[OF less.prems(1) ne sc False]
          glob_firstFit[OF less.prems(1) ne sc less.prems(2)]
        by (auto split: option.splits)
    qed
  qed
qed

text \<open>The patterns of the documentation: everything, a literal name, and a prefix.\<close>

lemma glob_literal: "CHR ''*'' \<notin> set p \<Longrightarrow> CHR ''?'' \<notin> set p \<Longrightarrow> glob p s \<longleftrightarrow> s = p"
proof (induction p arbitrary: s)
  case (Cons c p)
  then show ?case by (cases s) (auto simp: glob_simps tok_def)
qed (simp add: glob_Nil)

lemma glob_prefix_star:
  assumes "CHR ''*'' \<notin> set p" and "CHR ''?'' \<notin> set p" and "CHR ''/'' \<notin> set s"
  shows "glob (p @ ''*'') s \<longleftrightarrow> strings_HasPrefix s p"
proof -
  have "lit p s = Some t \<longleftrightarrow> s = p @ t" for t
    using assms(2) by (induction p s rule: lit.induct) (auto simp: tok_def)
  then show ?thesis
    using assms(3) by (auto simp: glob_lit[OF assms(1)] glob_star glob_Nil strings_HasPrefix_iff)
qed

end
