(* ===== verification/Selector.thy ===== *)
theory Selector
  imports Models Glob
begin

text \<open>
  The agent selector of common/helpers.go: which agents may run a synthetic test. The controller
  asks it to choose agents and every agent asks it again before it starts a test, so both sides
  share this definition. The loops over the two label maps visit their entries in the order of
  the association lists.
\<close>

section \<open>The code\<close>

text \<open>An ordinary entry of the pod label selector, against the labels of the agent's pod.\<close>

definition podLabelEntry :: "AgentConfig \<Rightarrow> string \<Rightarrow> string \<Rightarrow> err + bool" where
  "podLabelEntry agentConfig k v =
     (case map_of (ai_PodLabels (ac_RunTimeInfo agentConfig)) k of
        Some val \<Rightarrow>
          (case Match v val of
             Inl e \<Rightarrow> Inl (ErrWrap ''error matching podLabelSelector'' e)
           | Inr matchesPodLabel \<Rightarrow> Inr matchesPodLabel)
      | None \<Rightarrow> Inr False)"

text \<open>
  One round of the loop over the selector: \<open>Inr True\<close> continues with the next entry, anything
  else is returned. The special keys fall through to the pod labels when they do not match.
\<close>

definition podSelectorEntry :: "AgentConfig \<Rightarrow> string \<Rightarrow> string \<Rightarrow> string \<Rightarrow> err + bool" where
  "podSelectorEntry agentConfig agentId k v =
     (if k = SpecialKeyAgentId \<and> v = agentId then Inr True
      else if k = SpecialKeyAgentNs then
        (case Match v (ai_AgentNamespace (ac_RunTimeInfo agentConfig)) of
           Inl e \<Rightarrow> Inl (ErrWrap (''error matching '' @ SpecialKeyAgentNs @ '' in podLabelSelector'') e)
         | Inr matchesAgentNs \<Rightarrow>
             if matchesAgentNs then Inr True else podLabelEntry agentConfig k v)
      else if k = SpecialKeyPodName then
        (case Match v (ai_PodName (ac_RunTimeInfo agentConfig)) of
           Inl e \<Rightarrow> Inl (ErrWrap (''error matching '' @ SpecialKeyPodName @ '' in podLabelSelector'') e)
         | Inr matchesPodName \<Rightarrow>
             if matchesPodName then Inr True else podLabelEntry agentConfig k v)
      else podLabelEntry agentConfig k v)"

fun podSelectorLoop :: "AgentConfig \<Rightarrow> string \<Rightarrow> gomap \<Rightarrow> err + bool" where
  "podSelectorLoop agentConfig agentId [] = Inr True"
| "podSelectorLoop agentConfig agentId ((k, v) # rest) =
     (case podSelectorEntry agentConfig agentId k v of
        Inl e \<Rightarrow> Inl e
      | Inr ok \<Rightarrow> if ok then podSelectorLoop agentConfig agentId rest else Inr False)"

fun testLabelsLoop :: "gomap \<Rightarrow> gomap \<Rightarrow> bool" where
  "testLabelsLoop testLabels [] = True"
| "testLabelsLoop testLabels ((k, v) # rest) =
     (if gidx testLabels k \<noteq> v then False else testLabelsLoop testLabels rest)"

definition IsAgentValidForSynTest ::
  "AgentConfig \<Rightarrow> string \<Rightarrow> string \<Rightarrow> string \<Rightarrow> string \<Rightarrow> gomap \<Rightarrow> gomap \<Rightarrow> err + bool" where
  "IsAgentValidForSynTest agentConfig agentId testName testNs testNodeSelector
       testPodLabelSelector testLabels =
     (if ac_MatchNamespaceSet agentConfig \<noteq> [] \<and>
         map_of (ac_MatchNamespaceSet agentConfig) testNs \<noteq> Some True then Inr False
      else case (if testNodeSelector \<noteq> []
                 then Match testNodeSelector (ai_NodeName (ac_RunTimeInfo agentConfig))
                 else Inr True) of
        Inl e \<Rightarrow> Inl (ErrWrap ''error matching nodeSelector'' e)
      | Inr matchesNode \<Rightarrow>
          if \<not> matchesNode then Inr False
          else if \<not> testLabelsLoop testLabels (ac_MatchTestLabels agentConfig) then Inr False
          else podSelectorLoop agentConfig agentId testPodLabelSelector)"

section \<open>What the loops compute\<close>

lemma testLabelsLoop_iff: "testLabelsLoop ls m \<longleftrightarrow> (\<forall>(k, v) \<in> set m. gidx ls k = v)"
  by (induction ls m rule: testLabelsLoop.induct) auto

lemma podSelectorLoop_True:
  "podSelectorLoop cfg a m = Inr True \<longleftrightarrow> (\<forall>(k, v) \<in> set m. podSelectorEntry cfg a k v = Inr True)"
  by (induction cfg a m rule: podSelectorLoop.induct) (auto split: sum.splits)

lemma podSelectorLoop_no_error:
  "\<forall>(k, v) \<in> set m. \<exists>b. podSelectorEntry cfg a k v = Inr b \<Longrightarrow>
   podSelectorLoop cfg a m = Inr (\<forall>(k, v) \<in> set m. podSelectorEntry cfg a k v = Inr True)"
  by (induction cfg a m rule: podSelectorLoop.induct) (auto split: sum.splits)

definition namespaceWatched :: "AgentConfig \<Rightarrow> string \<Rightarrow> bool" where
  "namespaceWatched cfg ns \<longleftrightarrow>
     ac_MatchNamespaceSet cfg = [] \<or> map_of (ac_MatchNamespaceSet cfg) ns = Some True"

definition nodeSelected :: "AgentConfig \<Rightarrow> string \<Rightarrow> bool" where
  "nodeSelected cfg sel \<longleftrightarrow> sel = [] \<or> Match sel (ai_NodeName (ac_RunTimeInfo cfg)) = Inr True"

definition testLabelled :: "AgentConfig \<Rightarrow> gomap \<Rightarrow> bool" where
  "testLabelled cfg ls \<longleftrightarrow> (\<forall>(k, v) \<in> set (ac_MatchTestLabels cfg). gidx ls k = v)"

definition podSelected :: "AgentConfig \<Rightarrow> string \<Rightarrow> gomap \<Rightarrow> bool" where
  "podSelected cfg a sel \<longleftrightarrow> (\<forall>(k, v) \<in> set sel. podSelectorEntry cfg a k v = Inr True)"

lemma IsAgentValid_iff:
  "IsAgentValidForSynTest cfg a tn ns nsel psel ls = Inr True \<longleftrightarrow>
     namespaceWatched cfg ns \<and> nodeSelected cfg nsel \<and> testLabelled cfg ls \<and> podSelected cfg a psel"
  by (auto simp: IsAgentValidForSynTest_def namespaceWatched_def nodeSelected_def testLabelled_def
      podSelected_def podSelectorLoop_True testLabelsLoop_iff split: sum.splits if_splits)


text \<open>An agent on a given node, with a pod label, that restricts nothing else.\<close>

definition exampleAgent :: "string \<Rightarrow> AgentConfig" where
  "exampleAgent node = zeroAgentConfig\<lparr>ac_RunTimeInfo := \<lparr>ai_NodeName = node, ai_PodName = ''pod-1'',
     ai_PodLabels = [(''zone'', ''eu'')], ai_AgentNamespace = ''heart''\<rparr>\<rparr>"

lemmas example_defs = exampleAgent_def zeroAgentConfig_def zeroAgentInfo_def


section \<open>Node selectors of the documentation\<close>

text \<open>
  Node selectors mean what the README says: an agent that restricts nothing else is valid
  for the selector "prefix followed by a star" exactly when the name of its node begins with the
  prefix (the empty prefix, a lone star, selects every node).
\<close>

theorem prefix_node_selector:
  assumes "plain p" "CHR ''*'' \<notin> set p" "CHR ''?'' \<notin> set p"
    and "slashFree (ai_NodeName (ac_RunTimeInfo cfg))"
    and "namespaceWatched cfg ns" "testLabelled cfg ls"
  shows "IsAgentValidForSynTest cfg a tn ns (p @ ''*'') [] ls =
    Inr (strings_HasPrefix (ai_NodeName (ac_RunTimeInfo cfg)) p)"
proof -
  have "Match (p @ ''*'') (ai_NodeName (ac_RunTimeInfo cfg)) =
      Inr (strings_HasPrefix (ai_NodeName (ac_RunTimeInfo cfg)) p)"
    using assms(1-4) by (simp add: Match_glob glob_prefix_star slashFree_def)
  with assms(5,6) show ?thesis
    by (auto simp: IsAgentValidForSynTest_def namespaceWatched_def testLabelled_def testLabelsLoop_iff)
qed

theorem prefix_node_selector_witness:
  "IsAgentValidForSynTest (exampleAgent ''worker-1'') ''pod-1/heart'' ''dns'' ''prod''
       (''worker'' @ ''*'') [] [] = Inr True \<and>
   IsAgentValidForSynTest (exampleAgent ''infra-1'') ''pod-1/heart'' ''dns'' ''prod''
       (''worker'' @ ''*'') [] [] = Inr False"
proof -
  have h: "plain ''worker''" "CHR ''*'' \<notin> set ''worker''" "CHR ''?'' \<notin> set ''worker''"
    by (simp_all add: plain_def)
  have ag: "slashFree (ai_NodeName (ac_RunTimeInfo (exampleAgent n)))"
      "namespaceWatched (exampleAgent n) ''prod''" "testLabelled (exampleAgent n) []"
    if "slashFree n" for n
    using that by (simp_all add: example_defs namespaceWatched_def testLabelled_def)
  have n: "slashFree ''worker-1''" "slashFree ''infra-1''" by (simp_all add: slashFree_def)
  show ?thesis
    using prefix_node_selector[OF h ag(1,2,3)[OF n(1)]] prefix_node_selector[OF h ag(1,2,3)[OF n(2)]]
    by (simp add: example_defs strings_HasPrefix_def)
qed

section \<open>Tests assigned to one agent\<close>

text \<open>Kubernetes labels do not begin with a dollar sign; the code relies on it.\<close>

definition ordinaryLabels :: "AgentConfig \<Rightarrow> bool" where
  "ordinaryLabels cfg \<longleftrightarrow>
     (\<forall>k \<in> set (map fst (ai_PodLabels (ac_RunTimeInfo cfg))). \<not> strings_HasPrefix k ''$'')"

lemma agentId_entry:
  "ordinaryLabels cfg \<Longrightarrow> podSelectorEntry cfg a SpecialKeyAgentId v = Inr (v = a)"
proof -
  assume "ordinaryLabels cfg"
  then have "map_of (ai_PodLabels (ac_RunTimeInfo cfg)) SpecialKeyAgentId = None"
    by (force simp: ordinaryLabels_def map_of_eq_None_iff strings_HasPrefix_def special_key_defs)
  then show ?thesis
    by (simp add: podSelectorEntry_def podLabelEntry_def special_key_defs)
qed

lemma assigned_agent_unique:
  assumes "ordinaryLabels cfg" and "(SpecialKeyAgentId, a) \<in> set psel"
    and "IsAgentValidForSynTest cfg b tn ns nsel psel ls = Inr True"
  shows "b = a"
  using assms agentId_entry[OF assms(1), of b a]
  by (auto simp: IsAgentValid_iff podSelected_def)

end
