(* ===== verification/RedisStore.thy ===== *)
theory RedisStore
  imports StoreContract
begin

text \<open>
  The Redis implementation of the storage meets its contract: the keys of different data are
  different, each method is a chain of commands on keys of its own data, and the invariant (keys
  hold the type their methods expect, stored JSON can be read back) is kept by all of them.
\<close>

section \<open>Keys\<close>

lemmas hash_key_defs = AllTestRunStatus_def AllPluginStatus_def ConfigSynTestsSummary_def AgentsAll_def

lemmas string_key_defs = PluginLatestHealthFmt_def PluginLastUnhealthyFmt_def TestRunLatestFmt_def
  TestRunLastFailedFmt_def ConfigSynTestJsonFmt_def ConfigSynTestRawFmt_def ConfigSynTestStatusFmt_def

lemma string_keys_inject [key_simps]:
  "PluginLatestHealthFmt i = PluginLatestHealthFmt j \<longleftrightarrow> i = j"
  "PluginLastUnhealthyFmt i = PluginLastUnhealthyFmt j \<longleftrightarrow> i = j"
  "TestRunLatestFmt i = TestRunLatestFmt j \<longleftrightarrow> i = j"
  "TestRunLastFailedFmt i = TestRunLastFailedFmt j \<longleftrightarrow> i = j"
  "ConfigSynTestJsonFmt i = ConfigSynTestJsonFmt j \<longleftrightarrow> i = j"
  "ConfigSynTestRawFmt i = ConfigSynTestRawFmt j \<longleftrightarrow> i = j"
  "ConfigSynTestStatusFmt i = ConfigSynTestStatusFmt j \<longleftrightarrow> i = j"
  by (simp_all add: string_key_defs)

lemma rev_neq: "rev a \<noteq> rev b \<Longrightarrow> a \<noteq> b"
  by auto

lemma string_keys_differ:
  "PluginLatestHealthFmt i \<noteq> PluginLastUnhealthyFmt j" "PluginLatestHealthFmt i \<noteq> TestRunLatestFmt j"
  "PluginLatestHealthFmt i \<noteq> TestRunLastFailedFmt j" "PluginLatestHealthFmt i \<noteq> ConfigSynTestJsonFmt j"
  "PluginLatestHealthFmt i \<noteq> ConfigSynTestRawFmt j" "PluginLatestHealthFmt i \<noteq> ConfigSynTestStatusFmt j"
  "PluginLastUnhealthyFmt i \<noteq> TestRunLatestFmt j" "PluginLastUnhealthyFmt i \<noteq> TestRunLastFailedFmt j"
  "PluginLastUnhealthyFmt i \<noteq> ConfigSynTestJsonFmt j" "PluginLastUnhealthyFmt i \<noteq> ConfigSynTestRawFmt j"
  "PluginLastUnhealthyFmt i \<noteq> ConfigSynTestStatusFmt j" "TestRunLatestFmt i \<noteq> TestRunLastFailedFmt j"
  "TestRunLatestFmt i \<noteq> ConfigSynTestJsonFmt j" "TestRunLatestFmt i \<noteq> ConfigSynTestRawFmt j"
  "TestRunLatestFmt i \<noteq> ConfigSynTestStatusFmt j" "TestRunLastFailedFmt i \<noteq> ConfigSynTestJsonFmt j"
  "TestRunLastFailedFmt i \<noteq> ConfigSynTestRawFmt j" "TestRunLastFailedFmt i \<noteq> ConfigSynTestStatusFmt j"
  "ConfigSynTestJsonFmt i \<noteq> ConfigSynTestRawFmt j" "ConfigSynTestJsonFmt i \<noteq> ConfigSynTestStatusFmt j"
  "ConfigSynTestRawFmt i \<noteq> ConfigSynTestStatusFmt j"
  by ((rule rev_neq, simp add: string_key_defs del: rev_is_rev_conv)+)

declare string_keys_differ [key_simps] and string_keys_differ [symmetric, key_simps]

text \<open>The formats of string keys and the keys of hashes.\<close>

definition stringFmts :: "(string \<Rightarrow> string) list" where
  "stringFmts = [PluginLatestHealthFmt, PluginLastUnhealthyFmt, TestRunLatestFmt, TestRunLastFailedFmt,
     ConfigSynTestJsonFmt, ConfigSynTestRawFmt, ConfigSynTestStatusFmt]"

definition hashKeys :: "string list" where
  "hashKeys = [AllTestRunStatus, AllPluginStatus, ConfigSynTestsSummary, AgentsAll]"

lemma hashKeys_mem [key_simps]:
  "AllTestRunStatus \<in> set hashKeys" "AllPluginStatus \<in> set hashKeys"
  "ConfigSynTestsSummary \<in> set hashKeys" "AgentsAll \<in> set hashKeys"
  by (simp_all add: hashKeys_def)

lemma stringFmts_mem [key_simps]:
  "PluginLatestHealthFmt \<in> set stringFmts" "PluginLastUnhealthyFmt \<in> set stringFmts"
  "TestRunLatestFmt \<in> set stringFmts" "TestRunLastFailedFmt \<in> set stringFmts"
  "ConfigSynTestJsonFmt \<in> set stringFmts" "ConfigSynTestRawFmt \<in> set stringFmts"
  "ConfigSynTestStatusFmt \<in> set stringFmts"
  by (simp_all add: stringFmts_def)

lemma hash_keys_differ [key_simps]: "distinct hashKeys"
  by (simp add: hashKeys_def hash_key_defs)

lemma string_hash_differ:
  "PluginLatestHealthFmt i \<noteq> AllTestRunStatus" "PluginLatestHealthFmt i \<noteq> AllPluginStatus" "PluginLatestHealthFmt i \<noteq> ConfigSynTestsSummary" "PluginLatestHealthFmt i \<noteq> AgentsAll"
  "PluginLastUnhealthyFmt i \<noteq> AllTestRunStatus" "PluginLastUnhealthyFmt i \<noteq> AllPluginStatus" "PluginLastUnhealthyFmt i \<noteq> ConfigSynTestsSummary" "PluginLastUnhealthyFmt i \<noteq> AgentsAll"
  "TestRunLatestFmt i \<noteq> AllTestRunStatus" "TestRunLatestFmt i \<noteq> AllPluginStatus" "TestRunLatestFmt i \<noteq> ConfigSynTestsSummary" "TestRunLatestFmt i \<noteq> AgentsAll"
  "TestRunLastFailedFmt i \<noteq> AllTestRunStatus" "TestRunLastFailedFmt i \<noteq> AllPluginStatus" "TestRunLastFailedFmt i \<noteq> ConfigSynTestsSummary" "TestRunLastFailedFmt i \<noteq> AgentsAll"
  "ConfigSynTestJsonFmt i \<noteq> AllTestRunStatus" "ConfigSynTestJsonFmt i \<noteq> AllPluginStatus" "ConfigSynTestJsonFmt i \<noteq> ConfigSynTestsSummary" "ConfigSynTestJsonFmt i \<noteq> AgentsAll"
  "ConfigSynTestRawFmt i \<noteq> AllTestRunStatus" "ConfigSynTestRawFmt i \<noteq> AllPluginStatus" "ConfigSynTestRawFmt i \<noteq> ConfigSynTestsSummary" "ConfigSynTestRawFmt i \<noteq> AgentsAll"
  "ConfigSynTestStatusFmt i \<noteq> AllTestRunStatus" "ConfigSynTestStatusFmt i \<noteq> AllPluginStatus" "ConfigSynTestStatusFmt i \<noteq> ConfigSynTestsSummary" "ConfigSynTestStatusFmt i \<noteq> AgentsAll"
  by ((rule rev_neq, simp add: string_key_defs hash_key_defs del: rev_is_rev_conv)+)

declare string_hash_differ [key_simps] and string_hash_differ [symmetric, key_simps]

lemma string_not_hash: "f \<in> set stringFmts \<Longrightarrow> f i \<notin> set hashKeys"
  unfolding stringFmts_def hashKeys_def
  by (auto simp: string_hash_differ)

lemma hash_keys_neq [key_simps]:
  "AllTestRunStatus \<noteq> AllPluginStatus" "AllTestRunStatus \<noteq> ConfigSynTestsSummary"
  "AllTestRunStatus \<noteq> AgentsAll" "AllPluginStatus \<noteq> ConfigSynTestsSummary"
  "AllPluginStatus \<noteq> AgentsAll" "ConfigSynTestsSummary \<noteq> AgentsAll"
  "AllPluginStatus \<noteq> AllTestRunStatus" "ConfigSynTestsSummary \<noteq> AllTestRunStatus"
  "AgentsAll \<noteq> AllTestRunStatus" "ConfigSynTestsSummary \<noteq> AllPluginStatus"
  "AgentsAll \<noteq> AllPluginStatus" "AgentsAll \<noteq> ConfigSynTestsSummary"
  using hash_keys_differ by (auto simp: hashKeys_def)

section \<open>The view of a server\<close>

fun decode :: "(string \<Rightarrow> err + 'a) \<Rightarrow> string option \<Rightarrow> 'a option" where
  "decode u None = None"
| "decode u (Some b) = (case u b of Inl _ \<Rightarrow> None | Inr x \<Rightarrow> Some x)"

definition decodable :: "(string \<Rightarrow> err + 'a) \<Rightarrow> string option \<Rightarrow> bool" where
  "decodable u x \<longleftrightarrow> (\<forall>b. x = Some b \<longrightarrow> (\<exists>y. u b = Inr y))"

definition viewOf :: "'s RedisSynHeartStore \<Rightarrow> rview \<Rightarrow> store_view" where
  "viewOf r w =
     \<lparr>v_cfg = (\<lambda>i. decode (rs_unmarshalConfig r) (rv_str w (ConfigSynTestJsonFmt i))),
      v_raw = (\<lambda>i. rv_str w (ConfigSynTestRawFmt i)),
      v_status = (\<lambda>i. decode (rs_unmarshalStatus r) (rv_str w (ConfigSynTestStatusFmt i))),
      v_sum = (\<lambda>i. decode (rs_unmarshalSummary r) (rv_hash w ConfigSynTestsSummary i)),
      v_agents = (\<lambda>i. decode (rs_unmarshalAgent r) (rv_hash w AgentsAll i)),
      v_latest = (\<lambda>i. decode (rs_unmarshalRun r) (rv_str w (TestRunLatestFmt i))),
      v_failed = (\<lambda>i. decode (rs_unmarshalRun r) (rv_str w (TestRunLastFailedFmt i))),
      v_runStatus = rv_hash w AllTestRunStatus,
      v_health = (\<lambda>i. decode (rs_unmarshalState r) (rv_str w (PluginLatestHealthFmt i))),
      v_unhealthy = (\<lambda>i. decode (rs_unmarshalState r) (rv_str w (PluginLastUnhealthyFmt i))),
      v_pluginStatus = rv_hash w AllPluginStatus\<rparr>"

definition redisInv :: "'s RedisSynHeartStore \<Rightarrow> rview \<Rightarrow> bool" where
  "redisInv r w \<longleftrightarrow>
     (\<forall>k \<in> set hashKeys. rv_str w k = None) \<and>
     (\<forall>f \<in> set stringFmts. \<forall>i. rv_hash w (f i) = Map.empty) \<and>
     (\<forall>i. decodable (rs_unmarshalConfig r) (rv_str w (ConfigSynTestJsonFmt i))) \<and>
     (\<forall>i. decodable (rs_unmarshalSummary r) (rv_hash w ConfigSynTestsSummary i)) \<and>
     (\<forall>i. decodable (rs_unmarshalAgent r) (rv_hash w AgentsAll i))"

text \<open>What is left of a value that is written as JSON and read back.\<close>

definition through :: "('a \<Rightarrow> err + string) \<Rightarrow> (string \<Rightarrow> err + 'a) \<Rightarrow> 'a \<Rightarrow> 'a" where
  "through m u x = (case m x of Inl _ \<Rightarrow> x | Inr b \<Rightarrow> (case u b of Inl _ \<Rightarrow> x | Inr y \<Rightarrow> y))"

lemma unmarshalAll_acc:
  assumes "unmarshalAll msg u m acc = Inr xs" and "gwf m" and "gwf acc"
  shows "gwf xs \<and> map_of xs = map_of acc ++ (\<lambda>k. decode u (map_of m k))"
  using assms
proof (induction msg u m acc rule: unmarshalAll.induct)
  case (2 msg u k b m acc)
  obtain y where y: "u b = Inr y" using 2(2) by (cases "u b") auto
  have "k \<notin> fst ` set m" and m: "gwf m" using 2(3) by (auto simp: gwf_def)
  then have k: "map_of m k = None" by (simp add: map_of_eq_None_iff)
  from 2(1)[OF y] 2(2,4) y m
  have xs: "gwf xs" "map_of xs = (map_of acc)(k \<mapsto> y) ++ (\<lambda>k. decode u (map_of m k))"
    by (simp_all add: fun_upd_def)
  have "(map_of acc)(k \<mapsto> y) ++ (\<lambda>k. decode u (map_of m k)) = map_of acc ++ (\<lambda>i. decode u (map_of ((k, b) # m) i))"
    by (rule ext) (auto simp: map_add_def k y split: option.splits)
  with xs show ?case by simp
qed (auto simp: map_add_def)

lemma unmarshalAll_law:
  assumes "unmarshalAll msg u m [] = Inr xs" and "gwf m"
  shows "gwf xs" "map_of xs = (\<lambda>k. decode u (map_of m k))"
  using unmarshalAll_acc[OF assms gwf_Nil] by (auto simp: map_add_def fun_eq_iff split: option.splits)

text \<open>The commands the methods send.\<close>

fun goodCmd :: "'s RedisSynHeartStore \<Rightarrow> redis_cmd \<Rightarrow> bool" where
  "goodCmd r (SET k x) \<longleftrightarrow> (\<exists>f \<in> set stringFmts. \<exists>i. k = f i) \<and>
     ((\<exists>i. ConfigSynTestJsonFmt i = k) \<longrightarrow> decodable (rs_unmarshalConfig r) (Some x))"
| "goodCmd r (DEL k) \<longleftrightarrow> (\<exists>f \<in> set stringFmts. \<exists>i. k = f i)"
| "goodCmd r (HSET k f x) \<longleftrightarrow> k \<in> set hashKeys \<and>
     (k = ConfigSynTestsSummary \<longrightarrow> decodable (rs_unmarshalSummary r) (Some x)) \<and>
     (k = AgentsAll \<longrightarrow> decodable (rs_unmarshalAgent r) (Some x))"
| "goodCmd r (HDEL k f) \<longleftrightarrow> k \<in> set hashKeys"
| "goodCmd r _ \<longleftrightarrow> True"

lemma redisInv_effect: "goodCmd r c \<Longrightarrow> redisInv r w \<Longrightarrow> redisInv r (effect c w)"
proof (cases c)
  case (SET k x)
  assume g: "goodCmd r c" and inv: "redisInv r w"
  from g SET obtain f i where f: "f \<in> set stringFmts" "k = f i"
    "(\<exists>i. ConfigSynTestJsonFmt i = k) \<longrightarrow> decodable (rs_unmarshalConfig r) (Some x)" by auto
  with inv SET string_not_hash[OF f(1), of i] show ?thesis
    by (auto simp: redisInv_def key_simps)
next
  case (DEL k)
  assume g: "goodCmd r c" and inv: "redisInv r w"
  from g DEL obtain f i where f: "f \<in> set stringFmts" "k = f i" by auto
  with inv DEL string_not_hash[OF f(1), of i] show ?thesis
    by (auto simp: redisInv_def key_simps decodable_def)
next
  case (HSET k f x)
  assume g: "goodCmd r c" and inv: "redisInv r w"
  moreover have "f i \<noteq> k" if "f \<in> set stringFmts" for f i
    using string_not_hash[OF that, of i] g HSET by auto
  ultimately show ?thesis using HSET by (auto simp: redisInv_def)
next
  case (HDEL k f)
  assume g: "goodCmd r c" and inv: "redisInv r w"
  moreover have "f i \<noteq> k" if "f \<in> set stringFmts" for f i
    using string_not_hash[OF that, of i] g HDEL by auto
  ultimately show ?thesis using HDEL by (auto simp: redisInv_def decodable_def)
qed (auto simp: redisInv_def)

lemma goodCmd_set:
  "goodCmd r (SET (PluginLatestHealthFmt i) x)" "goodCmd r (SET (PluginLastUnhealthyFmt i) x)"
  "goodCmd r (SET (TestRunLatestFmt i) x)" "goodCmd r (SET (TestRunLastFailedFmt i) x)"
  "goodCmd r (SET (ConfigSynTestRawFmt i) x)" "goodCmd r (SET (ConfigSynTestStatusFmt i) x)"
  "goodCmd r (SET (ConfigSynTestJsonFmt i) x) \<longleftrightarrow> decodable (rs_unmarshalConfig r) (Some x)"
  by (auto simp: stringFmts_def key_simps)

lemma goodCmd_del:
  "goodCmd r (DEL (PluginLatestHealthFmt i))" "goodCmd r (DEL (PluginLastUnhealthyFmt i))"
  "goodCmd r (DEL (TestRunLatestFmt i))" "goodCmd r (DEL (TestRunLastFailedFmt i))"
  "goodCmd r (DEL (ConfigSynTestRawFmt i))" "goodCmd r (DEL (ConfigSynTestStatusFmt i))"
  "goodCmd r (DEL (ConfigSynTestJsonFmt i))"
  by (auto simp: stringFmts_def)

lemma goodCmd_hdel:
  "goodCmd r (HDEL AllTestRunStatus i)" "goodCmd r (HDEL AllPluginStatus i)"
  "goodCmd r (HDEL ConfigSynTestsSummary i)" "goodCmd r (HDEL AgentsAll i)"
  by (auto simp: key_simps)

text \<open>The commands on the data of one configuration and of one plugin.\<close>

fun configCmd :: "string \<Rightarrow> redis_cmd \<Rightarrow> bool" where
  "configCmd i (SET k x) \<longleftrightarrow> k \<in> {ConfigSynTestJsonFmt i, ConfigSynTestRawFmt i, ConfigSynTestStatusFmt i}"
| "configCmd i (DEL k) \<longleftrightarrow> k \<in> {ConfigSynTestJsonFmt i, ConfigSynTestRawFmt i, ConfigSynTestStatusFmt i}"
| "configCmd i (HSET k f x) \<longleftrightarrow> k = ConfigSynTestsSummary \<and> f = i"
| "configCmd i (HDEL k f) \<longleftrightarrow> k = ConfigSynTestsSummary \<and> f = i"
| "configCmd i (PUBLISH c m) \<longleftrightarrow> True"
| "configCmd i _ \<longleftrightarrow> False"

fun pluginCmd :: "string \<Rightarrow> redis_cmd \<Rightarrow> bool" where
  "pluginCmd i (SET k x) \<longleftrightarrow>
     k \<in> {TestRunLatestFmt i, TestRunLastFailedFmt i, PluginLatestHealthFmt i, PluginLastUnhealthyFmt i}"
| "pluginCmd i (DEL k) \<longleftrightarrow>
     k \<in> {TestRunLatestFmt i, TestRunLastFailedFmt i, PluginLatestHealthFmt i, PluginLastUnhealthyFmt i}"
| "pluginCmd i (HSET k f x) \<longleftrightarrow> k \<in> {AllTestRunStatus, AllPluginStatus} \<and> f = i"
| "pluginCmd i (HDEL k f) \<longleftrightarrow> k \<in> {AllTestRunStatus, AllPluginStatus} \<and> f = i"
| "pluginCmd i (PUBLISH c m) \<longleftrightarrow> True"
| "pluginCmd i _ \<longleftrightarrow> False"

lemma configCmd_frame: "configCmd i c \<Longrightarrow> offConfig i (viewOf r (effect c w)) = offConfig i (viewOf r w)"
  by (cases "(i, c)" rule: configCmd.cases)
    (auto simp: offConfig_def viewOf_def key_simps fun_upd_def fun_eq_iff)

lemma pluginCmd_frame: "pluginCmd i c \<Longrightarrow> offPlugin i (viewOf r (effect c w)) = offPlugin i (viewOf r w)"
  by (cases "(i, c)" rule: pluginCmd.cases)
    (auto simp: offPlugin_def viewOf_def key_simps fun_upd_def fun_eq_iff)

section \<open>The methods as chains\<close>

fun encoded :: "err + string \<Rightarrow> string" where
  "encoded (Inl e) = []"
| "encoded (Inr b) = b"

definition writeConfigCmds :: "'s RedisSynHeartStore \<Rightarrow> SynTestConfig \<Rightarrow> string \<Rightarrow> (bool \<times> redis_cmd) list" where
  "writeConfigCmds r c raw =
     (True, SET (ConfigSynTestRawFmt (cid c)) raw) #
     (False, SET (ConfigSynTestStatusFmt (cid c)) (encoded (rs_marshalStatus r emptyConfigStatus))) #
     (case rs_marshalConfig r c of
        Inl _ \<Rightarrow> []
      | Inr b \<Rightarrow> (True, SET (ConfigSynTestJsonFmt (cid c)) b) #
          (case rs_marshalSummary r (summaryOf c) of
             Inl _ \<Rightarrow> []
           | Inr sb \<Rightarrow> [(True, HSET ConfigSynTestsSummary (cid c) sb),
               (True, PUBLISH ConfigChannel (''update '' @ cid c))]))"

definition deleteConfigCmds :: "string \<Rightarrow> (bool \<times> redis_cmd) list" where
  "deleteConfigCmds i = [(True, DEL (ConfigSynTestRawFmt i)), (True, DEL (ConfigSynTestJsonFmt i)),
     (True, DEL (ConfigSynTestStatusFmt i)), (True, HDEL ConfigSynTestsSummary i),
     (True, PUBLISH ConfigChannel (''deleting '' @ i))]"

definition deleteRunCmds :: "string \<Rightarrow> (bool \<times> redis_cmd) list" where
  "deleteRunCmds i = [(False, HDEL AllTestRunStatus i), (False, HDEL AllPluginStatus i),
     (False, DEL (TestRunLatestFmt i)), (False, DEL (TestRunLastFailedFmt i)),
     (False, DEL (PluginLatestHealthFmt i)), (False, DEL (PluginLastUnhealthyFmt i))]"

context redis_service begin

lemma WriteTestConfigStatus_did:
  assumes "WriteTestConfigStatus r i x s = (res, s')"
  shows "did (res = Inr ()) (SET (ConfigSynTestStatusFmt i) (encoded (rs_marshalStatus r x))) (v s) (v s')"
proof (cases "rs_marshalStatus r x")
  case (Inl e)
  with assms show ?thesis by (auto simp: WriteTestConfigStatus_def did_def intro: exI[of _ 0])
next
  case (Inr b)
  show ?thesis
    unfolding Inr encoded.simps
    by (rule did_wrapErr[OF primitives_did(1) assms[unfolded WriteTestConfigStatus_def Inr sum.case]])
qed

lemma WriteTestConfig_chain:
  "WriteTestConfig r c raw s = (res, s') \<Longrightarrow>
   chain (writeConfigCmds r c raw) (res = Inr ()) (v s) (v s')"
  unfolding writeConfigCmds_def WriteTestConfig_def Let_def
  apply (erule chain_must, erule primitives_did)
  apply (erule chain_log, erule WriteTestConfigStatus_did)
  apply (cases "rs_marshalConfig r c"; simp only: sum.case)
   apply simp
  apply (erule chain_must, erule primitives_did)
  apply (cases "rs_marshalSummary r (summaryOf c)"; simp only: sum.case)
   apply simp
  apply (erule chain_must, erule primitives_did)
  apply (erule chain_end, erule primitives_did)
  done

lemma WriteTestConfig_encoded:
  assumes "WriteTestConfig r c raw s = (Inr (), s')"
  obtains b sb where "rs_marshalConfig r c = Inr b" and "rs_marshalSummary r (summaryOf c) = Inr sb"
  using assms
  by (cases "rs_marshalConfig r c"; cases "rs_marshalSummary r (summaryOf c)")
    (auto simp: WriteTestConfig_def Let_def andThen_Inr_conv)

lemma DeleteTestConfig_chain:
  "DeleteTestConfig r i s = (res, s') \<Longrightarrow> chain (deleteConfigCmds i) (res = Inr ()) (v s) (v s')"
  unfolding deleteConfigCmds_def DeleteTestConfig_def Let_def
  by (erule chain_must, erule primitives_did)+ (erule chain_end, erule primitives_did)

lemma DeleteAllTestRunInfo_chain:
  "DeleteAllTestRunInfo r i s = (res, s') \<Longrightarrow> chain (deleteRunCmds i) (res = Inr ()) (v s) (v s')"
  unfolding deleteRunCmds_def DeleteAllTestRunInfo_def
  by (erule chain_log, erule primitives_did)+ (erule chain_log_end, erule primitives_did)

lemma DeleteAllTestRunInfo_nil: "fst (DeleteAllTestRunInfo r i s) = Inr ()"
  by (simp add: DeleteAllTestRunInfo_def logErr_def)

lemma config_cmds_good:
  "(m, d) \<in> set (writeConfigCmds r c raw) \<Longrightarrow> goodCmd r d \<and> configCmd (cid c) d"
  "(m, d) \<in> set (deleteConfigCmds i) \<Longrightarrow> goodCmd r d \<and> configCmd i d"
  "(m, d) \<in> set (deleteRunCmds i) \<Longrightarrow> goodCmd r d \<and> pluginCmd i d"
  using config_codec summary_codec
  by (auto simp: writeConfigCmds_def deleteConfigCmds_def deleteRunCmds_def decodable_def key_simps
      goodCmd_set goodCmd_del simp del: goodCmd.simps(1,2) split: sum.splits)

section \<open>The laws of the contract\<close>

lemma cmds_inv:
  assumes "chain cs ok w w'" and "\<And>m d. (m, d) \<in> set cs \<Longrightarrow> goodCmd r d" and "redisInv r w"
  shows "redisInv r w'"
  by (rule chain_preserves[OF assms(1), of "redisInv r"]) (auto intro: redisInv_effect assms)

lemma write_config_law:
  assumes "redisInv r (v s)" and w: "WriteTestConfig r c raw s = (res, s')"
  shows "redisInv r (v s')" "offConfig (cid c) (viewOf r (v s')) = offConfig (cid c) (viewOf r (v s))"
    "v_cfg (viewOf r (v s')) (cid c) = v_cfg (viewOf r (v s)) (cid c) \<or> v_cfg (viewOf r (v s')) (cid c) = Some c"
    "res = Inr () \<Longrightarrow> v_cfg (viewOf r (v s')) (cid c) = Some c \<and> v_raw (viewOf r (v s')) (cid c) = Some raw \<and>
       v_sum (viewOf r (v s')) (cid c) = Some (through (rs_marshalSummary r) (rs_unmarshalSummary r) (summaryOf c))"
proof -
  note ch = WriteTestConfig_chain[OF w]
  show "redisInv r (v s')" using cmds_inv[OF ch _ assms(1)] config_cmds_good by blast
  show "offConfig (cid c) (viewOf r (v s')) = offConfig (cid c) (viewOf r (v s))"
    using chain_keeps[OF ch, of "\<lambda>w. offConfig (cid c) (viewOf r w)"] config_cmds_good configCmd_frame by blast
  show "v_cfg (viewOf r (v s')) (cid c) = v_cfg (viewOf r (v s)) (cid c) \<or> v_cfg (viewOf r (v s')) (cid c) = Some c"
    by (rule chain_preserves[OF ch])
      (auto simp: writeConfigCmds_def viewOf_def key_simps config_codec split: sum.splits)
  show "v_cfg (viewOf r (v s')) (cid c) = Some c \<and> v_raw (viewOf r (v s')) (cid c) = Some raw \<and>
       v_sum (viewOf r (v s')) (cid c) = Some (through (rs_marshalSummary r) (rs_unmarshalSummary r) (summaryOf c))"
    if "res = Inr ()"
  proof -
    from WriteTestConfig_encoded w that obtain b sb where
      b: "rs_marshalConfig r c = Inr b" "rs_marshalSummary r (summaryOf c) = Inr sb" by blast
    from summary_codec[OF b(2)] obtain y where y: "rs_unmarshalSummary r sb = Inr y" ..
    let ?raw = "(True, SET (ConfigSynTestRawFmt (cid c)) raw)"
    let ?st = "(False, SET (ConfigSynTestStatusFmt (cid c)) (encoded (rs_marshalStatus r emptyConfigStatus)))"
    let ?json = "(True, SET (ConfigSynTestJsonFmt (cid c)) b)"
    let ?sum = "(True, HSET ConfigSynTestsSummary (cid c) sb)"
    let ?pub = "(True, PUBLISH ConfigChannel (''update '' @ cid c))"
    have cs: "chain [?raw, ?st, ?json, ?sum, ?pub] True (v s) (v s')"
      using ch that b by (simp only: writeConfigCmds_def sum.case simp_thms)
    have "v_cfg (viewOf r (v s')) (cid c) = Some c"
      by (rule chain_establishes_nth[OF cs, of 2 _ "\<lambda>w. v_cfg (viewOf r w) (cid c) = Some c"])
        (auto simp: viewOf_def key_simps config_codec[OF b(1)])
    moreover have "v_raw (viewOf r (v s')) (cid c) = Some raw"
      by (rule chain_establishes_nth[OF cs, of 0 _ "\<lambda>w. v_raw (viewOf r w) (cid c) = Some raw"])
        (auto simp: viewOf_def key_simps)
    moreover have "v_sum (viewOf r (v s')) (cid c) = Some y"
      by (rule chain_establishes_nth[OF cs, of 3 _ "\<lambda>w. v_sum (viewOf r w) (cid c) = Some y"])
        (auto simp: viewOf_def key_simps y)
    ultimately show ?thesis using b y by (simp add: through_def)
  qed
qed

lemma delete_config_law:
  assumes "redisInv r (v s)" and d: "DeleteTestConfig r i s = (res, s')"
  shows "redisInv r (v s')" "offConfig i (viewOf r (v s')) = offConfig i (viewOf r (v s))"
    "v_sum (viewOf r (v s')) i = v_sum (viewOf r (v s)) i \<or> v_sum (viewOf r (v s')) i = None"
    "res = Inr () \<Longrightarrow> v_cfg (viewOf r (v s')) i = None \<and> v_sum (viewOf r (v s')) i = None \<and>
       v_raw (viewOf r (v s')) i = None \<and> v_status (viewOf r (v s')) i = None"
proof -
  note ch = DeleteTestConfig_chain[OF d]
  show "redisInv r (v s')" using cmds_inv[OF ch _ assms(1)] config_cmds_good by blast
  show "offConfig i (viewOf r (v s')) = offConfig i (viewOf r (v s))"
    using chain_keeps[OF ch, of "\<lambda>w. offConfig i (viewOf r w)"] config_cmds_good configCmd_frame by blast
  show "v_sum (viewOf r (v s')) i = v_sum (viewOf r (v s)) i \<or> v_sum (viewOf r (v s')) i = None"
    by (rule chain_preserves[OF ch]) (auto simp: deleteConfigCmds_def viewOf_def key_simps)
  assume "res = Inr ()"
  then have cs: "chain (deleteConfigCmds i) True (v s) (v s')" using ch by simp
  have "v_raw (viewOf r (v s')) i = None"
    by (rule chain_establishes_nth[OF cs, of 0 _ "\<lambda>w. v_raw (viewOf r w) i = None"])
      (auto simp: deleteConfigCmds_def viewOf_def key_simps)
  moreover have "v_cfg (viewOf r (v s')) i = None"
    by (rule chain_establishes_nth[OF cs, of 1 _ "\<lambda>w. v_cfg (viewOf r w) i = None"])
      (auto simp: deleteConfigCmds_def viewOf_def key_simps)
  moreover have "v_status (viewOf r (v s')) i = None"
    by (rule chain_establishes_nth[OF cs, of 2 _ "\<lambda>w. v_status (viewOf r w) i = None"])
      (auto simp: deleteConfigCmds_def viewOf_def key_simps)
  moreover have "v_sum (viewOf r (v s')) i = None"
    by (rule chain_establishes_nth[OF cs, of 3 _ "\<lambda>w. v_sum (viewOf r w) i = None"])
      (auto simp: deleteConfigCmds_def viewOf_def key_simps)
  ultimately show "v_cfg (viewOf r (v s')) i = None \<and> v_sum (viewOf r (v s')) i = None \<and>
       v_raw (viewOf r (v s')) i = None \<and> v_status (viewOf r (v s')) i = None"
    by simp
qed

lemma fetched_law:
  assumes "fetched msg umsg u (GetR r k s) = (res, s')"
  shows "v s' = v s" "res = Inr x \<Longrightarrow> decode u (rv_str (v s) k) = Some x"
    "res = Inl ErrNotFound \<Longrightarrow> rv_str (v s) k = None"
proof -
  obtain g s1 where g: "GetR r k s = (g, s1)" by (cases "GetR r k s")
  note law = GetR_law[OF g]
  have s1: "s1 = s'" using assms g by (auto simp: fetched_def split: sum.splits if_splits)
  with law(1) show "v s' = v s" by simp
  show "decode u (rv_str (v s) k) = Some x" if "res = Inr x"
  proof (cases g)
    case (Inr b)
    with that assms g have "u b = Inr x" by (cases "u b") (auto simp: fetched_def)
    with law(2)[OF Inr] show ?thesis by simp
  qed (use that assms g in \<open>auto simp: fetched_def split: if_splits\<close>)
  show "rv_str (v s) k = None" if "res = Inl ErrNotFound"
  proof (cases g)
    case (Inl e)
    with that assms g have "errors_Is e RedisNil" by (auto simp: fetched_def split: if_splits)
    with law(3)[OF Inl] show ?thesis by simp
  next
    case (Inr b)
    with that assms g show ?thesis by (cases "u b") (auto simp: fetched_def)
  qed
qed

lemma fetch_all_law:
  assumes "HGetAllR r k s = (Inr m, s')" and "unmarshalAll msg u m [] = Inr xs"
  shows "gwf xs" "map_of xs = (\<lambda>i. decode u (rv_hash (v s) k i))"
  using HGetAllR_law(2)[OF assms(1)] unmarshalAll_law[OF assms(2)] by auto

lemma delete_run_info_law:
  assumes "redisInv r (v s)" and d: "DeleteAllTestRunInfo r i s = (res, s')"
  shows "redisInv r (v s')" "offPlugin i (viewOf r (v s')) = offPlugin i (viewOf r (v s))"
    "v_runStatus (viewOf r (v s')) i = v_runStatus (viewOf r (v s)) i \<or> v_runStatus (viewOf r (v s')) i = None"
proof -
  note ch = DeleteAllTestRunInfo_chain[OF d]
  show "redisInv r (v s')" using cmds_inv[OF ch _ assms(1)] config_cmds_good by blast
  show "offPlugin i (viewOf r (v s')) = offPlugin i (viewOf r (v s))"
    using chain_keeps[OF ch, of "\<lambda>w. offPlugin i (viewOf r w)"] config_cmds_good pluginCmd_frame by blast
  show "v_runStatus (viewOf r (v s')) i = v_runStatus (viewOf r (v s)) i \<or> v_runStatus (viewOf r (v s')) i = None"
    by (rule chain_preserves[OF ch]) (auto simp: deleteRunCmds_def viewOf_def key_simps)
qed

text \<open>Methods that send one idempotent command.\<close>

lemma did_once:
  assumes "did sure c w w'" and "effect c (effect c w) = effect c w"
  shows "w' = w \<and> \<not> sure \<or> w' = effect c w"
proof -
  have "(effect c ^^ n) w = (if n = 0 then w else effect c w)" for n
    using assms(2) by (induction n) auto
  with assms(1) show ?thesis by (auto simp: did_def split: if_splits)
qed

lemma status_law:
  assumes inv: "redisInv r (v s)" and w: "WriteTestConfigStatus r i x s = (res, s')"
  shows "redisInv r (v s')"
    "viewOf r (v s') = viewOf r (v s) \<and> res \<noteq> Inr () \<or>
     viewOf r (v s') = (viewOf r (v s))\<lparr>v_status := (v_status (viewOf r (v s)))(i \<mapsto>
       through (rs_marshalStatus r) (rs_unmarshalStatus r) x)\<rparr>"
proof -
  let ?c = "SET (ConfigSynTestStatusFmt i) (encoded (rs_marshalStatus r x))"
  note d = WriteTestConfigStatus_did[OF w]
  show "redisInv r (v s')" 
    by (rule did_preserves[OF d, of "redisInv r", OF redisInv_effect[OF goodCmd_set(6)] inv])
  show "viewOf r (v s') = viewOf r (v s) \<and> res \<noteq> Inr () \<or>
     viewOf r (v s') = (viewOf r (v s))\<lparr>v_status := (v_status (viewOf r (v s)))(i \<mapsto>
       through (rs_marshalStatus r) (rs_unmarshalStatus r) x)\<rparr>"
  proof (cases "rs_marshalStatus r x")
    case (Inl e)
    with w show ?thesis by (auto simp: WriteTestConfigStatus_def)
  next
    case (Inr b)
    from status_codec[OF Inr] obtain y where "rs_unmarshalStatus r b = Inr y" ..
    then have "viewOf r (effect ?c (v s)) = (viewOf r (v s))\<lparr>v_status := (v_status (viewOf r (v s)))(i \<mapsto> y)\<rparr>"
      "through (rs_marshalStatus r) (rs_unmarshalStatus r) x = y"
      using Inr by (auto simp: viewOf_def key_simps through_def fun_eq_iff)
    moreover have "v s' = v s \<and> res \<noteq> Inr () \<or> v s' = effect ?c (v s)" by (rule did_once[OF d]) simp
    ultimately show ?thesis by (auto simp del: effect.simps)
  qed
qed

lemma write_agent_law:
  assumes inv: "redisInv r (v s)" and w: "WriteAgentStatus r i a s = (res, s')"
  shows "redisInv r (v s') \<and>
      (viewOf r (v s') = viewOf r (v s) \<and> res \<noteq> Inr () \<or>
       viewOf r (v s') = (viewOf r (v s))\<lparr>v_agents := (v_agents (viewOf r (v s)))(i \<mapsto>
         through (rs_marshalAgent r) (rs_unmarshalAgent r) a)\<rparr>)"
proof (cases "rs_marshalAgent r a")
  case (Inl e)
  with inv w show ?thesis by (auto simp: WriteAgentStatus_def)
next
  case (Inr b)
  have d: "did (res = Inr ()) (HSET AgentsAll i b) (v s) (v s')"
    by (rule did_wrapErr[OF primitives_did(3) w[unfolded WriteAgentStatus_def Inr sum.case]])
  from agent_codec[OF Inr] obtain y where y: "rs_unmarshalAgent r b = Inr y" ..
  then have "goodCmd r (HSET AgentsAll i b)" by (simp add: key_simps decodable_def)
  with inv redisInv_effect have "redisInv r (effect (HSET AgentsAll i b) (v s))" by blast
  moreover have "viewOf r (effect (HSET AgentsAll i b) (v s)) =
      (viewOf r (v s))\<lparr>v_agents := (v_agents (viewOf r (v s)))(i \<mapsto> y)\<rparr>"
    using y by (auto simp: viewOf_def key_simps fun_eq_iff)
  moreover have "v s' = v s \<and> res \<noteq> Inr () \<or> v s' = effect (HSET AgentsAll i b) (v s)"
    by (rule did_once[OF d]) simp
  ultimately show ?thesis using inv Inr y by (auto simp: through_def simp del: effect.simps)
qed

lemma delete_agent_law:
  assumes inv: "redisInv r (v s)" and w: "DeleteAgentStatus r i s = (res, s')"
  shows "redisInv r (v s') \<and>
      (viewOf r (v s') = viewOf r (v s) \<and> res \<noteq> Inr () \<or>
       viewOf r (v s') = (viewOf r (v s))\<lparr>v_agents := (v_agents (viewOf r (v s)))(i := None)\<rparr>)"
proof -
  have d: "did (res = Inr ()) (HDEL AgentsAll i) (v s) (v s')"
    by (rule did_wrapErr[OF primitives_did(4) w[unfolded DeleteAgentStatus_def]])
  have "goodCmd r (HDEL AgentsAll i)" by (simp add: key_simps)
  with inv redisInv_effect have "redisInv r (effect (HDEL AgentsAll i) (v s))" by blast
  moreover have "viewOf r (effect (HDEL AgentsAll i) (v s)) =
      (viewOf r (v s))\<lparr>v_agents := (v_agents (viewOf r (v s)))(i := None)\<rparr>"
    by (auto simp: viewOf_def key_simps fun_eq_iff)
  moreover have "v s' = v s \<and> res \<noteq> Inr () \<or> v s' = effect (HDEL AgentsAll i) (v s)"
    by (rule did_once[OF d]) simp
  ultimately show ?thesis using inv by (auto simp del: effect.simps)
qed

lemma agent_event_law:
  assumes inv: "redisInv r (v s)" and w: "NewAgentEvent r ev s = (res, s')"
  shows "redisInv r (v s') \<and> viewOf r (v s') = viewOf r (v s)"
proof -
  have d: "did (res = Inr ()) (PUBLISH AgentChannel ev) (v s) (v s')"
    by (rule did_wrapErr[OF primitives_did(5) w[unfolded NewAgentEvent_def]])
  show ?thesis
    using did_preserves[OF d, of "\<lambda>w. redisInv r w \<and> viewOf r w = viewOf r (v s)"] inv
      redisInv_effect[of r "PUBLISH AgentChannel ev"]
    by (simp add: viewOf_def)
qed

lemma fetch_config_law:
  assumes inv: "redisInv r (v s)" and w: "FetchTestConfig r i s = (res, s')"
  shows "redisInv r (v s') \<and> viewOf r (v s') = viewOf r (v s) \<and>
    (\<forall>c. res = Inr c \<longrightarrow> v_cfg (viewOf r (v s)) i = Some c) \<and>
    (res = Inl ErrNotFound \<longrightarrow> v_cfg (viewOf r (v s)) i = None)"
  using fetched_law[OF w[unfolded FetchTestConfig_def]] inv by (auto simp: viewOf_def)

lemma fetch_summaries_law:
  assumes inv: "redisInv r (v s)" and w: "FetchAllTestConfigSummary r s = (res, s')"
  shows "redisInv r (v s') \<and> viewOf r (v s') = viewOf r (v s) \<and>
    (\<forall>m. res = Inr m \<longrightarrow> gwf m \<and> map_of m = v_sum (viewOf r (v s)))"
proof -
  obtain g s1 where g: "HGetAllR r ConfigSynTestsSummary s = (g, s1)" by (cases "HGetAllR r ConfigSynTestsSummary s")
  with w have "s1 = s'" by (cases g) (auto simp: FetchAllTestConfigSummary_def)
  moreover have "gwf m \<and> map_of m = v_sum (viewOf r (v s))" if "res = Inr m" for m
    using w g that fetch_all_law by (cases g) (auto simp: FetchAllTestConfigSummary_def viewOf_def)
  ultimately show ?thesis using HGetAllR_law(1)[OF g] inv by auto
qed

lemma fetch_agents_law:
  assumes inv: "redisInv r (v s)" and w: "FetchAllAgentStatus r s = (res, s')"
  shows "redisInv r (v s') \<and> viewOf r (v s') = viewOf r (v s) \<and>
    (\<forall>m. res = Inr m \<longrightarrow> gwf m \<and> map_of m = v_agents (viewOf r (v s)))"
proof -
  obtain g s1 where g: "HGetAllR r AgentsAll s = (g, s1)" by (cases "HGetAllR r AgentsAll s")
  with w have "s1 = s'" by (cases g) (auto simp: FetchAllAgentStatus_def)
  moreover have "gwf m \<and> map_of m = v_agents (viewOf r (v s))" if "res = Inr m" for m
    using w g that fetch_all_law by (cases g) (auto simp: FetchAllAgentStatus_def viewOf_def)
  ultimately show ?thesis using HGetAllR_law(1)[OF g] inv by auto
qed

lemma fetch_run_status_law:
  assumes inv: "redisInv r (v s)" and w: "FetchAllTestRunStatus r s = (res, s')"
  shows "redisInv r (v s') \<and> viewOf r (v s') = viewOf r (v s) \<and>
    (\<forall>m. res = Inr m \<longrightarrow> gwf m \<and> map_of m = v_runStatus (viewOf r (v s)))"
  using HGetAllR_law[OF w[unfolded FetchAllTestRunStatus_def]] inv by (auto simp: viewOf_def)

end

text \<open>The Redis store is a storage of the interface.\<close>

sublocale redis_service \<subseteq> store: synheart_store "NewRedisSynHeartStore r" "\<lambda>s. viewOf r (v s)"
    "\<lambda>s. redisInv r (v s)" "through (rs_marshalSummary r) (rs_unmarshalSummary r)"
    "through (rs_marshalAgent r) (rs_unmarshalAgent r)" "through (rs_marshalStatus r) (rs_unmarshalStatus r)"
proof (unfold_locales, goal_cases)
  case (1 s c raw res s')
  then show ?case using write_config_law[of s c raw res s'] by (auto simp: NewRedisSynHeartStore_def)
next
  case (2 s i res s')
  then show ?case using fetch_config_law by (simp add: NewRedisSynHeartStore_def)
next
  case (3 s i res s')
  then show ?case using delete_config_law[of s i res s'] by (simp add: NewRedisSynHeartStore_def)
next
  case (4 s i x res s')
  then show ?case using status_law[of s i x res s'] by (simp add: NewRedisSynHeartStore_def)
next
  case (5 s res s')
  then show ?case using fetch_summaries_law by (simp add: NewRedisSynHeartStore_def)
next
  case (6 s res s')
  then show ?case using fetch_agents_law by (simp add: NewRedisSynHeartStore_def)
next
  case (7 s i a res s')
  then show ?case using write_agent_law by (simp add: NewRedisSynHeartStore_def)
next
  case (8 s i res s')
  then show ?case using delete_agent_law by (simp add: NewRedisSynHeartStore_def)
next
  case (9 s res s')
  then show ?case using fetch_run_status_law by (simp add: NewRedisSynHeartStore_def)
next
  case (10 s i res s')
  then show ?case using delete_run_info_law[of s i res s'] DeleteAllTestRunInfo_nil[of i s]
    by (simp add: NewRedisSynHeartStore_def)
next
  case (11 s ev res s')
  then show ?case using agent_event_law by (simp add: NewRedisSynHeartStore_def)
next
  case (12 s res s')
  then show ?case using ping_reads[of s] by (simp add: NewRedisSynHeartStore_def)
qed

end
