(* ===== verification/RedisReliable.thy ===== *)
theory RedisReliable
  imports RedisStore
begin

text \<open>
  Over a Redis server that answers every command the methods of the storage succeed: no key is
  used with the wrong type, every stored value can be read back, and a missing value is
  reported as \<open>ErrNotFound\<close>. A server in memory shows that the laws can be met; it is the
  server the witnesses run on.
\<close>

section \<open>Methods succeed\<close>

context reliable_redis begin

lemma onError_total:
  assumes "typeOk c (v s)" and "\<not> retr RedisNil"
  shows "(\<exists>rep s'. rs_onError r retr (rs_client r c) s = (Inr rep, s')) \<or>
    (\<exists>k s'. c = GET k \<and> rv_str (v s) k = None \<and> rs_onError r retr (rs_client r c) s = (Inl RedisNil, s'))"
  using onError_retries[of retr "rs_client r c" s] client_total[OF assms(1)] assms(2)
  by (cases rule: retried.cases) auto

lemma not_retriable_nil: "\<not> retriable RedisNil" "\<not> retriableGet RedisNil"
  by (auto simp: retriable_def retriableGet_def)

lemma keeps_inv:
  "goodCmd r c \<Longrightarrow> redisInv r (v s) \<Longrightarrow> did sure c (v s) (v s') \<Longrightarrow> redisInv r (v s')"
  using did_preserves[of sure c "v s" "v s'" "redisInv r"] redisInv_effect by blast

lemma primitives_total:
  assumes "redisInv r (v s)"
  shows "goodCmd r (SET k x) \<Longrightarrow> \<exists>s'. SetR r k x s = (Inr (), s') \<and> redisInv r (v s')"
    "goodCmd r (DEL k) \<Longrightarrow> \<exists>s'. DelR r k s = (Inr (), s') \<and> redisInv r (v s')"
    "goodCmd r (HSET k f x) \<Longrightarrow> \<exists>s'. HSetR r k f x s = (Inr (), s') \<and> redisInv r (v s')"
    "goodCmd r (HDEL k f) \<Longrightarrow> \<exists>s'. HDelR r k f s = (Inr (), s') \<and> redisInv r (v s')"
    "\<exists>s'. PublishR r k x s = (Inr (), s') \<and> redisInv r (v s')"
proof -
  note total = onError_total[where retr = retriable, OF _ not_retriable_nil(1)]
  { assume g: "goodCmd r (SET k x)"
    obtain s' where "SetR r k x s = (Inr (), s')"
      using total[of "SET k x" s] by (auto simp: SetR_def)
    with keeps_inv[OF g assms primitives_did(1)] show "\<exists>s'. SetR r k x s = (Inr (), s') \<and> redisInv r (v s')" by blast }
  { assume g: "goodCmd r (DEL k)"
    obtain s' where "DelR r k s = (Inr (), s')"
      using total[of "DEL k" s] by (auto simp: DelR_def)
    with keeps_inv[OF g assms primitives_did(2)] show "\<exists>s'. DelR r k s = (Inr (), s') \<and> redisInv r (v s')" by blast }
  { assume g: "goodCmd r (HSET k f x)"
    then have "typeOk (HSET k f x) (v s)" using assms by (simp add: redisInv_def)
    from total[OF this] obtain s' where "HSetR r k f x s = (Inr (), s')" by (auto simp: HSetR_def)
    with keeps_inv[OF g assms primitives_did(3)] show "\<exists>s'. HSetR r k f x s = (Inr (), s') \<and> redisInv r (v s')" by blast }
  { assume g: "goodCmd r (HDEL k f)"
    then have "typeOk (HDEL k f) (v s)" using assms by (simp add: redisInv_def)
    from total[OF this] obtain s' where "HDelR r k f s = (Inr (), s')" by (auto simp: HDelR_def)
    with keeps_inv[OF g assms primitives_did(4)] show "\<exists>s'. HDelR r k f s = (Inr (), s') \<and> redisInv r (v s')" by blast }
  obtain s' where "PublishR r k x s = (Inr (), s')"
    using total[of "PUBLISH k x" s] by (auto simp: PublishR_def)
  with keeps_inv[OF _ assms primitives_did(5)] show "\<exists>s'. PublishR r k x s = (Inr (), s') \<and> redisInv r (v s')"
    by fastforce
qed

lemma GetR_total:
  assumes "redisInv r (v s)" and "f \<in> set stringFmts"
  shows "fst (GetR r (f i) s) = (case rv_str (v s) (f i) of None \<Rightarrow> Inl RedisNil | Some b \<Rightarrow> Inr b)"
proof -
  obtain res s' where g: "GetR r (f i) s = (res, s')" by (cases "GetR r (f i) s")
  have "typeOk (GET (f i)) (v s)" using assms by (simp add: redisInv_def)
  from onError_total[where retr = retriableGet, OF this not_retriable_nil(2)] g have "(\<exists>b. res = Inr b) \<or> res = Inl RedisNil"
    by (auto simp: GetR_def)
  with GetR_law(2,3)[OF g] g show ?thesis by auto
qed

lemma HGetAllR_total:
  assumes "redisInv r (v s)" and "k \<in> set hashKeys"
  shows "\<exists>m s'. HGetAllR r k s = (Inr m, s')"
proof -
  have "typeOk (HGETALL k) (v s)" using assms by (simp add: redisInv_def)
  from onError_total[where retr = retriable, OF this not_retriable_nil(1)] show ?thesis by (auto simp: HGetAllR_def)
qed

lemma status_total:
  assumes "redisInv r (v s)"
  shows "\<exists>s'. WriteTestConfigStatus r i x s = (Inr (), s') \<and> redisInv r (v s')"
proof -
  from status_encodes obtain b where "rs_marshalStatus r x = Inr b" by blast
  moreover obtain s' where "SetR r (ConfigSynTestStatusFmt i) b s = (Inr (), s')" "redisInv r (v s')"
    using primitives_total(1)[OF assms] goodCmd_set(6) by blast
  ultimately show ?thesis by (auto simp: WriteTestConfigStatus_def)
qed

lemma write_config_total_law:
  assumes inv: "redisInv r (v s)" and b: "rs_marshalConfig r c = Inr b"
  shows "fst (WriteTestConfig r c raw s) = Inr ()"
proof -
  from summary_encodes obtain sb where sb: "rs_marshalSummary r (summaryOf c) = Inr sb" by blast
  obtain s1 where 1: "SetR r (ConfigSynTestRawFmt (cid c)) raw s = (Inr (), s1)" "redisInv r (v s1)"
    using primitives_total(1)[OF inv] goodCmd_set(5) by blast
  obtain s2 where 2: "WriteTestConfigStatus r (cid c) emptyConfigStatus s1 = (Inr (), s2)" "redisInv r (v s2)"
    using status_total[OF 1(2)] by blast
  have json: "goodCmd r (SET (ConfigSynTestJsonFmt (cid c)) b)"
    unfolding goodCmd_set(7) using config_codec[OF b] by (simp add: decodable_def)
  obtain s3 where 3: "SetR r (ConfigSynTestJsonFmt (cid c)) b s2 = (Inr (), s3)" "redisInv r (v s3)"
    using primitives_total(1)[OF 2(2) json] by blast
  have "goodCmd r (HSET ConfigSynTestsSummary (cid c) sb)"
    using summary_codec[OF sb] by (simp add: key_simps decodable_def)
  then obtain s4 where 4: "HSetR r ConfigSynTestsSummary (cid c) sb s3 = (Inr (), s4)" "redisInv r (v s4)"
    using primitives_total(3)[OF 3(2)] by blast
  obtain s5 where "PublishR r ConfigChannel (''update '' @ cid c) s4 = (Inr (), s5)"
    using primitives_total(5)[OF 4(2)] by blast
  with 1 2 3 4 b sb show ?thesis by (simp add: WriteTestConfig_def Let_def logErr_def)
qed

lemma delete_config_total_law:
  assumes inv: "redisInv r (v s)"
  shows "fst (DeleteTestConfig r i s) = Inr ()"
proof -
  obtain s1 where 1: "DelR r (ConfigSynTestRawFmt i) s = (Inr (), s1)" "redisInv r (v s1)"
    using primitives_total(2)[OF inv] goodCmd_del(5) by blast
  obtain s2 where 2: "DelR r (ConfigSynTestJsonFmt i) s1 = (Inr (), s2)" "redisInv r (v s2)"
    using primitives_total(2)[OF 1(2)] goodCmd_del(7) by blast
  obtain s3 where 3: "DelR r (ConfigSynTestStatusFmt i) s2 = (Inr (), s3)" "redisInv r (v s3)"
    using primitives_total(2)[OF 2(2)] goodCmd_del(6) by blast
  obtain s4 where 4: "HDelR r ConfigSynTestsSummary i s3 = (Inr (), s4)" "redisInv r (v s4)"
    using primitives_total(4)[OF 3(2)] goodCmd_hdel(3) by blast
  obtain s5 where "PublishR r ConfigChannel (''deleting '' @ i) s4 = (Inr (), s5)"
    using primitives_total(5)[OF 4(2)] by blast
  with 1 2 3 4 show ?thesis by (simp add: DeleteTestConfig_def Let_def)
qed

lemma delete_run_info_all:
  assumes inv: "redisInv r (v s)"
  shows "\<exists>s'. DeleteAllTestRunInfo r i s = (Inr (), s') \<and>
    chain (map (\<lambda>(_, c). (True, c)) (deleteRunCmds i)) True (v s) (v s')"
proof -
  obtain s1 where 1: "HDelR r AllTestRunStatus i s = (Inr (), s1)" "redisInv r (v s1)"
    using primitives_total(4)[OF inv goodCmd_hdel(1)] by blast
  obtain s2 where 2: "HDelR r AllPluginStatus i s1 = (Inr (), s2)" "redisInv r (v s2)"
    using primitives_total(4)[OF 1(2) goodCmd_hdel(2)] by blast
  obtain s3 where 3: "DelR r (TestRunLatestFmt i) s2 = (Inr (), s3)" "redisInv r (v s3)"
    using primitives_total(2)[OF 2(2) goodCmd_del(3)] by blast
  obtain s4 where 4: "DelR r (TestRunLastFailedFmt i) s3 = (Inr (), s4)" "redisInv r (v s4)"
    using primitives_total(2)[OF 3(2) goodCmd_del(4)] by blast
  obtain s5 where 5: "DelR r (PluginLatestHealthFmt i) s4 = (Inr (), s5)" "redisInv r (v s5)"
    using primitives_total(2)[OF 4(2) goodCmd_del(1)] by blast
  obtain s6 where 6: "DelR r (PluginLastUnhealthyFmt i) s5 = (Inr (), s6)" "redisInv r (v s6)"
    using primitives_total(2)[OF 5(2) goodCmd_del(2)] by blast
  note ds = primitives_did(4)[OF 1(1)] primitives_did(4)[OF 2(1)] primitives_did(2)[OF 3(1)]
    primitives_did(2)[OF 4(1)] primitives_did(2)[OF 5(1)] primitives_did(2)[OF 6(1)]
  have "chain (map (\<lambda>(_, c). (True, c)) (deleteRunCmds i)) True (v s) (v s6)"
    using ds unfolding deleteRunCmds_def by (simp del: effect.simps) blast
  moreover have "DeleteAllTestRunInfo r i s = (Inr (), s6)"
    using 1 2 3 4 5 6 by (simp add: DeleteAllTestRunInfo_def logErr_def)
  ultimately show ?thesis by blast
qed

lemma delete_run_info_total_law:
  assumes inv: "redisInv r (v s)"
  shows "v_runStatus (viewOf r (v (snd (DeleteAllTestRunInfo r i s)))) i = None"
proof -
  obtain s' where s': "DeleteAllTestRunInfo r i s = (Inr (), s')"
    and ch: "chain (map (\<lambda>(_, c). (True, c)) (deleteRunCmds i)) True (v s) (v s')"
    using delete_run_info_all[OF inv] by blast
  have "rv_hash (v s') AllTestRunStatus i = None"
    by (rule chain_establishes_nth[OF ch, of 0 _ "\<lambda>w. rv_hash w AllTestRunStatus i = None"])
      (auto simp: deleteRunCmds_def key_simps)
  with s' show ?thesis by (simp add: viewOf_def)
qed

lemma fetched_total:
  assumes "redisInv r (v s)" and "f \<in> set stringFmts" and "decodable u (rv_str (v s) (f i))"
  shows "fst (fetched msg umsg u (GetR r (f i) s)) =
    (case decode u (rv_str (v s) (f i)) of None \<Rightarrow> Inl ErrNotFound | Some x \<Rightarrow> Inr x)"
proof -
  obtain g s1 where "GetR r (f i) s = (g, s1)" by (cases "GetR r (f i) s")
  with GetR_total[OF assms(1,2), of i] assms(3) show ?thesis
    by (cases "rv_str (v s) (f i)") (auto simp: fetched_def decodable_def)
qed

lemma unmarshalAll_total:
  "(\<And>k b. (k, b) \<in> set m \<Longrightarrow> \<exists>y. u b = Inr y) \<Longrightarrow> \<exists>xs. unmarshalAll msg u m acc = Inr xs"
proof (induction msg u m acc rule: unmarshalAll.induct)
  case (2 msg u k b m acc)
  then obtain y where "u b = Inr y" by (meson list.set_intros(1))
  with 2(1)[OF this] 2(2) show ?case by (simp, meson list.set_intros(2))
qed simp

lemma fetch_all_total:
  assumes "redisInv r (v s)" and "k \<in> set hashKeys" and "\<And>i. decodable u (rv_hash (v s) k i)"
  shows "\<exists>m s' xs. HGetAllR r k s = (Inr m, s') \<and> unmarshalAll msg u m [] = Inr xs"
proof -
  obtain m s' where m: "HGetAllR r k s = (Inr m, s')" using HGetAllR_total assms(1,2) by blast
  from HGetAllR_law(2)[OF m] have wf: "gwf m" "map_of m = rv_hash (v s) k" by auto
  have "\<exists>y. u b = Inr y" if "(i, b) \<in> set m" for i b
    using assms(3)[of i] that wf by (simp add: map_of_mem decodable_def)
  with unmarshalAll_total m show ?thesis by metis
qed

end

sublocale reliable_redis \<subseteq> rstore: reliable_store "NewRedisSynHeartStore r" "\<lambda>s. viewOf r (v s)"
    "\<lambda>s. redisInv r (v s)" "through (rs_marshalSummary r) (rs_unmarshalSummary r)"
    "through (rs_marshalAgent r) (rs_unmarshalAgent r)" "through (rs_marshalStatus r) (rs_unmarshalStatus r)"
    "\<lambda>c. \<exists>b. rs_marshalConfig r c = Inr b"
proof (unfold_locales, goal_cases)
  case (1 s c raw)
  then show ?case using write_config_total_law by (auto simp: NewRedisSynHeartStore_def)
next
  case (2 s i)
  then show ?case
    using fetched_total[of s ConfigSynTestJsonFmt "rs_unmarshalConfig r" i]
    by (auto simp: NewRedisSynHeartStore_def FetchTestConfig_def viewOf_def key_simps redisInv_def)
next
  case (3 s i)
  then show ?case using delete_config_total_law by (simp add: NewRedisSynHeartStore_def)
next
  case (4 s i x)
  then show ?case using status_total[of s i x] by (auto simp: NewRedisSynHeartStore_def)
next
  case (5 s)
  then show ?case
    using fetch_all_total[of s ConfigSynTestsSummary "rs_unmarshalSummary r" "''error unmarshalling config summary''"]
    by (auto simp: NewRedisSynHeartStore_def FetchAllTestConfigSummary_def key_simps redisInv_def)
next
  case (6 s)
  then show ?case
    using fetch_all_total[of s AgentsAll "rs_unmarshalAgent r" "''error getting agent status''"]
    by (auto simp: NewRedisSynHeartStore_def FetchAllAgentStatus_def key_simps redisInv_def)
next
  case (7 s i a)
  obtain b where b: "rs_marshalAgent r a = Inr b" using agent_encodes by blast
  then have "goodCmd r (HSET AgentsAll i b)" using agent_codec[OF b] by (simp add: key_simps decodable_def)
  from primitives_total(3)[OF 7 this] b show ?case by (auto simp: NewRedisSynHeartStore_def WriteAgentStatus_def)
next
  case (8 s i)
  from primitives_total(4)[OF 8 goodCmd_hdel(4)[of r i]] show ?case
    by (auto simp: NewRedisSynHeartStore_def DeleteAgentStatus_def)
next
  case (9 s)
  then show ?case
    using HGetAllR_total[of s AllTestRunStatus]
    by (auto simp: NewRedisSynHeartStore_def FetchAllTestRunStatus_def key_simps)
next
  case (10 s i)
  then show ?case using delete_run_info_total_law by (simp add: NewRedisSynHeartStore_def)
qed

end
