(* ===== verification/MemoryRedis.thy ===== *)
theory MemoryRedis
  imports RedisReliable
begin

text \<open>
  A Redis server in memory, a retry helper with a bounded number of attempts, and codecs for all
  stored types: an instance of \<open>reliable_redis\<close>. The server keeps strings and hashes in one
  key space, answers a command on a key of the other type with an error, and drops a hash with
  its last field. The theorems about the storage are stated for every server; this one is where
  the witnesses run.
\<close>

section \<open>The server\<close>

datatype redis_val = RStr string | RHash gomap

record mem =
  m_keys :: "(string \<times> redis_val) list"
  m_pub :: "(string \<times> string) list"

definition wrongType :: err where
  "wrongType = RedisErr ''WRONGTYPE Operation against a key holding the wrong kind of value''"

definition memHash :: "string \<Rightarrow> mem \<Rightarrow> gomap" where
  "memHash k s = (case map_of (m_keys s) k of Some (RHash m) \<Rightarrow> m | _ \<Rightarrow> [])"

definition isStr :: "string \<Rightarrow> mem \<Rightarrow> bool" where
  "isStr k s = (case map_of (m_keys s) k of Some (RStr x) \<Rightarrow> True | _ \<Rightarrow> False)"

fun memClient :: "redis_cmd \<Rightarrow> mem \<Rightarrow> (err + redis_reply) \<times> mem" where
  "memClient (GET k) s =
     (case map_of (m_keys s) k of
        None \<Rightarrow> (Inl RedisNil, s)
      | Some (RStr x) \<Rightarrow> (Inr (RVal x), s)
      | Some (RHash m) \<Rightarrow> (if m = [] then Inl RedisNil else Inl wrongType, s))"
| "memClient (SET k x) s = (Inr RDone, s\<lparr>m_keys := AList.update k (RStr x) (m_keys s)\<rparr>)"
| "memClient (DEL k) s = (Inr RDone, s\<lparr>m_keys := AList.delete k (m_keys s)\<rparr>)"
| "memClient (HSET k f x) s =
     (if isStr k s then (Inl wrongType, s)
      else (Inr RDone, s\<lparr>m_keys := AList.update k (RHash (AList.update f x (AList.clearjunk (memHash k s)))) (m_keys s)\<rparr>))"
| "memClient (HDEL k f) s =
     (if isStr k s then (Inl wrongType, s)
      else let m = AList.delete f (memHash k s) in
        (Inr RDone, s\<lparr>m_keys := (if m = [] then AList.delete k (m_keys s)
                                  else AList.update k (RHash m) (m_keys s))\<rparr>))"
| "memClient (HGETALL k) s =
     (if isStr k s then (Inl wrongType, s) else (Inr (RMap (AList.clearjunk (memHash k s))), s))"
| "memClient (PUBLISH c m) s = (Inr RDone, s\<lparr>m_pub := m_pub s @ [(c, m)]\<rparr>)"

fun memRetry :: "nat \<Rightarrow> (err \<Rightarrow> bool) \<Rightarrow> ('s \<Rightarrow> (err + 'a) \<times> 's) \<Rightarrow> 's \<Rightarrow> (err + 'a) \<times> 's" where
  "memRetry 0 retr fn s = fn s"
| "memRetry (Suc n) retr fn s =
     (case fn s of
        (Inl e, s1) \<Rightarrow> (if retr e then memRetry n retr fn s1 else (Inl e, s1))
      | (Inr a, s1) \<Rightarrow> (Inr a, s1))"

definition memView :: "mem \<Rightarrow> rview" where
  "memView s =
     \<lparr>rv_str = (\<lambda>k. case map_of (m_keys s) k of Some (RStr x) \<Rightarrow> Some x | _ \<Rightarrow> None),
      rv_hash = (\<lambda>k. map_of (memHash k s)), rv_pub = m_pub s\<rparr>"

lemma memRetry_retried: "retried retr fn s (memRetry n retr fn s)"
proof (induction n arbitrary: s)
  case (Suc n)
  obtain res s1 where f: "fn s = (res, s1)" by (cases "fn s")
  show ?case
  proof (cases res)
    case (Inl e)
    with f Suc[of s1] show ?thesis using retried.attempt[of retr fn s] by (auto intro: retried.again)
  next
    case (Inr a)
    with f show ?thesis using retried.attempt[of retr fn s] by simp
  qed
qed (auto intro: retried.attempt)

lemma memView_set: "memView (s\<lparr>m_keys := AList.update k (RStr x) (m_keys s)\<rparr>) = effect (SET k x) (memView s)"
  by (simp add: memView_def memHash_def fun_eq_iff)

lemma memView_del: "memView (s\<lparr>m_keys := AList.delete k (m_keys s)\<rparr>) = effect (DEL k) (memView s)"
  by (simp add: memView_def memHash_def fun_eq_iff)

lemma memView_hash:
  assumes "\<not> isStr k s"
  shows "memView (s\<lparr>m_keys := AList.update k (RHash m) (m_keys s)\<rparr>) =
    (memView s)\<lparr>rv_hash := (rv_hash (memView s))(k := map_of m)\<rparr>"
  using assms by (auto simp: memView_def memHash_def isStr_def fun_eq_iff split: option.splits redis_val.splits)

lemma memView_hash_gone:
  assumes "\<not> isStr k s"
  shows "memView (s\<lparr>m_keys := AList.delete k (m_keys s)\<rparr>) =
    (memView s)\<lparr>rv_hash := (rv_hash (memView s))(k := Map.empty)\<rparr>"
  using assms by (auto simp: memView_def memHash_def isStr_def fun_eq_iff split: option.splits redis_val.splits)

lemma rv_hash_memView: "rv_hash (memView s) k = map_of (memHash k s)"
  by (simp add: memView_def)

lemma memClient_ok:
  "memClient c s = (Inr rep, s') \<Longrightarrow> memView s' = effect c (memView s) \<and> replyOk c (memView s) rep"
proof (cases c)
  case (GET k)
  assume "memClient c s = (Inr rep, s')"
  with GET show ?thesis by (auto simp: memView_def split: option.splits redis_val.splits if_splits)
next
  case (HSET k f x)
  assume "memClient c s = (Inr rep, s')"
  with HSET show ?thesis
    by (auto simp: memView_hash rv_hash_memView map_of_clearjunk split: if_splits)
next
  case (HDEL k f)
  assume h: "memClient c s = (Inr rep, s')"
  have "map_of (AList.delete f (memHash k s)) = (map_of (memHash k s))(f := None)" by simp
  with h HDEL show ?thesis
    by (cases "AList.delete f (memHash k s) = []")
      (auto simp: Let_def memView_hash memView_hash_gone rv_hash_memView simp del: map_of_delete split: if_splits)
next
  case (HGETALL k)
  assume "memClient c s = (Inr rep, s')"
  with HGETALL show ?thesis
    by (auto simp: rv_hash_memView map_of_clearjunk gwf_def split: if_splits)
qed (auto simp: memView_set memView_del, auto simp: memView_def memHash_def)

lemma memClient_err:
  "memClient c s = (Inl e, s') \<Longrightarrow> s' = s \<and> (errors_Is e RedisNil \<longrightarrow> (\<exists>k. c = GET k \<and> rv_str (memView s) k = None))"
  by (cases c) (auto simp: memView_def wrongType_def Let_def split: if_splits option.splits redis_val.splits)

lemma memClient_total:
  "typeOk c (memView s) \<Longrightarrow> (\<exists>rep s'. memClient c s = (Inr rep, s')) \<or>
     (\<exists>k s'. c = GET k \<and> rv_str (memView s) k = None \<and> memClient c s = (Inl RedisNil, s'))"
  by (cases c) (auto simp: memView_def memHash_def isStr_def Let_def split: option.splits redis_val.splits)

section \<open>Codecs\<close>

text \<open>
  A list of strings as one string: every character behind a comma, every string closed by a
  dot. Everything else is built from it.
\<close>

fun encStr :: "string \<Rightarrow> string" where
  "encStr [] = ''.''"
| "encStr (c # cs) = CHR '','' # c # encStr cs"

definition enc :: "string list \<Rightarrow> string" where
  "enc ss = concat (map encStr ss)"

fun decStr :: "string \<Rightarrow> string \<Rightarrow> string list" where
  "decStr cur (x # []) = [rev cur]"
| "decStr cur [] = []"
| "decStr cur (x # y # rest) =
     (if x = CHR '','' then decStr (y # cur) rest else rev cur # decStr [] (y # rest))"

lemma decStr_enc: "decStr cur (encStr s @ enc ss) = (rev cur @ s) # (if ss = [] then [] else decStr [] (enc ss))"
proof (induction s arbitrary: cur)
  case Nil
  show ?case
  proof (cases "enc ss")
    case Nil
    then have "ss = []" by (cases ss; cases "hd ss") (auto simp: enc_def)
    with Nil show ?thesis by (simp add: enc_def)
  next
    case (Cons a b)
    then have "ss \<noteq> []" by (auto simp: enc_def)
    with Cons show ?thesis by simp
  qed
qed simp

lemma decStr_enc_all [simp]: "decStr [] (enc ss) = ss"
proof (induction ss)
  case (Cons s ss)
  have "enc (s # ss) = encStr s @ enc ss" by (simp add: enc_def)
  with Cons decStr_enc[of "[]" s ss] show ?case by auto
qed (simp add: enc_def)

fun encNat :: "nat \<Rightarrow> string" where
  "encNat n = (if n = 0 then [] else (if odd n then CHR ''1'' else CHR ''0'') # encNat (n div 2))"

declare encNat.simps [simp del]

fun decNat :: "string \<Rightarrow> nat" where
  "decNat [] = 0"
| "decNat (c # cs) = (if c = CHR ''1'' then 1 else 0) + 2 * decNat cs"

lemma decNat_enc [simp]: "decNat (encNat n) = n"
proof (induction n rule: encNat.induct)
  case (1 n)
  then show ?case by (subst encNat.simps) (auto simp: odd_two_times_div_two_succ)
qed

definition encInt :: "int \<Rightarrow> string" where
  "encInt x = (if x < 0 then CHR ''-'' else CHR ''+'') # encNat (nat \<bar>x\<bar>)"

definition decInt :: "string \<Rightarrow> int" where
  "decInt s = (if hd s = CHR ''-'' then - int (decNat (tl s)) else int (decNat (tl s)))"

lemma decInt_enc [simp]: "decInt (encInt x) = x"
  by (simp add: encInt_def decInt_def)

definition encBool :: "bool \<Rightarrow> string" where "encBool b = (if b then ''t'' else [])"

definition encMap :: "gomap \<Rightarrow> string" where "encMap m = enc (map (\<lambda>(k, x). enc [k, x]) m)"

definition decMap :: "string \<Rightarrow> gomap" where
  "decMap s = map (\<lambda>p. (decStr [] p ! 0, decStr [] p ! 1)) (decStr [] s)"

lemma decMap_enc [simp]: "decMap (encMap m) = m"
  by (simp add: decMap_def encMap_def comp_def case_prod_beta)

lemma encBool_iff [simp]: "encBool b \<noteq> [] \<longleftrightarrow> b"
  by (simp add: encBool_def)

definition encConfig :: "SynTestConfig \<Rightarrow> string" where
  "encConfig c = enc [stc_Name c, stc_Version c, encMap (stc_Labels c), stc_PluginName c,
     stc_DisplayName c, stc_Description c, stc_Namespace c, stc_Importance c, stc_Repeat c,
     stc_NodeSelector c, encMap (stc_PodLabelSelector c), enc (stc_DependsOn c),
     to_Init (stc_Timeouts c), to_Run (stc_Timeouts c), to_Finish (stc_Timeouts c),
     stc_PluginRestartPolicy c, stc_LogWaitTime c, stc_Config c, encMap (stc_Runtime c)]"

definition decConfig :: "string \<Rightarrow> SynTestConfig" where
  "decConfig b = (let f = (!) (decStr [] b) in
     \<lparr>stc_Name = f 0, stc_Version = f 1, stc_Labels = decMap (f 2), stc_PluginName = f 3,
      stc_DisplayName = f 4, stc_Description = f 5, stc_Namespace = f 6, stc_Importance = f 7,
      stc_Repeat = f 8, stc_NodeSelector = f 9, stc_PodLabelSelector = decMap (f 10),
      stc_DependsOn = decStr [] (f 11),
      stc_Timeouts = \<lparr>to_Init = f 12, to_Run = f 13, to_Finish = f 14\<rparr>,
      stc_PluginRestartPolicy = f 15, stc_LogWaitTime = f 16, stc_Config = f 17,
      stc_Runtime = decMap (f 18)\<rparr>)"

lemma decConfig_enc [simp]: "decConfig (encConfig c) = c"
  by (cases c; cases "stc_Timeouts c") (simp add: decConfig_def encConfig_def Let_def)

definition encSummary :: "SyntestConfigSummary \<Rightarrow> string" where
  "encSummary x = enc [sum_Name x, sum_Namespace x, sum_ConfigId x, sum_Version x, sum_DisplayName x,
     sum_Description x, sum_Plugin x, sum_Repeat x]"

definition decSummary :: "string \<Rightarrow> SyntestConfigSummary" where
  "decSummary b = (let f = (!) (decStr [] b) in
     \<lparr>sum_Name = f 0, sum_Namespace = f 1, sum_ConfigId = f 2, sum_Version = f 3,
      sum_DisplayName = f 4, sum_Description = f 5, sum_Plugin = f 6, sum_Repeat = f 7\<rparr>)"

lemma decSummary_enc [simp]: "decSummary (encSummary x) = x"
  by (cases x) (simp add: decSummary_def encSummary_def Let_def)

definition encStatus :: "SyntestConfigStatus \<Rightarrow> string" where
  "encStatus x = enc [encBool (css_Deployed x), css_Message x, css_Agent x, css_Timestamp x]"

definition decStatus :: "string \<Rightarrow> SyntestConfigStatus" where
  "decStatus b = (let f = (!) (decStr [] b) in
     \<lparr>css_Deployed = f 0 \<noteq> [], css_Message = f 1, css_Agent = f 2, css_Timestamp = f 3\<rparr>)"

lemma decStatus_enc [simp]: "decStatus (encStatus x) = x"
  by (cases x) (simp add: decStatus_def encStatus_def Let_def)

definition encState :: "PluginState \<Rightarrow> string" where
  "encState x = enc [ps_Status x, ps_StatusMsg x, encConfig (ps_Config x), encInt (ps_Restarts x),
     ps_RestartBackOff x, encInt (ps_TotalRestarts x), encInt (ps_RunningSince x), encInt (ps_LastUpdated x)]"

definition decState :: "string \<Rightarrow> PluginState" where
  "decState b = (let f = (!) (decStr [] b) in
     \<lparr>ps_Status = f 0, ps_StatusMsg = f 1, ps_Config = decConfig (f 2), ps_Restarts = decInt (f 3),
      ps_RestartBackOff = f 4, ps_TotalRestarts = decInt (f 5), ps_RunningSince = decInt (f 6),
      ps_LastUpdated = decInt (f 7)\<rparr>)"

lemma decState_enc [simp]: "decState (encState x) = x"
  by (cases x) (simp add: decState_def encState_def Let_def)

definition encAgentConfig :: "AgentConfig \<Rightarrow> string" where
  "encAgentConfig a = enc [enc (ac_MatchTestNamespaces a), encMap (ac_MatchTestLabels a),
     ac_LabelFileLocation a, encInt (ac_SyncFrequency a), encInt (ac_GracePeriod a),
     pc_ServerAddress (ac_PrometheusConfig a), encBool (pc_Push (ac_PrometheusConfig a)),
     pc_PrometheusPushUrl (ac_PrometheusConfig a), encMap (pc_Labels (ac_PrometheusConfig a)),
     sc_Type (ac_StoreConfig a), encInt (sc_BufferSize (ac_StoreConfig a)),
     sc_Address (ac_StoreConfig a), encInt (sc_ExportRate (ac_StoreConfig a)),
     ac_PrintPluginLogs a, encMap (map (\<lambda>p. (pdc_Path p, pdc_Cmd p)) (ac_EnabledPlugins a)),
     encBool (ac_DebugMode a), encMap (map (\<lambda>(k, cmds). (k, enc cmds)) (ac_DiscoveredPlugins a)),
     ai_NodeName (ac_RunTimeInfo a), ai_PodName (ac_RunTimeInfo a), encMap (ai_PodLabels (ac_RunTimeInfo a)),
     ai_AgentNamespace (ac_RunTimeInfo a), encMap (map (\<lambda>(k, b). (k, encBool b)) (ac_MatchNamespaceSet a))]"

definition decAgentConfig :: "string \<Rightarrow> AgentConfig" where
  "decAgentConfig b = (let f = (!) (decStr [] b) in
     \<lparr>ac_MatchTestNamespaces = decStr [] (f 0), ac_MatchTestLabels = decMap (f 1),
      ac_LabelFileLocation = f 2, ac_SyncFrequency = decInt (f 3), ac_GracePeriod = decInt (f 4),
      ac_PrometheusConfig = \<lparr>pc_ServerAddress = f 5, pc_Push = f 6 \<noteq> [], pc_PrometheusPushUrl = f 7,
        pc_Labels = decMap (f 8)\<rparr>,
      ac_StoreConfig = \<lparr>sc_Type = f 9, sc_BufferSize = decInt (f 10), sc_Address = f 11,
        sc_ExportRate = decInt (f 12)\<rparr>,
      ac_PrintPluginLogs = f 13,
      ac_EnabledPlugins = map (\<lambda>(p, c). \<lparr>pdc_Path = p, pdc_Cmd = c\<rparr>) (decMap (f 14)),
      ac_DebugMode = f 15 \<noteq> [],
      ac_DiscoveredPlugins = map (\<lambda>(k, cmds). (k, decStr [] cmds)) (decMap (f 16)),
      ac_RunTimeInfo = \<lparr>ai_NodeName = f 17, ai_PodName = f 18, ai_PodLabels = decMap (f 19),
        ai_AgentNamespace = f 20\<rparr>,
      ac_MatchNamespaceSet = map (\<lambda>(k, b). (k, b \<noteq> [])) (decMap (f 21))\<rparr>)"

lemma decAgentConfig_enc [simp]: "decAgentConfig (encAgentConfig a) = a"
proof (cases a)
  case (fields ns labels lf sf gp prom st pl ep dm dp ri mn)
  have "map ((\<lambda>(p, c). \<lparr>pdc_Path = p, pdc_Cmd = c\<rparr>) \<circ> (\<lambda>p. (pdc_Path p, pdc_Cmd p))) ep = ep"
    by (rule map_idI) auto
  with fields show ?thesis
    by (cases prom; cases st; cases ri)
      (simp add: decAgentConfig_def encAgentConfig_def Let_def comp_def case_prod_beta)
qed

definition encAgent :: "AgentStatus \<Rightarrow> string" where
  "encAgent x = enc [enc (as_SynTests x), as_StatusTime x, encAgentConfig (as_AgentConfig x)]"

definition decAgent :: "string \<Rightarrow> AgentStatus" where
  "decAgent b = (let f = (!) (decStr [] b) in
     \<lparr>as_SynTests = decStr [] (f 0), as_StatusTime = f 1, as_AgentConfig = decAgentConfig (f 2)\<rparr>)"

lemma decAgent_enc [simp]: "decAgent (encAgent x) = x"
  by (cases x) (simp add: decAgent_def encAgent_def Let_def)

text \<open>Test runs, with the run that triggered them one level deep.\<close>

definition encRun :: "TestRun \<Rightarrow> err + string" where
  "encRun t = (case tr_Trigger t of Trigger ty trig det \<Rightarrow>
     (if trig \<noteq> None then Inl (ErrNew ''nested run'')
      else Inr (enc [tr_Id t, tr_AgentId t, tr_StartTime t, tr_EndTime t, encConfig (tr_TestConfig t),
        ty, det, encNat (tres_Marks (tr_TestResult t)), encNat (tres_MaxMarks (tr_TestResult t)),
        encMap (tres_Details (tr_TestResult t)), encMap (tr_Details t)])))"

definition decRun :: "string \<Rightarrow> TestRun" where
  "decRun b = (let f = (!) (decStr [] b) in
     TestRun (f 0) (f 1) (f 2) (f 3) (decConfig (f 4)) (Trigger (f 5) None (f 6))
       \<lparr>tres_Marks = decNat (f 7), tres_MaxMarks = decNat (f 8), tres_Details = decMap (f 9)\<rparr>
       (decMap (f 10)))"

lemma decRun_enc: "encRun t = Inr b \<Longrightarrow> decRun b = t"
  by (cases t; cases "tr_Trigger t"; cases "tr_TestResult t")
    (auto simp: encRun_def decRun_def Let_def split: if_splits)

section \<open>The instance\<close>

definition memStore :: "mem RedisSynHeartStore" where
  "memStore = \<lparr>rs_client = memClient, rs_onError = memRetry 19, rs_ping = (\<lambda>s. (Inr (), s)),
     rs_marshalRun = encRun, rs_unmarshalRun = (\<lambda>b. Inr (decRun b)),
     rs_marshalConfig = (\<lambda>c. Inr (encConfig c)), rs_unmarshalConfig = (\<lambda>b. Inr (decConfig b)),
     rs_marshalSummary = (\<lambda>x. Inr (encSummary x)), rs_unmarshalSummary = (\<lambda>b. Inr (decSummary b)),
     rs_marshalStatus = (\<lambda>x. Inr (encStatus x)), rs_unmarshalStatus = (\<lambda>b. Inr (decStatus b)),
     rs_marshalState = (\<lambda>x. Inr (encState x)), rs_unmarshalState = (\<lambda>b. Inr (decState b)),
     rs_marshalAgent = (\<lambda>x. Inr (encAgent x)), rs_unmarshalAgent = (\<lambda>b. Inr (decAgent b))\<rparr>"

interpretation memory: reliable_redis memStore memView
proof (unfold_locales, goal_cases)
  case (1 c s rep s')
  then show ?case using memClient_ok by (simp add: memStore_def)
next
  case (2 c s e s')
  then show ?case using memClient_err[of c s e s'] by (simp add: memStore_def)
next
  case (3 c s e s')
  then show ?case using memClient_err[of c s e s'] by (simp add: memStore_def)
next
  case (4 retr fn s)
  show ?case using memRetry_retried by (simp add: memStore_def)
next
  case (12 c s)
  then show ?case using memClient_total by (simp add: memStore_def)
qed (auto simp: memStore_def decRun_enc)

definition emptyMem :: mem where "emptyMem = \<lparr>m_keys = [], m_pub = []\<rparr>"

lemma emptyMem_inv [simp]: "redisInv memStore (memView emptyMem)"
  by (simp add: redisInv_def memView_def emptyMem_def memHash_def decodable_def)

lemma mem_through [simp]:
  "through (rs_marshalSummary memStore) (rs_unmarshalSummary memStore) x = x"
  "through (rs_marshalAgent memStore) (rs_unmarshalAgent memStore) a = a"
  "through (rs_marshalStatus memStore) (rs_unmarshalStatus memStore) st = st"
  by (simp_all add: through_def memStore_def)

end
