(* ===== verification/Sync.thy ===== *)
theory Sync
  imports StoreContract Selector MemoryRedis
begin

text \<open>
  The controller's periodic synchronisation (controller/sync/sync.go): it removes from the storage
  agents without a pod, configurations without a custom resource and run data that no active
  agent owns. The Kubernetes client is a parameter; \<open>'s\<close> is the state of the cluster and of the
  storage together. \<open>os.Exit\<close> is the outcome None.
\<close>

section \<open>Custom resources and the cluster\<close>

record SyntheticTestSpec =
  ss_Plugin :: string
  ss_Node :: string
  ss_PodLabelSelector :: gomap
  ss_DisplayName :: string
  ss_Description :: string
  ss_Importance :: string
  ss_Repeat :: string
  ss_DependsOn :: "string list"
  ss_Timeouts :: "Timeouts option"
  ss_PluginRestartPolicy :: string
  ss_LogWaitTime :: string
  ss_Config :: string

record SyntheticTestStatus =
  sts_Deployed :: bool
  sts_Agent :: string
  sts_Message :: string

record SyntheticTest =
  cr_Name :: string
  cr_Namespace :: string
  cr_Labels :: gomap
  cr_Spec :: SyntheticTestSpec
  cr_Status :: SyntheticTestStatus

text \<open>
  The calls of the Kubernetes client: the pods with the discovery label (name and namespace), the
  custom resources, one custom resource, and the status update.
\<close>

record 's K8sClient =
  k8_NewRequirement :: "string \<Rightarrow> string \<Rightarrow> err + unit"
  k8_ListPods :: "'s \<Rightarrow> (err + (string \<times> string) list) \<times> 's"
  k8_ListTests :: "'s \<Rightarrow> (err + SyntheticTest list) \<times> 's"
  k8_Get :: "string \<Rightarrow> string \<Rightarrow> 's \<Rightarrow> (err + SyntheticTest) \<times> 's"
  k8_IsNotFound :: "err \<Rightarrow> bool"
  k8_StatusUpdate :: "SyntheticTest \<Rightarrow> 's \<Rightarrow> (err + unit) \<times> 's"

text \<open>
  The process environment: the clock read for an agent, the parsers of package time, and the
  environment variable AGENT_STATUS_DEADLINE.
\<close>

record sync_env =
  se_now :: "string \<Rightarrow> time"
  se_parseTime :: "string \<Rightarrow> err + time"
  se_deadline :: "string option"
  se_parseDuration :: "string \<Rightarrow> err + duration"

section \<open>Active agents\<close>

text \<open>
  The loop deletes from the map it ranges over. Ages are compared in nanoseconds; the code
  compares the same durations as float seconds, which gives the same answer for deadlines below
  \<open>2 ^ 22\<close> seconds.
\<close>

fun activeLoop :: "sync_env \<Rightarrow> (string \<times> AgentStatus) list \<Rightarrow> (string \<times> AgentStatus) list
    \<Rightarrow> (string \<times> AgentStatus) list option" where
  "activeLoop env [] agents = Some agents"
| "activeLoop env ((agentName, agent) # rest) agents =
     (case se_parseTime env (as_StatusTime agent) of
        Inl _ \<Rightarrow> activeLoop env rest agents
      | Inr statusTime \<Rightarrow>
          (case se_deadline env of
             None \<Rightarrow> None
           | Some d \<Rightarrow>
               (case se_parseDuration env d of
                  Inl _ \<Rightarrow> None
                | Inr dur \<Rightarrow>
                    activeLoop env rest
                      (if se_now env agentName - statusTime \<ge> dur then AList.delete agentName agents
                       else agents))))"

definition FetchActiveAgents ::
  "sync_env \<Rightarrow> 's SynHeartStore \<Rightarrow> 's \<Rightarrow> (err + (string \<times> AgentStatus) list) option \<times> 's" where
  "FetchActiveAgents env st s =
     (case st_FetchAllAgentStatus st s of
        (Inl e, s) \<Rightarrow> (Some (Inl (ErrWrap ''error fetching all agents from store'' e)), s)
      | (Inr agents, s) \<Rightarrow> (map_option Inr (activeLoop env agents agents), s))"

section \<open>Agents\<close>

definition podIds :: "(string \<times> string) list \<Rightarrow> string list" where
  "podIds pods = map (\<lambda>(n, ns). ComputeAgentId n ns) pods"

definition registerAgents ::
  "'s SynHeartStore \<Rightarrow> (string \<times> AgentStatus) list \<Rightarrow> string list \<Rightarrow> 's \<Rightarrow> 's" where
  "registerAgents st agentsInRedis ids s =
     fold (\<lambda>agentId s. if map_of agentsInRedis agentId = None
                        then snd (st_WriteAgentStatus st agentId zeroAgentStatus s) else s) ids s"

definition removeAgents :: "'s SynHeartStore \<Rightarrow> string list \<Rightarrow> string list \<Rightarrow> 's \<Rightarrow> 's" where
  "removeAgents st ids agentIds s =
     fold (\<lambda>agentId s. if agentId \<notin> set ids then snd (st_DeleteAgentStatus st agentId s) else s) agentIds s"

definition Agents :: "'s SynHeartStore \<Rightarrow> 's K8sClient \<Rightarrow> 's \<Rightarrow> (err + unit) \<times> 's" where
  "Agents st k8s s =
     (case k8_NewRequirement k8s K8sDiscoverLabel K8sDiscoverLabelVal of
        Inl e \<Rightarrow> (Inl (ErrWrap ''error creating label selector requirement'' e), s)
      | Inr _ \<Rightarrow>
          (case k8_ListPods k8s s of (listed, s) \<Rightarrow>
             let podList = (case listed of Inl _ \<Rightarrow> [] | Inr pods \<Rightarrow> pods) in
             andThen (wrapErr ''error fetching list of all agents from redis'' (st_FetchAllAgentStatus st s))
               (\<lambda>agentsInRedis s.
                  (Inr (), removeAgents st (podIds podList) (map fst agentsInRedis)
                             (registerAgents st agentsInRedis (podIds podList) s)))))"

section \<open>Synthetic tests\<close>

definition removeConfigs :: "'s SynHeartStore \<Rightarrow> string list \<Rightarrow> string list \<Rightarrow> 's \<Rightarrow> 's" where
  "removeConfigs st crds configIds s =
     fold (\<lambda>i s. if i \<notin> set crds then snd (st_DeleteTestConfig st i s) else s) configIds s"

text \<open>None for an identifier that does not parse.\<close>

definition isStale :: "(string \<times> AgentStatus) list \<Rightarrow> string \<Rightarrow> bool option" where
  "isStale activeAgents pluginId =
     (case GetPluginIdComponents pluginId of
        Inl _ \<Rightarrow> None
      | Inr (testName, testNs, podName, podNs) \<Rightarrow>
          (let testConfigId = ComputeSynTestConfigId testName testNs;
               agentId = ComputeAgentId podName podNs
           in case map_of activeAgents agentId of
                None \<Rightarrow> Some True
              | Some agent \<Rightarrow> Some (testConfigId \<notin> set (as_SynTests agent))))"

definition removeStale ::
  "'s SynHeartStore \<Rightarrow> (string \<times> AgentStatus) list \<Rightarrow> string list \<Rightarrow> 's \<Rightarrow> 's" where
  "removeStale st activeAgents pluginIds s =
     fold (\<lambda>p s. if isStale activeAgents p = Some True then snd (st_DeleteAllTestRunInfo st p s) else s) pluginIds s"

definition crdIds :: "SyntheticTest list \<Rightarrow> string list" where
  "crdIds tests = map (\<lambda>t. ComputeSynTestConfigId (cr_Name t) (cr_Namespace t)) tests"

definition SynTests ::
  "sync_env \<Rightarrow> 's SynHeartStore \<Rightarrow> 's K8sClient \<Rightarrow> 's \<Rightarrow> (err + unit) option \<times> 's" where
  "SynTests env st k8s s =
     (case k8_ListTests k8s s of (listed, s) \<Rightarrow>
        let crds = crdIds (case listed of Inl _ \<Rightarrow> [] | Inr ts \<Rightarrow> ts) in
        (case st_FetchAllTestConfigSummary st s of
           (Inl e, s) \<Rightarrow> (Some (Inl (ErrWrap ''error fetching list of all syntests from redis'' e)), s)
         | (Inr synTestsInRedis, s) \<Rightarrow>
             (case st_FetchAllTestRunStatus st (removeConfigs st crds (map fst synTestsInRedis) s) of
                (Inl e, s) \<Rightarrow> (Some (Inl (ErrWrap ''error fetching statuses from redis'' e)), s)
              | (Inr status, s) \<Rightarrow>
                  (case FetchActiveAgents env st s of
                     (None, s) \<Rightarrow> (None, s)
                   | (Some (Inl e), s) \<Rightarrow>
                       (Some (Inl (ErrWrap ''error fetching list of all agents from redis'' e)), s)
                   | (Some (Inr activeAgents), s) \<Rightarrow>
                       (Some (Inr ()), removeStale st activeAgents (map fst status) s)))))"

text \<open>
  One pass over both; errors are logged. The first argument is the address of the storage from the
  environment and the second the client for an address.
\<close>

definition All ::
  "string option \<Rightarrow> (string \<Rightarrow> 's RedisSynHeartStore) \<Rightarrow> sync_env \<Rightarrow> 's K8sClient \<Rightarrow> 's \<Rightarrow> unit option \<times> 's" where
  "All storeAddr connect env k8s s =
     (case storeAddr of
        None \<Rightarrow> (None, s)
      | Some addr \<Rightarrow>
          (case NewSynHeartStore ''redis'' (connect addr) of
             Inl _ \<Rightarrow> (None, s)
           | Inr st \<Rightarrow>
               (case SynTests env st k8s (snd (Agents st k8s s)) of
                  (None, s) \<Rightarrow> (None, s)
                | (Some _, s) \<Rightarrow> (Some (), s))))"

section \<open>The cluster\<close>

text \<open>Calls of the Kubernetes API do not touch the storage.\<close>

locale cluster = synheart_store +
  fixes k8s :: "'s K8sClient"
  assumes list_pods_keeps: "inv s \<Longrightarrow> k8_ListPods k8s s = (pods, s') \<Longrightarrow> inv s' \<and> view s' = view s"
    and list_tests_keeps: "inv s \<Longrightarrow> k8_ListTests k8s s = (tests, s') \<Longrightarrow> inv s' \<and> view s' = view s"
    and get_keeps: "inv s \<Longrightarrow> k8_Get k8s n ns s = (test, s') \<Longrightarrow> inv s' \<and> view s' = view s"
    and status_update_keeps: "inv s \<Longrightarrow> k8_StatusUpdate k8s t s = (done, s') \<Longrightarrow> inv s' \<and> view s' = view s"

locale reliable_cluster = cluster + reliable_store

section \<open>Active agents\<close>

text \<open>An agent whose status time parses and is older than the deadline.\<close>

definition expired :: "sync_env \<Rightarrow> string \<Rightarrow> AgentStatus \<Rightarrow> bool" where
  "expired env n a \<longleftrightarrow>
     (case se_parseTime env (as_StatusTime a) of
        Inl _ \<Rightarrow> False
      | Inr t \<Rightarrow>
          (case se_deadline env of None \<Rightarrow> False | Some d \<Rightarrow>
             (case se_parseDuration env d of Inl _ \<Rightarrow> False | Inr dur \<Rightarrow> se_now env n - t \<ge> dur)))"

definition activeOf :: "sync_env \<Rightarrow> (string \<rightharpoonup> AgentStatus) \<Rightarrow> string \<rightharpoonup> AgentStatus" where
  "activeOf env A i = (case A i of Some a \<Rightarrow> if expired env i a then None else Some a | None \<Rightarrow> None)"

lemma activeLoop_acc:
  assumes "activeLoop env todo agents = Some out" and "gwf todo"
  shows "map_of out i =
    (case map_of todo i of Some a \<Rightarrow> if expired env i a then None else map_of agents i | None \<Rightarrow> map_of agents i)"
  using assms
proof (induction env todo agents rule: activeLoop.induct)
  case (2 env n a rest agents)
  have g: "gwf rest" "map_of rest n = None" using 2(4) by (auto simp: gwf_def map_of_eq_None_iff)
  show ?case
  proof (cases "se_parseTime env (as_StatusTime a)")
    case (Inl e)
    with 2(1)[OF Inl] 2(3) g show ?thesis by (auto simp: expired_def split: option.splits)
  next
    case (Inr t)
    with 2(3) obtain d dur where d: "se_deadline env = Some d" "se_parseDuration env d = Inr dur"
      by (auto split: option.splits sum.splits)
    from 2(2)[OF Inr d] 2(3) Inr d g show ?thesis by (auto simp: expired_def split: option.splits if_splits)
  qed
qed simp

lemma activeLoop_map:
  assumes "activeLoop env agents agents = Some out" and "gwf agents"
  shows "map_of out i = (case map_of agents i of Some a \<Rightarrow> if expired env i a then None else Some a | None \<Rightarrow> None)"
  using activeLoop_acc[OF assms] by (auto split: option.splits)

lemma activeLoop_wf: "activeLoop env todo agents = Some out \<Longrightarrow> gwf agents \<Longrightarrow> gwf out"
  by (induction env todo agents rule: activeLoop.induct) (auto split: sum.splits option.splits if_splits)

lemma activeLoop_total:
  "\<lbrakk>se_deadline env = Some d; se_parseDuration env d = Inr dur\<rbrakk> \<Longrightarrow> \<exists>out. activeLoop env todo agents = Some out"
  by (induction env todo agents rule: activeLoop.induct) (auto split: sum.splits)

section \<open>Passes over the storage\<close>

lemma fold_keeps:
  assumes "\<And>x s. x \<in> set xs \<Longrightarrow> P s \<Longrightarrow> P (f x s)" and "P s"
  shows "P (fold f xs s)"
  using assms by (induction xs arbitrary: s) auto

context cluster begin

lemma write_agent_step:
  assumes "inv s"
  shows "inv (snd (st_WriteAgentStatus st j a s))"
    "i \<noteq> j \<Longrightarrow> v_agents (view (snd (st_WriteAgentStatus st j a s))) i = v_agents (view s) i"
    "(view (snd (st_WriteAgentStatus st j a s)))\<lparr>v_agents := A\<rparr> = (view s)\<lparr>v_agents := A\<rparr>"
  using write_agent[OF assms, of j a] by (cases "st_WriteAgentStatus st j a s", force)+

lemma delete_agent_step:
  assumes "inv s"
  shows "inv (snd (st_DeleteAgentStatus st j s))"
    "i \<noteq> j \<Longrightarrow> v_agents (view (snd (st_DeleteAgentStatus st j s))) i = v_agents (view s) i"
    "(view (snd (st_DeleteAgentStatus st j s)))\<lparr>v_agents := A\<rparr> = (view s)\<lparr>v_agents := A\<rparr>"
  using delete_agent[OF assms, of j] by (cases "st_DeleteAgentStatus st j s", force)+

lemma registerAgents_keeps:
  assumes "inv s" and "i \<notin> set ids \<or> map_of inRedis i \<noteq> None"
  shows "inv (registerAgents st inRedis ids s) \<and>
    v_agents (view (registerAgents st inRedis ids s)) i = v_agents (view s) i \<and>
    (view (registerAgents st inRedis ids s))\<lparr>v_agents := A\<rparr> = (view s)\<lparr>v_agents := A\<rparr>"
  unfolding registerAgents_def
proof (rule fold_keeps)
  fix x t
  assume "x \<in> set ids" and t: "inv t \<and> v_agents (view t) i = v_agents (view s) i \<and>
        (view t)\<lparr>v_agents := A\<rparr> = (view s)\<lparr>v_agents := A\<rparr>"
  then have "map_of inRedis x = None \<Longrightarrow> i \<noteq> x" using assms(2) by auto
  with t show "inv (if map_of inRedis x = None then snd (st_WriteAgentStatus st x zeroAgentStatus t) else t) \<and>
      v_agents (view (if map_of inRedis x = None then snd (st_WriteAgentStatus st x zeroAgentStatus t) else t)) i
        = v_agents (view s) i \<and>
      (view (if map_of inRedis x = None then snd (st_WriteAgentStatus st x zeroAgentStatus t) else t))\<lparr>v_agents := A\<rparr>
        = (view s)\<lparr>v_agents := A\<rparr>"
    by (auto simp: write_agent_step)
qed (use assms(1) in simp)

lemma removeAgents_keeps:
  assumes "inv s" and "i \<in> set ids \<or> i \<notin> set js"
  shows "inv (removeAgents st ids js s) \<and>
    v_agents (view (removeAgents st ids js s)) i = v_agents (view s) i \<and>
    (view (removeAgents st ids js s))\<lparr>v_agents := A\<rparr> = (view s)\<lparr>v_agents := A\<rparr>"
  unfolding removeAgents_def
proof (rule fold_keeps)
  fix x t
  assume "x \<in> set js" and t: "inv t \<and> v_agents (view t) i = v_agents (view s) i \<and>
        (view t)\<lparr>v_agents := A\<rparr> = (view s)\<lparr>v_agents := A\<rparr>"
  then have "x \<notin> set ids \<Longrightarrow> i \<noteq> x" using assms(2) by auto
  with t show "inv (if x \<notin> set ids then snd (st_DeleteAgentStatus st x t) else t) \<and>
      v_agents (view (if x \<notin> set ids then snd (st_DeleteAgentStatus st x t) else t)) i = v_agents (view s) i \<and>
      (view (if x \<notin> set ids then snd (st_DeleteAgentStatus st x t) else t))\<lparr>v_agents := A\<rparr>
        = (view s)\<lparr>v_agents := A\<rparr>"
    by (auto simp: delete_agent_step)
qed (use assms(1) in simp)

text \<open>Whatever fails, an agent with a pod keeps its status, and only agents are touched.\<close>

lemma Agents_safe:
  assumes "inv s" and "k8_ListPods k8s s = (Inr pods, s1)" and "i \<in> set (podIds pods)"
    and "v_agents (view s) i = Some a"
  shows "v_agents (view (snd (Agents st k8s s))) i = Some a \<and>
    inv (snd (Agents st k8s s)) \<and> (view (snd (Agents st k8s s)))\<lparr>v_agents := A\<rparr> = (view s)\<lparr>v_agents := A\<rparr>"
proof -
  have s1: "inv s1" "view s1 = view s" using list_pods_keeps[OF assms(1,2)] by auto
  obtain f s2 where f: "st_FetchAllAgentStatus st s1 = (f, s2)" by (cases "st_FetchAllAgentStatus st s1")
  have s2: "inv s2" "view s2 = view s" using fetch_agents[OF s1(1) f] s1 by auto
  show ?thesis
  proof (cases f)
    case (Inr m)
    have "map_of m i = Some a" using fetch_agents[OF s1(1) f] Inr s1 assms(4) by auto
    note reg = registerAgents_keeps[OF s2(1), of i "podIds pods" m A] 
    have "inv (registerAgents st m (podIds pods) s2)" using reg \<open>map_of m i = Some a\<close> by simp
    note rem = removeAgents_keeps[OF this, of i "podIds pods" "map fst m" A]
    show ?thesis
      using reg rem s2 assms f Inr \<open>map_of m i = Some a\<close>
      by (cases "k8_NewRequirement k8s K8sDiscoverLabel K8sDiscoverLabelVal") (simp_all add: Agents_def)
  qed (use s2 assms f in \<open>auto simp: Agents_def split: sum.splits\<close>)
qed

lemma delete_config_step:
  assumes "inv s"
  shows "inv (snd (st_DeleteTestConfig st j s))"
    "i \<noteq> j \<Longrightarrow> v_sum (view (snd (st_DeleteTestConfig st j s))) i = v_sum (view s) i"
    "i \<noteq> j \<Longrightarrow> v_cfg (view (snd (st_DeleteTestConfig st j s))) i = v_cfg (view s) i"
    "v_agents (view (snd (st_DeleteTestConfig st j s))) = v_agents (view s)"
    "v_runStatus (view (snd (st_DeleteTestConfig st j s))) = v_runStatus (view s)"
proof -
  obtain res s' where d: "st_DeleteTestConfig st j s = (res, s')" by (cases "st_DeleteTestConfig st j s")
  note law = delete_config[OF assms d]
  note off = offConfig_other[OF law[THEN conjunct2, THEN conjunct1]]
  show "inv (snd (st_DeleteTestConfig st j s))" using law d by simp
  show "i \<noteq> j \<Longrightarrow> v_sum (view (snd (st_DeleteTestConfig st j s))) i = v_sum (view s) i" using off(2) d by simp
  show "i \<noteq> j \<Longrightarrow> v_cfg (view (snd (st_DeleteTestConfig st j s))) i = v_cfg (view s) i" using off(1) d by simp
  show "v_agents (view (snd (st_DeleteTestConfig st j s))) = v_agents (view s)" using off(4) d by simp
  show "v_runStatus (view (snd (st_DeleteTestConfig st j s))) = v_runStatus (view s)" using off(5) d by simp
qed

lemma delete_run_step:
  assumes "inv s"
  shows "inv (snd (st_DeleteAllTestRunInfo st j s))"
    "i \<noteq> j \<Longrightarrow> v_runStatus (view (snd (st_DeleteAllTestRunInfo st j s))) i = v_runStatus (view s) i"
    "v_agents (view (snd (st_DeleteAllTestRunInfo st j s))) = v_agents (view s)"
    "v_cfg (view (snd (st_DeleteAllTestRunInfo st j s))) = v_cfg (view s)"
    "v_sum (view (snd (st_DeleteAllTestRunInfo st j s))) = v_sum (view s)"
proof -
  obtain res s' where d: "st_DeleteAllTestRunInfo st j s = (res, s')" by (cases "st_DeleteAllTestRunInfo st j s")
  note law = delete_run_info[OF assms d]
  note off = offPlugin_other[OF law[THEN conjunct2, THEN conjunct1]]
  show "inv (snd (st_DeleteAllTestRunInfo st j s))" using law d by simp
  show "i \<noteq> j \<Longrightarrow> v_runStatus (view (snd (st_DeleteAllTestRunInfo st j s))) i = v_runStatus (view s) i"
    using off(1) d by simp
  show "v_agents (view (snd (st_DeleteAllTestRunInfo st j s))) = v_agents (view s)" using off(2) d by simp
  show "v_cfg (view (snd (st_DeleteAllTestRunInfo st j s))) = v_cfg (view s)" using off(3) d by simp
  show "v_sum (view (snd (st_DeleteAllTestRunInfo st j s))) = v_sum (view s)" using off(4) d by simp
qed

end

context reliable_cluster begin

lemma registerAgents_exact:
  "inv s \<Longrightarrow> v_agents (view (registerAgents st inRedis ids s)) i =
     (if i \<in> set ids \<and> map_of inRedis i = None then Some (nagent zeroAgentStatus) else v_agents (view s) i)"
proof (induction ids arbitrary: s)
  case (Cons j ids)
  let ?t = "if map_of inRedis j = None then snd (st_WriteAgentStatus st j zeroAgentStatus s) else s"
  have "inv ?t" using Cons.prems write_agent_step(1) by simp
  from Cons.IH[OF this]
  have "v_agents (view (registerAgents st inRedis (j # ids) s)) i =
      (if i \<in> set ids \<and> map_of inRedis i = None then Some (nagent zeroAgentStatus) else v_agents (view ?t) i)"
    by (simp add: registerAgents_def)
  moreover have "v_agents (view (snd (st_WriteAgentStatus st j zeroAgentStatus s))) =
      (v_agents (view s))(j \<mapsto> nagent zeroAgentStatus)"
    using write_agent[OF Cons.prems, of j zeroAgentStatus] write_agent_total[OF Cons.prems, of j zeroAgentStatus]
    by (cases "st_WriteAgentStatus st j zeroAgentStatus s") auto
  ultimately show ?case by auto
qed (simp add: registerAgents_def)

lemma removeAgents_exact:
  "inv s \<Longrightarrow> v_agents (view (removeAgents st ids js s)) i =
     (if i \<in> set js \<and> i \<notin> set ids then None else v_agents (view s) i)"
proof (induction js arbitrary: s)
  case (Cons j js)
  let ?t = "if j \<notin> set ids then snd (st_DeleteAgentStatus st j s) else s"
  have "inv ?t" using Cons.prems delete_agent_step(1) by simp
  from Cons.IH[OF this]
  have "v_agents (view (removeAgents st ids (j # js) s)) i =
      (if i \<in> set js \<and> i \<notin> set ids then None else v_agents (view ?t) i)"
    by (simp add: removeAgents_def)
  moreover have "v_agents (view (snd (st_DeleteAgentStatus st j s))) = (v_agents (view s))(j := None)"
    using delete_agent[OF Cons.prems, of j] delete_agent_total[OF Cons.prems, of j]
    by (cases "st_DeleteAgentStatus st j s") auto
  ultimately show ?case by auto
qed (simp add: removeAgents_def)

lemma Agents_exact:
  assumes "inv s" and "k8_NewRequirement k8s K8sDiscoverLabel K8sDiscoverLabelVal = Inr u"
    and "k8_ListPods k8s s = (listed, s1)"
    and "ids = podIds (case listed of Inl _ \<Rightarrow> [] | Inr pods \<Rightarrow> pods)"
  shows "fst (Agents st k8s s) = Inr ()" "inv (snd (Agents st k8s s))"
    "v_agents (view (snd (Agents st k8s s))) i =
      (if i \<in> set ids then Some (case v_agents (view s) i of None \<Rightarrow> nagent zeroAgentStatus | Some a \<Rightarrow> a) else None)"
proof -
  have s1: "inv s1" "view s1 = view s" using list_pods_keeps[OF assms(1,3)] by auto
  obtain m s2 where f: "st_FetchAllAgentStatus st s1 = (Inr m, s2)"
    using fetch_agents_total[OF s1(1)] by (metis prod.collapse)
  have s2: "inv s2" "view s2 = view s" "map_of m = v_agents (view s)" using fetch_agents[OF s1(1) f] s1 by auto
  have A: "Agents st k8s s = (Inr (), removeAgents st ids (map fst m) (registerAgents st m ids s2))"
    using assms f by (simp add: Agents_def Let_def)
  have inv3: "inv (registerAgents st m ids s2)"
    unfolding registerAgents_def by (rule fold_keeps) (use s2 write_agent_step(1) in auto)
  have inv4: "inv (removeAgents st ids (map fst m) (registerAgents st m ids s2))"
    unfolding removeAgents_def by (rule fold_keeps) (use inv3 delete_agent_step(1) in auto)
  show "fst (Agents st k8s s) = Inr ()" "inv (snd (Agents st k8s s))" using A inv4 by auto
  have "i \<in> fst ` set m \<longleftrightarrow> v_agents (view s) i \<noteq> None"
    unfolding s2(3)[symmetric] by (simp add: map_of_eq_None_iff)
  then show "v_agents (view (snd (Agents st k8s s))) i =
      (if i \<in> set ids then Some (case v_agents (view s) i of None \<Rightarrow> nagent zeroAgentStatus | Some a \<Rightarrow> a) else None)"
    unfolding A snd_conv removeAgents_exact[OF inv3] registerAgents_exact[OF s2(1)]
    using s2 by (auto split: option.splits)
qed

lemma removeConfigs_exact:
  "inv s \<Longrightarrow> inv (removeConfigs st crds js s) \<and>
     v_sum (view (removeConfigs st crds js s)) i = (if i \<in> set js \<and> i \<notin> set crds then None else v_sum (view s) i) \<and>
     (i \<in> set crds \<longrightarrow> v_cfg (view (removeConfigs st crds js s)) i = v_cfg (view s) i) \<and>
     v_agents (view (removeConfigs st crds js s)) = v_agents (view s) \<and>
     v_runStatus (view (removeConfigs st crds js s)) = v_runStatus (view s)"
proof (induction js arbitrary: s)
  case (Cons j js)
  let ?t = "if j \<notin> set crds then snd (st_DeleteTestConfig st j s) else s"
  have "inv ?t" using Cons.prems delete_config_step(1) by simp
  note ih = Cons.IH[OF this]
  have t: "v_sum (view ?t) i = (if i = j \<and> j \<notin> set crds then None else v_sum (view s) i)"
    "i \<in> set crds \<Longrightarrow> v_cfg (view ?t) i = v_cfg (view s) i"
    "v_agents (view ?t) = v_agents (view s)" "v_runStatus (view ?t) = v_runStatus (view s)"
    using delete_config_step[OF Cons.prems, where j = j] delete_config[OF Cons.prems, of j]
      delete_config_total[OF Cons.prems, of j]
    by (cases "st_DeleteTestConfig st j s"; cases "i = j"; force)+
  have "removeConfigs st crds (j # js) s = removeConfigs st crds js ?t" by (simp add: removeConfigs_def)
  with ih t show ?case by auto
qed (simp add: removeConfigs_def)

lemma removeStale_exact:
  "inv s \<Longrightarrow> inv (removeStale st act js s) \<and>
     v_runStatus (view (removeStale st act js s)) p =
       (if p \<in> set js \<and> isStale act p = Some True then None else v_runStatus (view s) p) \<and>
     v_agents (view (removeStale st act js s)) = v_agents (view s) \<and>
     v_cfg (view (removeStale st act js s)) = v_cfg (view s) \<and>
     v_sum (view (removeStale st act js s)) = v_sum (view s)"
proof (induction js arbitrary: s)
  case (Cons j js)
  let ?t = "if isStale act j = Some True then snd (st_DeleteAllTestRunInfo st j s) else s"
  have "inv ?t" using Cons.prems delete_run_step(1) by simp
  note ih = Cons.IH[OF this]
  have t: "v_runStatus (view ?t) p = (if p = j \<and> isStale act p = Some True then None else v_runStatus (view s) p)"
    "v_agents (view ?t) = v_agents (view s)" "v_cfg (view ?t) = v_cfg (view s)" "v_sum (view ?t) = v_sum (view s)"
    using delete_run_step[OF Cons.prems, where j = j] delete_run_info_total[OF Cons.prems, of j] by auto
  have "removeStale st act (j # js) s = removeStale st act js ?t" by (simp add: removeStale_def)
  with ih t show ?case by auto
qed (simp add: removeStale_def)

lemma FetchActiveAgents_exact:
  assumes "inv s" and "se_deadline env = Some d" and "se_parseDuration env d = Inr dur"
  shows "\<exists>act s'. FetchActiveAgents env st s = (Some (Inr act), s') \<and> inv s' \<and> view s' = view s \<and> gwf act \<and>
    (\<forall>i. map_of act i = activeOf env (v_agents (view s)) i)"
proof -
  obtain m s' where f: "st_FetchAllAgentStatus st s = (Inr m, s')"
    using fetch_agents_total[OF assms(1)] by (metis prod.collapse)
  have m: "inv s'" "view s' = view s" "gwf m" "map_of m = v_agents (view s)"
    using fetch_agents[OF assms(1) f] by auto
  obtain act where act: "activeLoop env m m = Some act" using activeLoop_total[OF assms(2,3)] by blast
  with f m activeLoop_map[OF act m(3)] activeLoop_wf[OF act m(3)] show ?thesis
    by (auto simp: FetchActiveAgents_def activeOf_def)
qed

lemma SynTests_exact:
  assumes "inv s" and "k8_ListTests k8s s = (listed, s1)"
    and "se_deadline env = Some d" and "se_parseDuration env d = Inr dur"
    and "crds = crdIds (case listed of Inl _ \<Rightarrow> [] | Inr ts \<Rightarrow> ts)"
  obtains s' act where "SynTests env st k8s s = (Some (Inr ()), s')" "inv s'"
    "\<And>i. v_sum (view s') i = (if i \<in> set crds then v_sum (view s) i else None)"
    "\<And>i. i \<in> set crds \<Longrightarrow> v_cfg (view s') i = v_cfg (view s) i"
    "\<And>i. map_of act i = activeOf env (v_agents (view s)) i"
    "\<And>p. v_runStatus (view s') p = (if isStale act p = Some True then None else v_runStatus (view s) p)"
proof -
  have s1: "inv s1" "view s1 = view s" using list_tests_keeps[OF assms(1,2)] by auto
  obtain m s2 where f: "st_FetchAllTestConfigSummary st s1 = (Inr m, s2)"
    using fetch_summaries_total[OF s1(1)] by (metis prod.collapse)
  have s2: "inv s2" "view s2 = view s" "map_of m = v_sum (view s)" using fetch_summaries[OF s1(1) f] s1 by auto
  let ?s3 = "removeConfigs st crds (map fst m) s2"
  note rc = removeConfigs_exact[OF s2(1), of crds "map fst m"]
  obtain rs s4 where g: "st_FetchAllTestRunStatus st ?s3 = (Inr rs, s4)"
    using fetch_run_status_total rc by (metis prod.collapse)
  have s4: "inv s4" "view s4 = view ?s3" "map_of rs = v_runStatus (view s)"
    using fetch_run_status[OF _ g] rc s2 by auto
  obtain act s5 where h: "FetchActiveAgents env st s4 = (Some (Inr act), s5)"
    and s5: "inv s5" "view s5 = view ?s3" "\<And>i. map_of act i = activeOf env (v_agents (view s)) i"
    using FetchActiveAgents_exact[OF s4(1) assms(3,4)] s4(2) rc s2(2) by auto
  note rs = removeStale_exact[OF s5(1), of act "map fst rs"]
  have dom: "i \<in> fst ` set m \<longleftrightarrow> v_sum (view s) i \<noteq> None" "p \<in> fst ` set rs \<longleftrightarrow> v_runStatus (view s) p \<noteq> None" for i p
    unfolding s2(3)[symmetric] s4(3)[symmetric] by (simp_all add: map_of_eq_None_iff)
  show ?thesis
  proof (rule that[of "removeStale st act (map fst rs) s5" act])
    show "SynTests env st k8s s = (Some (Inr ()), removeStale st act (map fst rs) s5)"
      using assms f g h by (simp add: SynTests_def Let_def)
    show "v_sum (view (removeStale st act (map fst rs) s5)) i = (if i \<in> set crds then v_sum (view s) i else None)" for i
      using rc[of i] rs s5(2) s2(2) dom(1)[of i] by auto
    show "i \<in> set crds \<Longrightarrow> v_cfg (view (removeStale st act (map fst rs) s5)) i = v_cfg (view s) i" for i
      using rc[of i] rs s5(2) s2(2) by auto
    show "v_runStatus (view (removeStale st act (map fst rs) s5)) p =
        (if isStale act p = Some True then None else v_runStatus (view s) p)" for p
      using rc rs[of p] s5(2) s2(2) dom(2)[of p] by auto
  qed (use rs s5 in auto)
qed

end

section \<open>The cluster of the witnesses\<close>

definition memCluster :: "(err + (string \<times> string) list) \<Rightarrow> (err + SyntheticTest list) \<Rightarrow> mem K8sClient" where
  "memCluster pods tests =
     \<lparr>k8_NewRequirement = (\<lambda>_ _. Inr ()), k8_ListPods = (\<lambda>s. (pods, s)), k8_ListTests = (\<lambda>s. (tests, s)),
      k8_Get = (\<lambda>n ns s.
        (case tests of
           Inl e \<Rightarrow> Inl e
         | Inr ts \<Rightarrow> (case filter (\<lambda>t. cr_Name t = n \<and> cr_Namespace t = ns) ts of
              [] \<Rightarrow> Inl ErrNotFound | t # _ \<Rightarrow> Inr t), s)),
      k8_IsNotFound = (\<lambda>e. e = ErrNotFound), k8_StatusUpdate = (\<lambda>t s. (Inr (), s))\<rparr>"

abbreviation memView' :: "mem \<Rightarrow> store_view" where "memView' s \<equiv> viewOf memStore (memView s)"
abbreviation memInv :: "mem \<Rightarrow> bool" where "memInv s \<equiv> redisInv memStore (memView s)"

interpretation mem_cluster: reliable_cluster "NewRedisSynHeartStore memStore" memView' memInv
    "through (rs_marshalSummary memStore) (rs_unmarshalSummary memStore)"
    "through (rs_marshalAgent memStore) (rs_unmarshalAgent memStore)"
    "through (rs_marshalStatus memStore) (rs_unmarshalStatus memStore)"
    "memCluster pods tests" "\<lambda>c. \<exists>b. rs_marshalConfig memStore c = Inr b"
  by unfold_locales (auto simp: memCluster_def)

definition agentMem :: mem where
  "agentMem = snd (WriteAgentStatus memStore ''pod-1/heart'' zeroAgentStatus emptyMem)"

lemma agentMem_inv [simp]: "memInv agentMem"
  and agentMem_agent [simp]: "v_agents (memView' agentMem) = [''pod-1/heart'' \<mapsto> zeroAgentStatus]"
  and agentMem_cfg [simp]: "v_cfg (memView' agentMem) = Map.empty"
  and agentMem_sum [simp]: "v_sum (memView' agentMem) = Map.empty"
proof -
  obtain res s' where w: "WriteAgentStatus memStore ''pod-1/heart'' zeroAgentStatus emptyMem = (res, s')"
    by (cases "WriteAgentStatus memStore ''pod-1/heart'' zeroAgentStatus emptyMem")
  have "res = Inr ()"
    using memory.rstore.write_agent_total[OF emptyMem_inv, of "''pod-1/heart''" zeroAgentStatus] w
    by (simp add: NewRedisSynHeartStore_def)
  moreover have "v_agents (memView' emptyMem) = Map.empty" "v_cfg (memView' emptyMem) = Map.empty"
      "v_sum (memView' emptyMem) = Map.empty"
    by (simp_all add: viewOf_def memView_def memHash_def emptyMem_def)
  ultimately show "memInv agentMem" "v_agents (memView' agentMem) = [''pod-1/heart'' \<mapsto> zeroAgentStatus]"
    "v_cfg (memView' agentMem) = Map.empty" "v_sum (memView' agentMem) = Map.empty"
    using memory.write_agent_law[OF emptyMem_inv w] w by (simp_all add: agentMem_def)
qed

section \<open>Properties\<close>

text \<open>
  C7. Registered agents are the agent pods: with a reachable storage and a successful pod
  listing, after a pass the storage has exactly the agents with a pod. An agent that had reported
  its status keeps it; one that had not gets an empty status.
\<close>

theorem agents_synced:
  assumes "reliable_cluster st view ok nsum nagent nstatus k8s encodable" and "ok s"
    and "k8_NewRequirement k8s K8sDiscoverLabel K8sDiscoverLabelVal = Inr u"
    and "k8_ListPods k8s s = (Inr pods, s1)"
  shows "fst (Agents st k8s s) = Inr () \<and>
    v_agents (view (snd (Agents st k8s s))) i =
      (if i \<in> set (podIds pods)
       then Some (case v_agents (view s) i of None \<Rightarrow> nagent zeroAgentStatus | Some a \<Rightarrow> a) else None)"
  using reliable_cluster.Agents_exact[OF assms refl] by simp

theorem agents_synced_witness:
  "v_agents (memView' (snd (Agents (NewRedisSynHeartStore memStore) (memCluster (Inr [(''pod-1'', ''heart'')]) (Inr [])) emptyMem)))
     ''pod-1/heart'' = Some zeroAgentStatus"
  using agents_synced[OF mem_cluster.reliable_cluster_axioms emptyMem_inv,
      of "Inr [(''pod-1'', ''heart'')]" "Inr []" "()" "[(''pod-1'', ''heart'')]" emptyMem "''pod-1/heart''"]
  by (simp add: memCluster_def podIds_def ComputeAgentId_def viewOf_def memView_def memHash_def emptyMem_def)

text \<open>
  A failed pod listing empties the agent table: the error is only logged and the
  listing counts as empty, so every agent is deleted from the storage although its pod may be
  running.
\<close>

theorem failed_listing_drops_agents:
  assumes "reliable_cluster st view ok nsum nagent nstatus k8s encodable" and "ok s"
    and "k8_NewRequirement k8s K8sDiscoverLabel K8sDiscoverLabelVal = Inr u"
    and "k8_ListPods k8s s = (Inl e, s1)"
  shows "fst (Agents st k8s s) = Inr () \<and> v_agents (view (snd (Agents st k8s s))) = Map.empty"
  using reliable_cluster.Agents_exact[OF assms refl] by (auto simp: podIds_def)

theorem failed_listing_drops_agents_witness:
  "v_agents (memView' (snd (Agents (NewRedisSynHeartStore memStore) (memCluster (Inl CtxDeadlineExceeded) (Inr [])) emptyMem)))
     = Map.empty"
  using failed_listing_drops_agents[OF mem_cluster.reliable_cluster_axioms emptyMem_inv,
      of "Inl CtxDeadlineExceeded" "Inr []" "()" CtxDeadlineExceeded emptyMem]
  by (simp add: memCluster_def)

text \<open>
  An agent with a pod is never removed, and nothing but the agent table is touched,
  whichever storage operations of the pass fail.
\<close>

theorem live_agents_kept:
  assumes "cluster st view ok nsum nagent nstatus k8s" and "ok s"
    and "k8_ListPods k8s s = (Inr pods, s1)" and "i \<in> set (podIds pods)" and "v_agents (view s) i = Some a"
  shows "v_agents (view (snd (Agents st k8s s))) i = Some a \<and>
    (view (snd (Agents st k8s s)))\<lparr>v_agents := A\<rparr> = (view s)\<lparr>v_agents := A\<rparr>"
  using cluster.Agents_safe[OF assms] by blast

theorem live_agents_kept_witness:
  "v_agents (memView' (snd (Agents (NewRedisSynHeartStore memStore)
     (memCluster (Inr [(''pod-1'', ''heart'')]) (Inr [])) agentMem))) ''pod-1/heart'' = Some zeroAgentStatus"
  using live_agents_kept[OF mem_cluster.cluster_axioms agentMem_inv,
      of "Inr [(''pod-1'', ''heart'')]" "Inr []" "[(''pod-1'', ''heart'')]" agentMem "''pod-1/heart''" zeroAgentStatus]
  by (simp add: memCluster_def podIds_def ComputeAgentId_def)

text \<open>
  C8. Stored configurations are those with a custom resource: with a reachable storage and
  a successful listing, a pass deletes every configuration whose resource is gone and leaves the
  others as they are.
\<close>

theorem configs_synced:
  assumes "reliable_cluster st view ok nsum nagent nstatus k8s encodable" and "ok s"
    and "k8_ListTests k8s s = (Inr ts, s1)"
    and "se_deadline env = Some d" and "se_parseDuration env d = Inr dur"
  shows "\<exists>s'. SynTests env st k8s s = (Some (Inr ()), s') \<and>
    v_sum (view s') = (v_sum (view s)) |` set (crdIds ts) \<and>
    (i \<in> set (crdIds ts) \<longrightarrow> v_cfg (view s') i = v_cfg (view s) i)"
proof -
  obtain s' act where s': "SynTests env st k8s s = (Some (Inr ()), s')"
    "\<And>i. v_sum (view s') i = (if i \<in> set (crdIds ts) then v_sum (view s) i else None)"
    "\<And>i. i \<in> set (crdIds ts) \<Longrightarrow> v_cfg (view s') i = v_cfg (view s) i"
    by (rule reliable_cluster.SynTests_exact[OF assms refl]) auto
  then show ?thesis by (auto simp: fun_eq_iff restrict_map_def)
qed

definition exampleEnv :: sync_env where
  "exampleEnv = \<lparr>se_now = (\<lambda>_. 100), se_parseTime = (\<lambda>t. if t = [] then Inl (ErrParse t) else Inr 0),
     se_deadline = Some ''1m'', se_parseDuration = (\<lambda>_. Inr 60)\<rparr>"

theorem configs_synced_witness:
  "\<exists>s'. SynTests exampleEnv (NewRedisSynHeartStore memStore) (memCluster (Inr []) (Inr [])) emptyMem = (Some (Inr ()), s')"
  using configs_synced[OF mem_cluster.reliable_cluster_axioms emptyMem_inv,
      of "Inr []" "Inr []" "[]" emptyMem exampleEnv "''1m''" 60 "''dns/prod''"]
  by (auto simp: memCluster_def exampleEnv_def)

text \<open>
  A failed listing of the custom resources deletes every configuration from the storage,
  which stops the tests on all agents.
\<close>

theorem failed_listing_drops_configs:
  assumes "reliable_cluster st view ok nsum nagent nstatus k8s encodable" and "ok s"
    and "k8_ListTests k8s s = (Inl e, s1)"
    and "se_deadline env = Some d" and "se_parseDuration env d = Inr dur"
  shows "\<exists>s'. SynTests env st k8s s = (Some (Inr ()), s') \<and> v_sum (view s') = Map.empty"
proof -
  obtain s' act where s': "SynTests env st k8s s = (Some (Inr ()), s')"
    "\<And>i. v_sum (view s') i = (if i \<in> set (crdIds []) then v_sum (view s) i else None)"
    by (rule reliable_cluster.SynTests_exact[OF assms refl]) auto
  then show ?thesis by (auto simp: fun_eq_iff crdIds_def)
qed

theorem failed_listing_drops_configs_witness:
  "\<exists>s'. SynTests exampleEnv (NewRedisSynHeartStore memStore) (memCluster (Inr []) (Inl CtxDeadlineExceeded)) emptyMem
     = (Some (Inr ()), s') \<and> v_sum (memView' s') = Map.empty"
  using failed_listing_drops_configs[OF mem_cluster.reliable_cluster_axioms emptyMem_inv,
      of "Inr []" "Inl CtxDeadlineExceeded" CtxDeadlineExceeded emptyMem exampleEnv "''1m''" 60]
  by (simp add: memCluster_def exampleEnv_def)

text \<open>
  C6. Stale run data is cleaned up: after a pass the run status of a plugin is kept exactly
  when the agent of the plugin is active and lists the plugin's test; otherwise it is gone.
\<close>

theorem stale_runs_removed:
  assumes "reliable_cluster st view ok nsum nagent nstatus k8s encodable" and "ok s"
    and "se_deadline env = Some d" and "se_parseDuration env d = Inr dur"
    and "slashFree t" "slashFree ns" "slashFree pod" "slashFree pns"
    and "p = ComputePluginId t ns (ComputeAgentId pod pns)"
  shows "\<exists>s'. SynTests env st k8s s = (Some (Inr ()), s') \<and>
    v_runStatus (view s') p =
      (case activeOf env (v_agents (view s)) (ComputeAgentId pod pns) of
         Some a \<Rightarrow> if ComputeSynTestConfigId t ns \<in> set (as_SynTests a) then v_runStatus (view s) p else None
       | None \<Rightarrow> None)"
proof -
  obtain listed s1 where l: "k8_ListTests k8s s = (listed, s1)" by (cases "k8_ListTests k8s s")
  obtain s' act where s': "SynTests env st k8s s = (Some (Inr ()), s')"
    "\<And>i. map_of act i = activeOf env (v_agents (view s)) i"
    "\<And>p. v_runStatus (view s') p = (if isStale act p = Some True then None else v_runStatus (view s) p)"
    by (rule reliable_cluster.SynTests_exact[OF assms(1,2) l assms(3,4) refl]) auto
  then show ?thesis
    using GetPluginIdComponents_Compute[OF assms(5-8)] assms(9)
    by (auto simp: isStale_def split: option.splits)
qed

theorem stale_runs_removed_witness:
  "\<exists>s'. SynTests exampleEnv (NewRedisSynHeartStore memStore) (memCluster (Inr []) (Inr [])) agentMem = (Some (Inr ()), s') \<and>
     v_runStatus (memView' s') ''dns/prod/pod-1/heart'' = None"
  using stale_runs_removed[OF mem_cluster.reliable_cluster_axioms agentMem_inv,
      of exampleEnv "''1m''" 60 "''dns''" "''prod''" "''pod-1''" "''heart''" _ "Inr []" "Inr []", OF _ _ _ _ _ _ refl]
  by (auto simp: exampleEnv_def slashFree_def ComputePluginId_def ComputeAgentId_def
      ComputeSynTestConfigId_def activeOf_def expired_def zeroAgentStatus_def)

text \<open>
  An agent that never reported is active: an agent whose status time does not parse, such as
  the empty status a pass writes for a new pod, is among the active agents, so a test can be
  assigned to it, and its run data is not cleaned up for being out of date.
\<close>

theorem unreported_agent_active:
  assumes "reliable_cluster st view ok nsum nagent nstatus k8s encodable" and "ok s"
    and "se_deadline env = Some d" and "se_parseDuration env d = Inr dur"
    and "v_agents (view s) i = Some a" and "se_parseTime env (as_StatusTime a) = Inl e"
  shows "\<exists>act s'. FetchActiveAgents env st s = (Some (Inr act), s') \<and> map_of act i = Some a"
proof -
  have "activeOf env (v_agents (view s)) i = Some a" using assms(5,6) by (simp add: activeOf_def expired_def)
  with reliable_cluster.FetchActiveAgents_exact[OF assms(1-4)] show ?thesis by metis
qed

theorem unreported_agent_active_witness:
  "\<exists>act s'. FetchActiveAgents exampleEnv (NewRedisSynHeartStore memStore) agentMem = (Some (Inr act), s') \<and>
     map_of act ''pod-1/heart'' = Some zeroAgentStatus"
  using unreported_agent_active[OF mem_cluster.reliable_cluster_axioms agentMem_inv,
      of exampleEnv "''1m''" 60 "''pod-1/heart''" zeroAgentStatus "ErrParse []"]
  by (simp add: exampleEnv_def zeroAgentStatus_def)

end
