(* ===== verification/Controller.thy ===== *)
theory Controller
  imports Sync "HOL-Library.Char_ord" "HOL-Library.List_Lexorder"
begin

text \<open>
  The reconciler of controller/internal/controller/synthetictest_controller.go: it copies a custom
  resource to the storage, assigns an agent to a test that asks for one with a dollar sign, and
  records the outcome. The hash, the YAML encoder, the clock, the random source, the order in which
  a map is visited and protobuf's text format are the environment.
\<close>

section \<open>The environment\<close>

record controller_env =
  ce_sync :: sync_env
  ce_md5 :: "string \<Rightarrow> string"
  ce_marshalSpec :: "SyntheticTestSpec \<Rightarrow> err + string"
  ce_timestamp :: string
  ce_rand :: "nat \<Rightarrow> nat"
  ce_range :: "(string \<times> bool) list \<Rightarrow> (string \<times> bool) list"
  ce_textTimeouts :: "Timeouts \<Rightarrow> string"

record ctrl_Result =
  res_Requeue :: bool
  res_RequeueAfter :: duration

definition emptyResult :: ctrl_Result where
  "emptyResult = \<lparr>res_Requeue = False, res_RequeueAfter = 0\<rparr>"

section \<open>The version of a configuration\<close>

text \<open>
  \<open>fmt.Sprintf("%v", c)\<close> of the struct value: protobuf's three bookkeeping fields of a fresh
  message, then the fields in order. Maps are printed in key order. The timeouts are a message
  with a \<open>String\<close> method, which prints them in protobuf's text format.
\<close>

definition joinSp :: "string list \<Rightarrow> string" where
  "joinSp xs = concat (map (\<lambda>x. '' '' @ x) xs)"

definition sprintList :: "string list \<Rightarrow> string" where
  "sprintList xs = ''['' @ drop 1 (joinSp xs) @ '']''"

definition sprintMap :: "gomap \<Rightarrow> string" where
  "sprintMap m = ''map'' @ sprintList (map (\<lambda>(k, x). k @ '':'' @ x) (sort_key fst m))"

definition sprintConfig :: "controller_env \<Rightarrow> SynTestConfig \<Rightarrow> string" where
  "sprintConfig env c =
     ''{{{} [] [] <nil>} 0 []'' @
     joinSp [stc_Name c, stc_Version c, sprintMap (stc_Labels c), stc_PluginName c, stc_DisplayName c,
       stc_Description c, stc_Namespace c, stc_Importance c, stc_Repeat c, stc_NodeSelector c,
       sprintMap (stc_PodLabelSelector c), sprintList (stc_DependsOn c), ce_textTimeouts env (stc_Timeouts c),
       stc_PluginRestartPolicy c, stc_LogWaitTime c, stc_Config c, sprintMap (stc_Runtime c)] @ ''}''"

definition ComputeHash :: "controller_env \<Rightarrow> string \<Rightarrow> string" where
  "ComputeHash env s = ce_md5 env s"

section \<open>Writing the configuration\<close>

definition newTestConfig :: "SyntheticTest \<Rightarrow> string \<Rightarrow> gomap \<Rightarrow> SynTestConfig" where
  "newTestConfig t node podLabelSelector =
     \<lparr>stc_Name = cr_Name t, stc_Version = [], stc_Labels = cr_Labels t,
      stc_PluginName = ss_Plugin (cr_Spec t), stc_DisplayName = ss_DisplayName (cr_Spec t),
      stc_Description = ss_Description (cr_Spec t), stc_Namespace = cr_Namespace t,
      stc_Importance = ss_Importance (cr_Spec t), stc_Repeat = ss_Repeat (cr_Spec t),
      stc_NodeSelector = node, stc_PodLabelSelector = podLabelSelector,
      stc_DependsOn = ss_DependsOn (cr_Spec t),
      stc_Timeouts = (case ss_Timeouts (cr_Spec t) of None \<Rightarrow> zeroTimeouts | Some x \<Rightarrow> x),
      stc_PluginRestartPolicy = ss_PluginRestartPolicy (cr_Spec t),
      stc_LogWaitTime = ss_LogWaitTime (cr_Spec t), stc_Config = ss_Config (cr_Spec t),
      stc_Runtime = []\<rparr>"

definition updateTestConfigInRedis ::
  "controller_env \<Rightarrow> SyntheticTest \<Rightarrow> string \<Rightarrow> string \<Rightarrow> string \<Rightarrow> gomap \<Rightarrow> 's SynHeartStore \<Rightarrow> 's \<Rightarrow> (err + unit) \<times> 's" where
  "updateTestConfigInRedis env t configId newAgent node podLabelSelector st s =
     (case st_FetchTestConfig st configId s of (found, s) \<Rightarrow>
        let configInRedis = (case found of Inl _ \<Rightarrow> zeroSynTestConfig | Inr c \<Rightarrow> c);
            c = newTestConfig t node podLabelSelector;
            configHash = ComputeHash env (sprintConfig env c);
            onLatestVersion = (stc_Version configInRedis = configHash)
        in if onLatestVersion \<and> sts_Agent (cr_Status t) = newAgent then (Inr (), s)
           else (case ce_marshalSpec env (cr_Spec t) of
                   Inl e \<Rightarrow> (Inl (ErrWrap ''error marshalling spec yaml'' e), s)
                 | Inr rawConfig \<Rightarrow>
                     wrapErr ''error writing test config to redis''
                       (st_WriteTestConfig st (c\<lparr>stc_Version := configHash\<rparr>) rawConfig s)))"

definition updateTestStatus ::
  "controller_env \<Rightarrow> SyntheticTest \<Rightarrow> string \<Rightarrow> SyntestConfigStatus \<Rightarrow> 's SynHeartStore \<Rightarrow> 's K8sClient \<Rightarrow> 's \<Rightarrow> 's" where
  "updateTestStatus env t configId status st k8s s =
     (let s1 = snd (st_WriteTestConfigStatus st configId (status\<lparr>css_Timestamp := ce_timestamp env\<rparr>) s);
          t1 = t\<lparr>cr_Status := \<lparr>sts_Deployed = css_Deployed status, sts_Agent = css_Agent status,
                              sts_Message = css_Message status\<rparr>\<rparr>
      in snd (k8_StatusUpdate k8s t1 s1))"

section \<open>Choosing an agent\<close>

definition getActiveAgents ::
  "controller_env \<Rightarrow> 's SynHeartStore \<Rightarrow> 's \<Rightarrow> (err + (string \<times> AgentStatus) list) option \<times> 's" where
  "getActiveAgents env st s =
     (case FetchActiveAgents (ce_sync env) st s of
        (Some (Inl e), s) \<Rightarrow> (Some (Inl (ErrWrap ''error fetching active agents'' e)), s)
      | p \<Rightarrow> p)"

fun validLoop :: "SyntheticTest \<Rightarrow> string \<Rightarrow> gomap \<Rightarrow> (string \<times> AgentStatus) list \<Rightarrow> (string \<times> bool) list
    \<Rightarrow> err + (string \<times> bool) list" where
  "validLoop t node psel [] validAgents = Inr validAgents"
| "validLoop t node psel ((agentId, agentStatus) # rest) validAgents =
     (case IsAgentValidForSynTest (as_AgentConfig agentStatus) agentId (cr_Name t) (cr_Namespace t)
             node psel (cr_Labels t) of
        Inl e \<Rightarrow> Inl (ErrWrap ''error checking agent selector'' e)
      | Inr valid \<Rightarrow> validLoop t node psel rest (if valid then AList.update agentId True validAgents else validAgents))"

definition getValidAgentsForTest ::
  "(string \<times> AgentStatus) list \<Rightarrow> SyntheticTest \<Rightarrow> string \<Rightarrow> gomap \<Rightarrow> err + (string \<times> bool) list" where
  "getValidAgentsForTest activeAgents t node psel = validLoop t node psel activeAgents []"

fun nthAgent :: "nat \<Rightarrow> nat \<Rightarrow> (string \<times> bool) list \<Rightarrow> err + string" where
  "nthAgent i index [] = Inl (ErrNew ''error selecting random agent, index out of range'')"
| "nthAgent i index ((a, _) # rest) = (if i = index then Inr a else nthAgent (Suc i) index rest)"

definition SelectRandomAgent :: "controller_env \<Rightarrow> (string \<times> bool) list \<Rightarrow> err + string" where
  "SelectRandomAgent env validAgents =
     (let index = (if length validAgents > 1 then ce_rand env (length validAgents - 1) else 0)
      in nthAgent 0 index (ce_range env validAgents))"

section \<open>Reconcile\<close>

definition requeueAfter :: "duration \<Rightarrow> ctrl_Result" where
  "requeueAfter d = \<lparr>res_Requeue = True, res_RequeueAfter = d\<rparr>"

definition undeployed :: "string \<Rightarrow> SyntestConfigStatus" where
  "undeployed m = \<lparr>css_Deployed = False, css_Message = m, css_Agent = [], css_Timestamp = []\<rparr>"

text \<open>The common tail: write the configuration, then the status.\<close>

definition finish ::
  "controller_env \<Rightarrow> 's SynHeartStore \<Rightarrow> 's K8sClient \<Rightarrow> SyntheticTest \<Rightarrow> string \<Rightarrow> string \<Rightarrow> gomap
    \<Rightarrow> SyntestConfigStatus \<Rightarrow> ctrl_Result \<Rightarrow> 's \<Rightarrow> (ctrl_Result \<times> err option) \<times> 's" where
  "finish env st k8s t newAgent node psel status result s =
     (let configId = ComputeSynTestConfigId (cr_Name t) (cr_Namespace t) in
      case updateTestConfigInRedis env t configId newAgent node psel st s of
        (Inl e, s) \<Rightarrow> ((emptyResult, Some (ErrWrap ''error updating test config in redis'' e)), s)
      | (Inr _, s) \<Rightarrow> ((result, None), updateTestStatus env t configId status st k8s s))"

definition needsNodeAssignment :: "SyntheticTest \<Rightarrow> bool" where
  "needsNodeAssignment t = strings_Contains (ss_Node (cr_Spec t)) CHR ''$''"

definition needsPodAssignment :: "SyntheticTest \<Rightarrow> bool" where
  "needsPodAssignment t = (map_of (ss_PodLabelSelector (cr_Spec t)) SpecialKeyPodName = Some ''$'')"

text \<open>The selectors with the special key for the assignment removed.\<close>

definition assignNode :: "SyntheticTest \<Rightarrow> string" where
  "assignNode t = (if needsNodeAssignment t then strings_ReplaceAll (ss_Node (cr_Spec t)) CHR ''$'' CHR ''*''
     else ss_Node (cr_Spec t))"

definition assignSelector :: "SyntheticTest \<Rightarrow> gomap" where
  "assignSelector t = (if needsPodAssignment t then AList.delete SpecialKeyPodName (ss_PodLabelSelector (cr_Spec t))
     else ss_PodLabelSelector (cr_Spec t))"

text \<open>The agent of a test that asks for one: the present one when it is still valid.\<close>

definition chooseAgent :: "controller_env \<Rightarrow> SyntheticTest \<Rightarrow> (string \<times> bool) list \<Rightarrow> err + string" where
  "chooseAgent env t validAgents =
     (if map_of validAgents (sts_Agent (cr_Status t)) = None then SelectRandomAgent env validAgents
      else Inr (sts_Agent (cr_Status t)))"

definition reconcileInstance ::
  "controller_env \<Rightarrow> 's SynHeartStore \<Rightarrow> 's K8sClient \<Rightarrow> SyntheticTest \<Rightarrow> 's \<Rightarrow> (ctrl_Result \<times> err option) option \<times> 's" where
  "reconcileInstance env st k8s t s =
     (let spec = cr_Spec t; wantsNode = needsNodeAssignment t; wantsPod = needsPodAssignment t in
      if wantsNode \<and> wantsPod then
        map_prod Some id (finish env st k8s t [] (ss_Node spec) (ss_PodLabelSelector spec)
          (undeployed ''error: config cant have '$' in both node and podLabel selector, use only one'') emptyResult s)
      else
        (let node = assignNode t; psel = assignSelector t in
         case getActiveAgents env st s of
           (None, s) \<Rightarrow> (None, s)
         | (Some (Inl e), s) \<Rightarrow> (Some (requeueAfter (30 * second), None), s)
         | (Some (Inr activeAgents), s) \<Rightarrow>
             (case getValidAgentsForTest activeAgents t node psel of
                Inl e \<Rightarrow> (Some (requeueAfter (30 * second), None), s)
              | Inr validAgents \<Rightarrow>
                  if validAgents = [] then
                    map_prod Some id (finish env st k8s t [] (ss_Node spec) (ss_PodLabelSelector spec)
                      (undeployed ''error: no valid agents found to run the synthetic test on, retry after 1 minute'')
                      (requeueAfter (60 * second)) s)
                  else
                    (let deploy = (\<lambda>agent psel. map_prod Some id (finish env st k8s t agent node psel
                           \<lparr>css_Deployed = True, css_Message = ''deployed to agent'', css_Agent = agent,
                            css_Timestamp = []\<rparr> emptyResult s)) in
                     if wantsNode \<or> wantsPod then
                       (case chooseAgent env t validAgents of
                          Inl e \<Rightarrow> (Some (emptyResult, Some e), s)
                        | Inr agent \<Rightarrow> deploy agent (AList.update SpecialKeyAgentId agent psel))
                     else deploy ''multiple'' psel))))"

definition ConnectToStorage :: "(string \<Rightarrow> 's RedisSynHeartStore) \<Rightarrow> string option \<Rightarrow> err + 's SynHeartStore" where
  "ConnectToStorage connect storeAddr =
     (case NewSynHeartStore ''redis'' (connect (case storeAddr of None \<Rightarrow> [] | Some a \<Rightarrow> a)) of
        Inl e \<Rightarrow> Inl (ErrWrap ''error creating synheart store (redis) client'' e)
      | Inr st \<Rightarrow> Inr st)"

definition Reconcile ::
  "controller_env \<Rightarrow> (string \<Rightarrow> 's RedisSynHeartStore) \<Rightarrow> string option \<Rightarrow> 's K8sClient \<Rightarrow> string \<Rightarrow> string \<Rightarrow> 's
    \<Rightarrow> (ctrl_Result \<times> err option) option \<times> 's" where
  "Reconcile env connect storeAddr k8s name namespace s =
     (case ConnectToStorage connect storeAddr of
        Inl e \<Rightarrow> (Some (emptyResult, Some e), s)
      | Inr st \<Rightarrow>
          (case k8_Get k8s name namespace s of
             (Inl e, s) \<Rightarrow>
               (if k8_IsNotFound k8s e
                then (Some (emptyResult, None),
                      snd (st_DeleteTestConfig st (ComputeSynTestConfigId name namespace) s))
                else (Some (emptyResult, Some e), s))
           | (Inr t, s) \<Rightarrow> reconcileInstance env st k8s t s))"

definition ReconcileForExternalEvents :: "'s K8sClient \<Rightarrow> 's \<Rightarrow> (string \<times> string) list \<times> 's" where
  "ReconcileForExternalEvents k8s s =
     (case k8_ListTests k8s s of
        (Inl e, s) \<Rightarrow> ([], s)
      | (Inr ts, s) \<Rightarrow> (map (\<lambda>t. (cr_Name t, cr_Namespace t)) ts, s))"

section \<open>Valid agents\<close>

abbreviation accepts :: "AgentConfig \<Rightarrow> string \<Rightarrow> SyntheticTest \<Rightarrow> string \<Rightarrow> gomap \<Rightarrow> bool" where
  "accepts cfg a t node psel \<equiv>
     IsAgentValidForSynTest cfg a (cr_Name t) (cr_Namespace t) node psel (cr_Labels t) = Inr True"

lemma validLoop_valid:
  assumes "validLoop t node psel act acc = Inr valid" and "gwf act" and "gwf acc"
  shows "gwf valid \<and> (map_of valid a \<noteq> None \<longleftrightarrow>
    map_of acc a \<noteq> None \<or> (\<exists>x. map_of act a = Some x \<and> accepts (as_AgentConfig x) a t node psel))"
  using assms
proof (induction t node psel act acc rule: validLoop.induct)
  case (2 t node psel n x rest acc)
  have g: "gwf rest" "map_of rest n = None" using 2(3) by (auto simp: gwf_def map_of_eq_None_iff)
  obtain b where b: "IsAgentValidForSynTest (as_AgentConfig x) n (cr_Name t) (cr_Namespace t) node psel (cr_Labels t) = Inr b"
    using 2(2) by (auto split: sum.splits)
  have "gwf (if b then AList.update n True acc else acc)" using 2(4) by simp
  with 2(1)[OF b] 2(2) b g show ?case by (cases b) auto
qed auto

lemma valid_agents:
  assumes "getValidAgentsForTest act t node psel = Inr valid" and "gwf act"
  shows "gwf valid" "map_of valid a \<noteq> None \<longleftrightarrow> (\<exists>x. map_of act a = Some x \<and> accepts (as_AgentConfig x) a t node psel)"
  using validLoop_valid[OF assms(1)[unfolded getValidAgentsForTest_def] assms(2) gwf_Nil, of a] by auto

lemma nthAgent_nth:
  "index < i + length xs \<Longrightarrow> i \<le> index \<Longrightarrow> nthAgent i index xs = Inr (fst (xs ! (index - i)))"
  by (induction i index xs rule: nthAgent.induct) (auto simp: nth_Cons')

text \<open>What the code relies on of the random source and of the order of a map.\<close>

definition goodRandom :: "controller_env \<Rightarrow> bool" where
  "goodRandom env \<longleftrightarrow> (\<forall>n. 0 < n \<longrightarrow> ce_rand env n < n) \<and>
     (\<forall>m. gwf m \<longrightarrow> gwf (ce_range env m) \<and> set (ce_range env m) = set m)"

lemma goodRandom_length: "goodRandom env \<Longrightarrow> gwf m \<Longrightarrow> length (ce_range env m) = length m"
  unfolding goodRandom_def gwf_def by (metis distinct_card distinct_map)

lemma SelectRandomAgent_ok:
  assumes "goodRandom env" and "gwf m" and "m \<noteq> []"
  obtains a where "SelectRandomAgent env m = Inr a" and "map_of m a \<noteq> None"
proof -
  let ?i = "if length m > 1 then ce_rand env (length m - 1) else 0"
  have "?i < length m"
  proof (cases "length m > 1")
    case True
    then have "ce_rand env (length m - 1) < length m - 1" using assms(1) unfolding goodRandom_def by simp
    with True show ?thesis by simp
  qed (use assms(3) in simp)
  with goodRandom_length[OF assms(1,2)] have i: "?i < length (ce_range env m)" by simp
  let ?a = "fst (ce_range env m ! ?i)"
  have "SelectRandomAgent env m = Inr ?a"
    using nthAgent_nth[of ?i 0 "ce_range env m"] i by (simp add: SelectRandomAgent_def Let_def)
  moreover have "ce_range env m ! ?i \<in> set m" using nth_mem[OF i] assms(1,2) unfolding goodRandom_def by blast
  then have "map_of m ?a \<noteq> None" by (simp add: map_of_eq_None_iff)
  ultimately show ?thesis by (rule that)
qed

lemma chooseAgent_ok:
  assumes "goodRandom env" and "gwf m" and "m \<noteq> []"
  obtains a where "chooseAgent env t m = Inr a" and "map_of m a \<noteq> None"
    and "map_of m (sts_Agent (cr_Status t)) \<noteq> None \<longrightarrow> a = sts_Agent (cr_Status t)"
proof (cases "map_of m (sts_Agent (cr_Status t)) = None")
  case True
  obtain a where "SelectRandomAgent env m = Inr a" "map_of m a \<noteq> None" by (rule SelectRandomAgent_ok[OF assms])
  with True show ?thesis by (intro that[of a]) (simp_all add: chooseAgent_def)
next
  case False
  then show ?thesis by (intro that[of "sts_Agent (cr_Status t)"]) (auto simp: chooseAgent_def)
qed

section \<open>Reconciling over a reachable storage\<close>

abbreviation crid :: "SyntheticTest \<Rightarrow> string" where
  "crid t \<equiv> ComputeSynTestConfigId (cr_Name t) (cr_Namespace t)"

abbreviation versioned :: "controller_env \<Rightarrow> SyntheticTest \<Rightarrow> string \<Rightarrow> gomap \<Rightarrow> SynTestConfig" where
  "versioned env t node psel \<equiv> (newTestConfig t node psel)\<lparr>stc_Version :=
     ce_md5 env (sprintConfig env (newTestConfig t node psel))\<rparr>"

lemma newTestConfig_name [simp]:
  "stc_Name (newTestConfig t node psel) = cr_Name t" "stc_Namespace (newTestConfig t node psel) = cr_Namespace t"
  by (simp_all add: newTestConfig_def)

text \<open>A resource whose configuration can be encoded.\<close>

definition encodes :: "controller_env \<Rightarrow> (SynTestConfig \<Rightarrow> bool) \<Rightarrow> SyntheticTest \<Rightarrow> bool" where
  "encodes env encodable t \<longleftrightarrow> (\<exists>raw. ce_marshalSpec env (cr_Spec t) = Inr raw) \<and>
     (\<forall>node psel. encodable (versioned env t node psel))"

context reliable_cluster begin

lemma update_writes:
  assumes "inv s" and "encodes env encodable t"
    and "\<forall>c. v_cfg (view s) (crid t) = Some c \<longrightarrow>
      stc_Version c \<noteq> stc_Version (versioned env t node psel) \<or> sts_Agent (cr_Status t) \<noteq> agent"
    and "v_cfg (view s) (crid t) = None \<longrightarrow> stc_Version (versioned env t node psel) \<noteq> []"
  shows "\<exists>s'. updateTestConfigInRedis env t (crid t) agent node psel st s = (Inr (), s') \<and> inv s' \<and>
    v_cfg (view s') (crid t) = Some (versioned env t node psel) \<and> v_agents (view s') = v_agents (view s) \<and>
    v_sum (view s') (crid t) \<noteq> None"
proof -
  obtain f s1 where f: "st_FetchTestConfig st (crid t) s = (f, s1)" by (cases "st_FetchTestConfig st (crid t) s")
  note fc = fetch_config[OF assms(1) f] fetch_config_total[OF assms(1), of "crid t"]
  let ?old = "case f of Inl _ \<Rightarrow> zeroSynTestConfig | Inr c \<Rightarrow> c"
  have f': "f = (case v_cfg (view s) (crid t) of None \<Rightarrow> Inl ErrNotFound | Some c \<Rightarrow> Inr c)"
    using fc(2) f by simp
  have go: "\<not> (stc_Version ?old = stc_Version (versioned env t node psel) \<and> sts_Agent (cr_Status t) = agent)"
  proof (cases "v_cfg (view s) (crid t)")
    case None
    have "stc_Version zeroSynTestConfig = []" by (simp add: zeroSynTestConfig_def)
    moreover have "?old = zeroSynTestConfig" unfolding f' None by simp
    ultimately show ?thesis using assms(4) None by (metis (no_types))
  next
    case (Some c)
    have "?old = c" unfolding f' Some by simp
    with Some assms(3) show ?thesis by (metis (no_types))
  qed
  obtain raw where raw: "ce_marshalSpec env (cr_Spec t) = Inr raw" using assms(2) by (auto simp: encodes_def)
  obtain s2 where w: "st_WriteTestConfig st (versioned env t node psel) raw s1 = (Inr (), s2)"
  proof -
    have "encodable (versioned env t node psel)" using assms(2) unfolding encodes_def by blast
    with fc(1) have "fst (st_WriteTestConfig st (versioned env t node psel) raw s1) = Inr ()"
      by (intro write_config_total) blast+
    then show ?thesis using that by (metis prod.collapse)
  qed
  have "updateTestConfigInRedis env t (crid t) agent node psel st s = (Inr (), s2)"
    using go f raw w by (auto simp: updateTestConfigInRedis_def Let_def ComputeHash_def)
  moreover have "inv s2" "v_cfg (view s2) (crid t) = Some (versioned env t node psel)" "v_sum (view s2) (crid t) \<noteq> None"
    "offConfig (crid t) (view s2) = offConfig (crid t) (view s1)"
    using write_config[OF fc(1)[THEN conjunct1] w] by simp_all
  ultimately show ?thesis using offConfig_other(4)[of "crid t" "view s2" "view s1"] fc by auto
qed

lemma updateTestStatus_keeps:
  assumes "inv s"
  shows "inv (updateTestStatus env t i status st k8s s)"
    "v_cfg (view (updateTestStatus env t i status st k8s s)) = v_cfg (view s)"
    "v_sum (view (updateTestStatus env t i status st k8s s)) = v_sum (view s)"
    "v_status (view (updateTestStatus env t i status st k8s s)) i = Some (nstatus (status\<lparr>css_Timestamp := ce_timestamp env\<rparr>))"
proof -
  let ?x = "status\<lparr>css_Timestamp := ce_timestamp env\<rparr>"
  obtain s1 where w: "st_WriteTestConfigStatus st i ?x s = (Inr (), s1)"
    using write_config_status_total[OF assms, of i ?x] by (metis prod.collapse)
  have s1: "inv s1" "view s1 = (view s)\<lparr>v_status := (v_status (view s))(i \<mapsto> nstatus ?x)\<rparr>"
    using write_config_status[OF assms w] by auto
  let ?t = "t\<lparr>cr_Status := \<lparr>sts_Deployed = css_Deployed status, sts_Agent = css_Agent status,
                              sts_Message = css_Message status\<rparr>\<rparr>"
  obtain d s2 where u: "k8_StatusUpdate k8s ?t s1 = (d, s2)" by (cases "k8_StatusUpdate k8s ?t s1")
  have "inv s2" "view s2 = view s1" using status_update_keeps[OF s1(1) u] by auto
  with w u s1 show "inv (updateTestStatus env t i status st k8s s)"
    "v_cfg (view (updateTestStatus env t i status st k8s s)) = v_cfg (view s)"
    "v_sum (view (updateTestStatus env t i status st k8s s)) = v_sum (view s)"
    "v_status (view (updateTestStatus env t i status st k8s s)) i = Some (nstatus ?x)"
    by (simp_all add: updateTestStatus_def Let_def)
qed

lemma finish_writes:
  assumes "inv s" and "encodes env encodable t"
    and "v_cfg (view s) (crid t) = None \<or> sts_Agent (cr_Status t) \<noteq> agent"
    and "\<forall>x. ce_md5 env x \<noteq> []"
  shows "\<exists>s'. finish env st k8s t agent node psel status result s = ((result, None), s') \<and> inv s' \<and>
    v_sum (view s') (crid t) \<noteq> None \<and> v_cfg (view s') (crid t) = Some (versioned env t node psel) \<and>
    v_status (view s') (crid t) = Some (nstatus (status\<lparr>css_Timestamp := ce_timestamp env\<rparr>))"
proof -
  obtain s1 where s1: "updateTestConfigInRedis env t (crid t) agent node psel st s = (Inr (), s1)" "inv s1"
    "v_cfg (view s1) (crid t) = Some (versioned env t node psel)" "v_sum (view s1) (crid t) \<noteq> None"
    using update_writes[OF assms(1,2), of node psel agent] assms(3,4) by auto
  with updateTestStatus_keeps[OF s1(2)] show ?thesis by (simp add: finish_def)
qed

text \<open>The agents a reconcile chooses from.\<close>

lemma active_agents:
  assumes "inv s" and "se_deadline (ce_sync env) = Some d" and "se_parseDuration (ce_sync env) d = Inr dur"
  shows "\<exists>act s'. getActiveAgents env st s = (Some (Inr act), s') \<and> inv s' \<and> view s' = view s \<and> gwf act \<and>
    (\<forall>i. map_of act i = activeOf (ce_sync env) (v_agents (view s)) i)"
  using FetchActiveAgents_exact[OF assms] by (auto simp: getActiveAgents_def)

lemma valid_agents_of:
  assumes inv: "inv s" and dl: "se_deadline (ce_sync env) = Some d" "se_parseDuration (ce_sync env) d = Inr dur"
    and noerr: "\<And>i x. v_agents (view s) i = Some x \<Longrightarrow>
      \<exists>b. IsAgentValidForSynTest (as_AgentConfig x) i (cr_Name t) (cr_Namespace t) node psel (cr_Labels t) = Inr b"
  obtains act s1 valid where "getActiveAgents env st s = (Some (Inr act), s1)" "inv s1" "view s1 = view s"
    "getValidAgentsForTest act t node psel = Inr valid" "gwf valid"
    "\<And>a. map_of valid a \<noteq> None \<longleftrightarrow>
      (\<exists>x. activeOf (ce_sync env) (v_agents (view s)) a = Some x \<and> accepts (as_AgentConfig x) a t node psel)"
proof -
  obtain act s1 where act: "getActiveAgents env st s = (Some (Inr act), s1)" "inv s1" "view s1 = view s" "gwf act"
    "\<And>i. map_of act i = activeOf (ce_sync env) (v_agents (view s)) i"
    using active_agents[OF inv dl] by blast
  have "\<exists>valid. validLoop t node psel l acc = Inr valid" if "set l \<subseteq> set act" for l acc
    using that
  proof (induction l arbitrary: acc)
    case (Cons p l)
    obtain i x where p: "p = (i, x)" by (cases p)
    with Cons.prems act(4,5) have "activeOf (ce_sync env) (v_agents (view s)) i = Some x"
      by (auto simp: map_of_mem)
    then have "v_agents (view s) i = Some x" by (auto simp: activeOf_def split: option.splits if_splits)
    from noerr[OF this] Cons p show ?case by auto
  qed simp
  then obtain valid where valid: "getValidAgentsForTest act t node psel = Inr valid"
    unfolding getValidAgentsForTest_def by blast
  from that[OF act(1-3) valid valid_agents(1)[OF valid act(4)]] valid_agents(2)[OF valid act(4)] act(5)
  show ?thesis by simp
qed

lemma reconcile_assigned:
  assumes inv: "inv s" and dl: "se_deadline (ce_sync env) = Some d" "se_parseDuration (ce_sync env) d = Inr dur"
    and enc: "encodes env encodable t" and md5: "\<forall>x. ce_md5 env x \<noteq> []"
    and fresh: "v_cfg (view s) (crid t) = None \<or> v_agents (view s) (sts_Agent (cr_Status t)) = None"
    and rnd: "goodRandom env" and one: "needsNodeAssignment t \<noteq> needsPodAssignment t"
    and noerr: "\<And>i x. v_agents (view s) i = Some x \<Longrightarrow>
      \<exists>b. IsAgentValidForSynTest (as_AgentConfig x) i (cr_Name t) (cr_Namespace t) (assignNode t) (assignSelector t) (cr_Labels t) = Inr b"
    and some: "activeOf (ce_sync env) (v_agents (view s)) i0 = Some x0"
      "accepts (as_AgentConfig x0) i0 t (assignNode t) (assignSelector t)"
  shows "\<exists>a x s'. reconcileInstance env st k8s t s = (Some (emptyResult, None), s') \<and> inv s' \<and>
    v_sum (view s') (crid t) \<noteq> None \<and>
    activeOf (ce_sync env) (v_agents (view s)) a = Some x \<and>
    accepts (as_AgentConfig x) a t (assignNode t) (assignSelector t) \<and>
    v_cfg (view s') (crid t) = Some (versioned env t (assignNode t) (AList.update SpecialKeyAgentId a (assignSelector t)))"
proof -
  obtain act s1 valid where V: "getActiveAgents env st s = (Some (Inr act), s1)" "inv s1" "view s1 = view s"
    "getValidAgentsForTest act t (assignNode t) (assignSelector t) = Inr valid" "gwf valid"
    "\<And>a. map_of valid a \<noteq> None \<longleftrightarrow> (\<exists>x. activeOf (ce_sync env) (v_agents (view s)) a = Some x \<and>
      accepts (as_AgentConfig x) a t (assignNode t) (assignSelector t))"
    using valid_agents_of[OF inv dl noerr] by metis
  have "map_of valid i0 \<noteq> None" using V(6)[of i0] some by blast
  then have ne: "valid \<noteq> []" by auto
  obtain a where a: "chooseAgent env t valid = Inr a" "map_of valid a \<noteq> None"
    by (rule chooseAgent_ok[OF rnd V(5) ne])
  have "v_agents (view s) a \<noteq> None" using V(6)[of a] a(2) by (auto simp: activeOf_def split: option.splits)
  with fresh have moved: "v_cfg (view s) (crid t) = None \<or> sts_Agent (cr_Status t) \<noteq> a" by auto
  let ?psel = "AList.update SpecialKeyAgentId a (assignSelector t)"
  obtain s' where s': "finish env st k8s t a (assignNode t) ?psel
      \<lparr>css_Deployed = True, css_Message = ''deployed to agent'', css_Agent = a, css_Timestamp = []\<rparr> emptyResult s1
        = ((emptyResult, None), s')" "inv s'" "v_sum (view s') (crid t) \<noteq> None"
    "v_cfg (view s') (crid t) = Some (versioned env t (assignNode t) ?psel)"
    using finish_writes[OF V(2) enc _ md5, of a "assignNode t" ?psel
        "\<lparr>css_Deployed = True, css_Message = ''deployed to agent'', css_Agent = a, css_Timestamp = []\<rparr>" emptyResult]
      moved V(3) by auto
  have "reconcileInstance env st k8s t s = (Some (emptyResult, None), s')"
    using one V(1,4) ne a(1) s'(1)
    by (cases "needsNodeAssignment t") (simp_all add: reconcileInstance_def Let_def)
  with V(6)[of a] a(2) s'(2-4) show ?thesis by blast
qed

lemma reconcile_no_agent:
  assumes inv: "inv s" and dl: "se_deadline (ce_sync env) = Some d" "se_parseDuration (ce_sync env) d = Inr dur"
    and enc: "encodes env encodable t" and fresh: "v_cfg (view s) (crid t) = None" and md5: "\<forall>x. ce_md5 env x \<noteq> []"
    and one: "\<not> (needsNodeAssignment t \<and> needsPodAssignment t)"
    and none: "\<And>i x. v_agents (view s) i = Some x \<Longrightarrow>
      IsAgentValidForSynTest (as_AgentConfig x) i (cr_Name t) (cr_Namespace t) (assignNode t) (assignSelector t) (cr_Labels t) = Inr False"
  shows "\<exists>s' x. reconcileInstance env st k8s t s = (Some (requeueAfter (60 * second), None), s') \<and>
    v_cfg (view s') (crid t) = Some (versioned env t (ss_Node (cr_Spec t)) (ss_PodLabelSelector (cr_Spec t))) \<and>
    v_status (view s') (crid t) = Some (nstatus x) \<and> \<not> css_Deployed x \<and> css_Agent x = []"
proof -
  let ?u = "undeployed ''error: no valid agents found to run the synthetic test on, retry after 1 minute''"
  obtain act s1 valid where V: "getActiveAgents env st s = (Some (Inr act), s1)" "inv s1" "view s1 = view s"
    "getValidAgentsForTest act t (assignNode t) (assignSelector t) = Inr valid"
    "\<And>a. map_of valid a \<noteq> None \<longleftrightarrow> (\<exists>x. activeOf (ce_sync env) (v_agents (view s)) a = Some x \<and>
      accepts (as_AgentConfig x) a t (assignNode t) (assignSelector t))"
    using valid_agents_of[OF inv dl, of t "assignNode t" "assignSelector t"] none by metis
  have "map_of valid a = None" for a
    using V(5)[of a] none[of a] by (auto simp: activeOf_def split: option.splits if_splits)
  then have e: "valid = []" by (cases valid) (auto split: if_splits, metis option.distinct(1))
  obtain s' where s': "finish env st k8s t [] (ss_Node (cr_Spec t)) (ss_PodLabelSelector (cr_Spec t)) ?u
      (requeueAfter (60 * second)) s1 = ((requeueAfter (60 * second), None), s')"
    "v_cfg (view s') (crid t) = Some (versioned env t (ss_Node (cr_Spec t)) (ss_PodLabelSelector (cr_Spec t)))"
    "v_status (view s') (crid t) = Some (nstatus (?u\<lparr>css_Timestamp := ce_timestamp env\<rparr>))"
    using finish_writes[OF V(2) enc _ md5] fresh V(3) by metis
  have "reconcileInstance env st k8s t s = (Some (requeueAfter (60 * second), None), s')"
    using one V(1,4) e s'(1) by (auto simp: reconcileInstance_def Let_def)
  with s'(2,3) show ?thesis by (auto simp: undeployed_def)
qed

end

section \<open>Properties\<close>

text \<open>The example of the witnesses: a test that asks for any node, on the cluster with one agent.\<close>

definition exampleTest :: SyntheticTest where
  "exampleTest = \<lparr>cr_Name = ''dns'', cr_Namespace = ''prod'', cr_Labels = [],
     cr_Spec = \<lparr>ss_Plugin = ''dns'', ss_Node = ''$'', ss_PodLabelSelector = [], ss_DisplayName = [],
       ss_Description = [], ss_Importance = [], ss_Repeat = ''1m'', ss_DependsOn = [], ss_Timeouts = None,
       ss_PluginRestartPolicy = [], ss_LogWaitTime = [], ss_Config = []\<rparr>,
     cr_Status = \<lparr>sts_Deployed = False, sts_Agent = [], sts_Message = []\<rparr>\<rparr>"

definition exampleController :: controller_env where
  "exampleController = \<lparr>ce_sync = exampleEnv, ce_md5 = (\<lambda>s. CHR ''h'' # s), ce_marshalSpec = (\<lambda>_. Inr ''spec''),
     ce_timestamp = ''now'', ce_rand = (\<lambda>_. 0), ce_range = (\<lambda>m. m),
     ce_textTimeouts = to_Run\<rparr>"

lemma example_accepts:
  "IsAgentValidForSynTest zeroAgentConfig ''pod-1/heart'' ''dns'' ''prod'' ''*'' [] [] = Inr True"
  by code_simp

lemma example_parts [simp]:
  "cr_Name exampleTest = ''dns''" "cr_Namespace exampleTest = ''prod''" "cr_Labels exampleTest = []"
  "as_AgentConfig zeroAgentStatus = zeroAgentConfig" "ce_sync exampleController = exampleEnv"
  "ce_md5 exampleController x \<noteq> []" "se_deadline exampleEnv = Some ''1m''"
  "se_parseDuration exampleEnv ''1m'' = Inr 60"
  by (simp_all add: exampleTest_def exampleController_def exampleEnv_def zeroAgentStatus_def)

lemma example_facts:
  "assignNode exampleTest = ''*''" "assignSelector exampleTest = []" "needsNodeAssignment exampleTest"
  "\<not> needsPodAssignment exampleTest" "goodRandom exampleController"
  "encodes exampleController (\<lambda>c. \<exists>b. rs_marshalConfig memStore c = Inr b) exampleTest"
  by (simp_all add: assignNode_def assignSelector_def needsNodeAssignment_def needsPodAssignment_def
      exampleTest_def strings_Contains_def strings_ReplaceAll_def goodRandom_def exampleController_def
      encodes_def memStore_def)

lemma example_active:
  "activeOf exampleEnv (v_agents (memView' agentMem)) ''pod-1/heart'' = Some zeroAgentStatus"
  by (simp add: activeOf_def expired_def exampleEnv_def zeroAgentStatus_def)

lemma mem_write_config:
  assumes "memInv s"
  shows "memInv (snd (WriteTestConfig memStore c raw s))"
    "v_cfg (memView' (snd (WriteTestConfig memStore c raw s))) (cid c) = Some c"
proof -
  obtain s' where w: "WriteTestConfig memStore c raw s = (Inr (), s')"
    using memory.write_config_total_law[OF assms, of c "encConfig c" raw]
    by (cases "WriteTestConfig memStore c raw s") (auto simp: memStore_def)
  show "memInv (snd (WriteTestConfig memStore c raw s))" using memory.write_config_law(1)[OF assms w] w by simp
  show "v_cfg (memView' (snd (WriteTestConfig memStore c raw s))) (cid c) = Some c"
    using memory.write_config_law(4)[OF assms w] w by simp
qed

lemma update_entries: "p \<in> set (AList.update k x m) \<Longrightarrow> p = (k, x) \<or> p \<in> set m"
  by (induction m) (auto split: if_splits)

lemma accepts_assigned:
  assumes "accepts cfg a t node psel"
  shows "accepts cfg a t node (AList.update SpecialKeyAgentId a psel)"
proof -
  have "podSelectorEntry cfg a SpecialKeyAgentId a = Inr True" by (simp add: podSelectorEntry_def)
  with assms show ?thesis
    unfolding IsAgentValid_iff podSelected_def by (fastforce dest: update_entries)
qed

text \<open>
  C5. A test that asks for one agent gets exactly one. Reconciling a test with a dollar sign
  in its node selector or its pod selector, that is new or whose agent is no longer registered, when
  some active agent can run it, writes a configuration that the chosen active agent accepts and that
  no other agent accepts, whatever its labels, as long as pod labels do not start with a dollar
  sign.
\<close>

theorem assigned_test_exclusive:
  assumes "reliable_cluster st view ok nsum nagent nstatus k8s encodable" and "ok s"
    and "se_deadline (ce_sync env) = Some d" "se_parseDuration (ce_sync env) d = Inr dur"
    and "encodes env encodable t" and "\<forall>x. ce_md5 env x \<noteq> []"
    and "v_cfg (view s) (crid t) = None \<or> v_agents (view s) (sts_Agent (cr_Status t)) = None"
    and "goodRandom env" and "needsNodeAssignment t \<noteq> needsPodAssignment t"
    and "\<And>i x. v_agents (view s) i = Some x \<Longrightarrow> \<exists>b. IsAgentValidForSynTest (as_AgentConfig x) i
      (cr_Name t) (cr_Namespace t) (assignNode t) (assignSelector t) (cr_Labels t) = Inr b"
    and "activeOf (ce_sync env) (v_agents (view s)) i0 = Some x0"
    and "accepts (as_AgentConfig x0) i0 t (assignNode t) (assignSelector t)"
  shows "\<exists>a x s' c. reconcileInstance env st k8s t s = (Some (emptyResult, None), s') \<and>
    v_cfg (view s') (crid t) = Some c \<and> activeOf (ce_sync env) (v_agents (view s)) a = Some x \<and>
    accepts (as_AgentConfig x) a t (stc_NodeSelector c) (stc_PodLabelSelector c) \<and>
    (\<forall>cfg b. ordinaryLabels cfg \<and> accepts cfg b t (stc_NodeSelector c) (stc_PodLabelSelector c) \<longrightarrow> b = a)"
proof -
  obtain a x s' where r: "reconcileInstance env st k8s t s = (Some (emptyResult, None), s')"
    "activeOf (ce_sync env) (v_agents (view s)) a = Some x"
    "accepts (as_AgentConfig x) a t (assignNode t) (assignSelector t)"
    "v_cfg (view s') (crid t) = Some (versioned env t (assignNode t) (AList.update SpecialKeyAgentId a (assignSelector t)))"
    using reliable_cluster.reconcile_assigned[OF assms] by blast
  let ?psel = "AList.update SpecialKeyAgentId a (assignSelector t)"
  let ?c = "versioned env t (assignNode t) ?psel"
  have sel: "stc_NodeSelector ?c = assignNode t" "stc_PodLabelSelector ?c = ?psel"
    by (simp_all add: newTestConfig_def)
  have "(SpecialKeyAgentId, a) \<in> set ?psel" by (rule map_of_SomeD) simp
  then have "\<forall>cfg b. ordinaryLabels cfg \<and> accepts cfg b t (assignNode t) ?psel \<longrightarrow> b = a"
    using assigned_agent_unique by blast
  with r accepts_assigned[OF r(3)] show ?thesis
    by (intro exI[of _ a] exI[of _ x] exI[of _ s'] exI[of _ ?c]) (simp only: sel simp_thms)
qed

theorem assigned_test_exclusive_witness:
  "\<exists>s'. reconcileInstance exampleController (NewRedisSynHeartStore memStore) (memCluster (Inr []) (Inr []))
     exampleTest agentMem = (Some (emptyResult, None), s')"
proof -
  have noerr: "\<exists>b. IsAgentValidForSynTest (as_AgentConfig x) i (cr_Name exampleTest) (cr_Namespace exampleTest)
      (assignNode exampleTest) (assignSelector exampleTest) (cr_Labels exampleTest) = Inr b"
    if "v_agents (memView' agentMem) i = Some x" for i x
    using that example_facts(1,2) example_accepts by (auto split: if_splits)
  have "needsNodeAssignment exampleTest \<noteq> needsPodAssignment exampleTest" using example_facts(3,4) by simp
  with noerr show ?thesis
    using assigned_test_exclusive[OF mem_cluster.reliable_cluster_axioms agentMem_inv _ _ example_facts(6) _ _
        example_facts(5) _ noerr, of "''1m''" 60 "''pod-1/heart''" zeroAgentStatus "Inr []" "Inr []"]
      example_facts(1,2) example_active example_accepts
    by simp blast
qed

text \<open>
  The choice of an agent is sound and stable: from a non-empty set of valid agents one is
  always chosen (the out-of-range error is unreachable), it is one of them, and a test that already
  runs on a valid agent stays there.
\<close>

theorem agent_choice_sound:
  assumes "goodRandom env" and "gwf valid" and "valid \<noteq> []"
  shows "\<exists>a. chooseAgent env t valid = Inr a \<and> map_of valid a \<noteq> None \<and>
    (map_of valid (sts_Agent (cr_Status t)) \<noteq> None \<longrightarrow> a = sts_Agent (cr_Status t))"
  by (rule chooseAgent_ok[OF assms, of t]) blast

theorem agent_choice_sound_witness:
  "\<exists>a. chooseAgent exampleController exampleTest [(''pod-1/heart'', True)] = Inr a"
  using agent_choice_sound[OF example_facts(5), of "[(''pod-1/heart'', True)]" exampleTest]
  by (auto simp: gwf_def)

text \<open>
  The random choice is not over all agents: with two or more valid agents, the one the map
  iteration visits last is never selected, because the index is drawn below the number of agents
  minus one.
\<close>

theorem last_agent_never_selected:
  assumes "goodRandom env" and "gwf valid" and "1 < length valid"
  shows "SelectRandomAgent env valid \<noteq> Inr (fst (last (ce_range env valid)))"
proof -
  let ?xs = "ce_range env valid" and ?i = "ce_rand env (length valid - 1)"
  have len: "length ?xs = length valid" by (rule goodRandom_length[OF assms(1,2)])
  have i: "?i < length valid - 1" using assms(1,3) unfolding goodRandom_def by simp
  have d: "distinct (map fst ?xs)" using assms(1,2) unfolding goodRandom_def gwf_def by blast
  have "map fst ?xs ! ?i \<noteq> map fst ?xs ! (length ?xs - 1)"
    using nth_eq_iff_index_eq[OF d] i len assms(3) by simp
  moreover have "SelectRandomAgent env valid = Inr (fst (?xs ! ?i))"
    using nthAgent_nth[of ?i 0 ?xs] i len assms(3) by (simp add: SelectRandomAgent_def Let_def)
  moreover have "last ?xs = ?xs ! (length ?xs - 1)" using len assms(3) by (intro last_conv_nth) auto
  ultimately show ?thesis using i len assms(3) by simp
qed

theorem last_agent_never_selected_witness:
  "SelectRandomAgent exampleController [(''a'', True), (''b'', True)] \<noteq> Inr ''b''"
  using last_agent_never_selected[OF example_facts(5), of "[(''a'', True), (''b'', True)]"]
  by (simp add: gwf_def exampleController_def)

text \<open>
  A new test that no agent can run is stored as it is in the resource, marked as not deployed,
  and reconciled again after one minute.
\<close>

theorem no_agent_requeued:
  assumes "reliable_cluster st view ok nsum nagent nstatus k8s encodable" and "ok s"
    and "se_deadline (ce_sync env) = Some d" "se_parseDuration (ce_sync env) d = Inr dur"
    and "encodes env encodable t" and "v_cfg (view s) (crid t) = None" and "\<forall>x. ce_md5 env x \<noteq> []"
    and "\<not> (needsNodeAssignment t \<and> needsPodAssignment t)"
    and "\<And>i x. v_agents (view s) i = Some x \<Longrightarrow> IsAgentValidForSynTest (as_AgentConfig x) i
      (cr_Name t) (cr_Namespace t) (assignNode t) (assignSelector t) (cr_Labels t) = Inr False"
  shows "\<exists>s' c x. reconcileInstance env st k8s t s = (Some (requeueAfter (60 * second), None), s') \<and>
    v_cfg (view s') (crid t) = Some c \<and> stc_NodeSelector c = ss_Node (cr_Spec t) \<and>
    v_status (view s') (crid t) = Some (nstatus x) \<and> \<not> css_Deployed x"
proof -
  obtain s' x where "reconcileInstance env st k8s t s = (Some (requeueAfter (60 * second), None), s')"
    "v_cfg (view s') (crid t) = Some (versioned env t (ss_Node (cr_Spec t)) (ss_PodLabelSelector (cr_Spec t)))"
    "v_status (view s') (crid t) = Some (nstatus x)" "\<not> css_Deployed x"
    using reliable_cluster.reconcile_no_agent[OF assms] by blast
  moreover have "stc_NodeSelector (versioned env t (ss_Node (cr_Spec t)) (ss_PodLabelSelector (cr_Spec t))) = ss_Node (cr_Spec t)"
    by (simp add: newTestConfig_def)
  ultimately show ?thesis by blast
qed

theorem no_agent_requeued_witness:
  "\<exists>s'. reconcileInstance exampleController (NewRedisSynHeartStore memStore) (memCluster (Inr []) (Inr []))
     exampleTest emptyMem = (Some (requeueAfter (60 * second), None), s')"
proof -
  have e: "v_agents (memView' emptyMem) = Map.empty" "v_cfg (memView' emptyMem) = Map.empty"
    by (simp_all add: viewOf_def memView_def memHash_def emptyMem_def)
  show ?thesis
    using no_agent_requeued[OF mem_cluster.reliable_cluster_axioms emptyMem_inv _ _ example_facts(6),
        of "''1m''" 60 "Inr []" "Inr []"] example_facts(4) e
    by simp blast
qed

lemma reconcile_deleted:
  assumes "reliable_cluster (NewRedisSynHeartStore (connect addr)) view ok nsum nagent nstatus k8s encodable"
    and "ok s" and "k8_Get k8s n ns s = (Inl e, s1)" and "k8_IsNotFound k8s e"
  shows "\<exists>s'. Reconcile env connect (Some addr) k8s n ns s = (Some (emptyResult, None), s') \<and> ok s' \<and>
    v_cfg (view s') (ComputeSynTestConfigId n ns) = None \<and> v_sum (view s') (ComputeSynTestConfigId n ns) = None \<and>
    v_status (view s') (ComputeSynTestConfigId n ns) = None"
proof -
  let ?st = "NewRedisSynHeartStore (connect addr)" and ?i = "ComputeSynTestConfigId n ns"
  note C = reliable_cluster.axioms(1)[OF assms(1)]
  note S = cluster.axioms(1)[OF C]
  note R = reliable_cluster.axioms(2)[OF assms(1)]
  have s1: "ok s1" using cluster.get_keeps[OF C assms(2,3)] by simp
  obtain s' where d: "st_DeleteTestConfig ?st ?i s1 = (Inr (), s')"
    using reliable_store.delete_config_total[OF R s1, of ?i] by (metis prod.collapse)
  have "Reconcile env connect (Some addr) k8s n ns s = (Some (emptyResult, None), s')"
    using assms(3,4) d by (simp add: Reconcile_def ConnectToStorage_def NewSynHeartStore_def)
  with synheart_store.delete_config[OF S s1 d] show ?thesis by blast
qed

text \<open>
  A deleted resource leaves the storage: when the resource of a request no longer exists,
  reconciling it removes the configuration, its summary and its status and asks for nothing
  more.
\<close>

theorem deleted_resource_removed:
  assumes "reliable_cluster (NewRedisSynHeartStore (connect addr)) view ok nsum nagent nstatus k8s encodable"
    and "ok s" and "k8_Get k8s n ns s = (Inl e, s1)" and "k8_IsNotFound k8s e"
  shows "\<exists>s'. Reconcile env connect (Some addr) k8s n ns s = (Some (emptyResult, None), s') \<and>
    v_cfg (view s') (ComputeSynTestConfigId n ns) = None \<and> v_sum (view s') (ComputeSynTestConfigId n ns) = None \<and>
    v_status (view s') (ComputeSynTestConfigId n ns) = None"
  using reconcile_deleted[of connect addr, OF assms] by blast

theorem deleted_resource_removed_witness:
  "\<exists>s'. Reconcile exampleController (\<lambda>_. memStore) (Some ''redis:6379'') (memCluster (Inr []) (Inr [])) ''dns'' ''prod''
     agentMem = (Some (emptyResult, None), s')"
  using deleted_resource_removed[of "\<lambda>_. memStore", OF mem_cluster.reliable_cluster_axioms agentMem_inv,
      of "Inr []" "Inr []" "''dns''" "''prod''" ErrNotFound agentMem exampleController "''redis:6379''"]
  by (auto simp: memCluster_def)

text \<open>
  Reconciling again changes nothing: when the stored configuration has the version of the
  resource and the agent is the recorded one, the update returns without an error and the storage
  is as before, so agents are not made to restart the test.
\<close>

theorem unchanged_resource_kept:
  assumes "reliable_cluster st view ok nsum nagent nstatus k8s encodable" and "ok s"
    and "v_cfg (view s) (crid t) = Some (versioned env t node psel)" and "sts_Agent (cr_Status t) = agent"
  shows "\<exists>s'. updateTestConfigInRedis env t (crid t) agent node psel st s = (Inr (), s') \<and> view s' = view s"
proof -
  note S = cluster.axioms(1)[OF reliable_cluster.axioms(1)[OF assms(1)]]
  note R = reliable_cluster.axioms(2)[OF assms(1)]
  obtain f s1 where f: "st_FetchTestConfig st (crid t) s = (f, s1)" by (cases "st_FetchTestConfig st (crid t) s")
  then have "f = Inr (versioned env t node psel)"
    using reliable_store.fetch_config_total[OF R assms(2), of "crid t"] assms(3) by simp
  with f assms(4) have "updateTestConfigInRedis env t (crid t) agent node psel st s = (Inr (), s1)"
    by (simp add: updateTestConfigInRedis_def Let_def ComputeHash_def)
  with synheart_store.fetch_config[OF S assms(2) f] show ?thesis by blast
qed

definition configMem :: mem where
  "configMem = snd (WriteTestConfig memStore (versioned exampleController exampleTest ''*'' []) ''spec'' agentMem)"

lemma configMem_facts:
  "memInv configMem"
  "v_cfg (memView' configMem) (crid exampleTest) = Some (versioned exampleController exampleTest ''*'' [])"
  using mem_write_config[OF agentMem_inv, of "versioned exampleController exampleTest ''*'' []" "''spec''"]
  by (simp_all add: configMem_def)

theorem unchanged_resource_kept_witness:
  "\<exists>s'. updateTestConfigInRedis exampleController exampleTest (crid exampleTest) [] ''*'' []
     (NewRedisSynHeartStore memStore) configMem = (Inr (), s') \<and> memView' s' = memView' configMem"
  using unchanged_resource_kept[OF mem_cluster.reliable_cluster_axioms configMem_facts, of "[]"]
  by (simp add: exampleTest_def)

text \<open>
  A changed resource is written: when the printed configuration differs from the stored
  one (a changed selector, plugin setting or assignment) and the hash does not collide, the
  update stores the new configuration with its own version, different from the stored one.
\<close>

theorem changed_resource_written:
  assumes "reliable_cluster st view ok nsum nagent nstatus k8s encodable" and "ok s"
    and "encodes env encodable t"
    and "v_cfg (view s) (crid t) = Some (versioned env t' node' psel')"
    and "sprintConfig env (newTestConfig t node psel) \<noteq> sprintConfig env (newTestConfig t' node' psel')"
    and "inj_on (ce_md5 env) {sprintConfig env (newTestConfig t node psel), sprintConfig env (newTestConfig t' node' psel')}"
  shows "\<exists>s' c. updateTestConfigInRedis env t (crid t) agent node psel st s = (Inr (), s') \<and>
    v_cfg (view s') (crid t) = Some c \<and> stc_NodeSelector c = node \<and> stc_PodLabelSelector c = psel \<and>
    stc_Version c \<noteq> stc_Version (versioned env t' node' psel')"
proof -
  let ?new = "versioned env t node psel"
  have neq: "stc_Version ?new \<noteq> stc_Version (versioned env t' node' psel')"
    using assms(5) inj_onD[OF assms(6), of "sprintConfig env (newTestConfig t node psel)"
        "sprintConfig env (newTestConfig t' node' psel')"] by auto
  have "\<exists>s'. updateTestConfigInRedis env t (crid t) agent node psel st s = (Inr (), s') \<and> ok s' \<and>
    v_cfg (view s') (crid t) = Some ?new \<and> v_agents (view s') = v_agents (view s) \<and> v_sum (view s') (crid t) \<noteq> None"
  proof (rule reliable_cluster.update_writes[OF assms(1-3)])
    show "\<forall>c. v_cfg (view s) (crid t) = Some c \<longrightarrow> stc_Version c \<noteq> stc_Version ?new \<or> sts_Agent (cr_Status t) \<noteq> agent"
      unfolding assms(4) option.inject using neq[symmetric] by blast
    show "v_cfg (view s) (crid t) = None \<longrightarrow> stc_Version ?new \<noteq> []" unfolding assms(4) by simp
  qed
  moreover have "stc_NodeSelector ?new = node" "stc_PodLabelSelector ?new = psel"
    by (simp_all add: newTestConfig_def)
  ultimately show ?thesis using neq by metis
qed

theorem changed_resource_written_witness:
  "\<exists>s' c. updateTestConfigInRedis exampleController exampleTest (crid exampleTest) [] ''worker*'' []
     (NewRedisSynHeartStore memStore) configMem = (Inr (), s') \<and>
     v_cfg (memView' s') (crid exampleTest) = Some c \<and> stc_NodeSelector c = ''worker*''"
proof -
  have "sprintConfig exampleController (newTestConfig exampleTest ''worker*'' []) \<noteq>
      sprintConfig exampleController (newTestConfig exampleTest ''*'' [])"
    by (simp add: sprintConfig_def newTestConfig_def joinSp_def exampleTest_def)
  moreover have "inj_on (ce_md5 exampleController) A" for A by (simp add: exampleController_def inj_on_def)
  ultimately show ?thesis
    using changed_resource_written[OF mem_cluster.reliable_cluster_axioms configMem_facts(1) example_facts(6)
        configMem_facts(2), where node = "''worker*''" and psel = "[]" and agent = "[]"]
    by metis
qed

end
