(* ===== verification/StateMap.thy ===== *)
theory StateMap
  imports Models
begin

text \<open>
  The agent's table of plugin states (agent/pluginmanager/state.go). Every operation holds the
  table's mutex for its whole body, so each is one atomic step; the clock readings it takes are
  arguments. \<open>keyed\<close> is the contract of a table addressed by a key; the plugin lifecycle
  and the plugin manager rely on it.
\<close>

section \<open>The contract of a keyed table\<close>

locale keyed =
  fixes look :: "'s \<Rightarrow> 'k \<Rightarrow> 'v option"
    and put :: "'k \<Rightarrow> 'v \<Rightarrow> 's \<Rightarrow> 's"
    and del :: "'k \<Rightarrow> 's \<Rightarrow> 's"
    and wf :: "'s \<Rightarrow> bool"
  assumes look_put: "look (put k v s) = (look s)(k \<mapsto> v)"
    and look_del: "look (del k s) = (look s)(k := None)"
    and wf_put: "wf s \<Longrightarrow> wf (put k v s)"
    and wf_del: "wf s \<Longrightarrow> wf (del k s)"
begin

lemma look_dels: "look (fold del ks s) k = (if k \<in> set ks then None else look s k)"
  by (induction ks arbitrary: s) (auto simp: look_del)

lemma wf_dels: "wf s \<Longrightarrow> wf (fold del ks s)"
  by (induction ks arbitrary: s) (auto simp: wf_del)

lemma wf_puts: "wf s \<Longrightarrow> wf (fold (\<lambda>(k, v). put k v) kvs s)"
  by (induction kvs arbitrary: s) (auto simp: wf_put)

lemma look_puts:
  "distinct (map fst kvs) \<Longrightarrow>
   look (fold (\<lambda>(k, v). put k v) kvs s) k =
     (case map_of kvs k of None \<Rightarrow> look s k | Some v \<Rightarrow> Some v)"
  by (induction kvs arbitrary: s) (auto simp: look_put map_of_eq_None_iff[symmetric] split: option.splits)

end

section \<open>The code\<close>

record StateMap =
  sm_c :: AgentConfig
  sm_PluginStates :: "(string \<times> PluginState) list"

definition zeroPluginState :: PluginState where
  "zeroPluginState = \<lparr>ps_Status = [], ps_StatusMsg = [], ps_Config = zeroSynTestConfig,
     ps_Restarts = 0, ps_RestartBackOff = [], ps_TotalRestarts = 0, ps_RunningSince = 0,
     ps_LastUpdated = 0\<rparr>"

definition NewStateMap :: "AgentConfig \<Rightarrow> StateMap" where
  "NewStateMap agentConfig = \<lparr>sm_c = agentConfig, sm_PluginStates = []\<rparr>"

definition SetPluginState :: "time \<Rightarrow> string \<Rightarrow> PluginState \<Rightarrow> StateMap \<Rightarrow> StateMap" where
  "SetPluginState now i state sm =
     sm\<lparr>sm_PluginStates := AList.update i (state\<lparr>ps_LastUpdated := now\<rparr>) (sm_PluginStates sm)\<rparr>"

definition SetPluginStatus :: "time \<Rightarrow> string \<Rightarrow> string \<Rightarrow> StateMap \<Rightarrow> StateMap" where
  "SetPluginStatus now i status sm =
     (let state = (case map_of (sm_PluginStates sm) i of None \<Rightarrow> zeroPluginState | Some x \<Rightarrow> x) in
      sm\<lparr>sm_PluginStates :=
        AList.update i (state\<lparr>ps_Status := status, ps_LastUpdated := now\<rparr>) (sm_PluginStates sm)\<rparr>)"

definition GetPluginState :: "string \<Rightarrow> StateMap \<Rightarrow> err + PluginState" where
  "GetPluginState i sm =
     (case map_of (sm_PluginStates sm) i of
        None \<Rightarrow> Inl (ErrNew ''plugin not found'')
      | Some state \<Rightarrow> Inr state)"

definition DeletePluginState :: "string \<Rightarrow> StateMap \<Rightarrow> StateMap" where
  "DeletePluginState i sm = sm\<lparr>sm_PluginStates := AList.delete i (sm_PluginStates sm)\<rparr>"

text \<open>
  The components of an identifier that does not parse are empty strings, and the error is
  ignored. \<open>now\<close> is the formatted current time.
\<close>

definition synTestOfPluginId :: "string \<Rightarrow> string" where
  "synTestOfPluginId k =
     (case GetPluginIdComponents k of
        Inl _ \<Rightarrow> ComputeSynTestConfigId [] []
      | Inr (testName, testNs, _, _) \<Rightarrow> ComputeSynTestConfigId testName testNs)"

definition GetAgentStatus :: "string \<Rightarrow> StateMap \<Rightarrow> AgentStatus" where
  "GetAgentStatus now sm =
     \<lparr>as_SynTests = map (synTestOfPluginId \<circ> fst) (sm_PluginStates sm),
      as_StatusTime = now, as_AgentConfig = sm_c sm\<rparr>"

definition GetAllPluginState :: "StateMap \<Rightarrow> (string \<times> PluginState) list" where
  "GetAllPluginState sm =
     fold (\<lambda>(pluginId, pluginState). AList.update pluginId pluginState) (sm_PluginStates sm) []"

section \<open>The table meets the contract\<close>

abbreviation stateOf :: "StateMap \<Rightarrow> string \<Rightarrow> PluginState option" where
  "stateOf sm \<equiv> map_of (sm_PluginStates sm)"

abbreviation wfStates :: "StateMap \<Rightarrow> bool" where
  "wfStates sm \<equiv> gwf (sm_PluginStates sm)"

lemma stateOf_SetPluginState [simp]:
  "stateOf (SetPluginState now i st sm) = (stateOf sm)(i \<mapsto> st\<lparr>ps_LastUpdated := now\<rparr>)"
  by (simp add: SetPluginState_def)

lemma stateOf_DeletePluginState [simp]:
  "stateOf (DeletePluginState i sm) = (stateOf sm)(i := None)"
  by (simp add: DeletePluginState_def)

lemma GetPluginState_Inr [simp]: "GetPluginState i sm = Inr st \<longleftrightarrow> stateOf sm i = Some st"
  by (simp add: GetPluginState_def split: option.splits)

lemma GetPluginState_set:
  "GetPluginState i (SetPluginState now j st sm) =
     (if i = j then Inr (st\<lparr>ps_LastUpdated := now\<rparr>) else GetPluginState i sm)"
  by (simp add: GetPluginState_def)

text \<open>The mutations of the table at a fixed clock reading, as a keyed table.\<close>

interpretation states: keyed stateOf "\<lambda>i st. SetPluginState (ps_LastUpdated st) i st"
    DeletePluginState wfStates
  by unfold_locales (auto simp: SetPluginState_def DeletePluginState_def)

interpretation copies: keyed map_of "AList.update" "AList.delete" "gwf :: (string \<times> PluginState) list \<Rightarrow> bool"
  by unfold_locales auto



end
