(* ===== verification/Lifecycle.thy ===== *)
theory Lifecycle
  imports StateMap "HOL-Library.Word"
begin

text \<open>
  The plugin starter of agent/pluginmanager/pluginManager.go (\<open>StartPlugin\<close>): it runs a plugin
  again and again, records its state in the state table, and waits between two runs for a
  back-off that grows with the number of restarts. The environment of one round of the loop is
  a record: whether the context is cancelled at the loop head, what the blocking call of the
  plugin returned, and the successive readings of the clock. The starter is a function of the
  list of rounds; a list that is used up means that the loop is still running.

  The back-off is computed with Go's 64-bit integers. The conversion of a float that does not
  fit into an int64 is implementation-defined in Go; its result is the argument \<open>ovf\<close>.
\<close>

section \<open>Duration.String\<close>

definition fmtFrac :: "nat \<Rightarrow> nat \<Rightarrow> string" where
  "fmtFrac prec v =
     (let ds = rev (dropWhile ((=) CHR ''0'') (rev (padDigits prec v)))
      in if ds = [] then [] else CHR ''.'' # ds)"

text \<open>Positive durations, in nanoseconds.\<close>

definition Duration_String :: "nat \<Rightarrow> string" where
  "Duration_String d =
     (if d = 0 then ''0s''
      else if d < 1000 then itoa d @ ''ns''
      else if d < 1000000 then itoa (d div 1000) @ fmtFrac 3 (d mod 1000) @ [CHR 0xC2, CHR 0xB5, CHR ''s'']
      else if d < 1000000000 then itoa (d div 1000000) @ fmtFrac 6 (d mod 1000000) @ ''ms''
      else
        (let secs = d div 1000000000;
             tail = itoa (secs mod 60) @ fmtFrac 9 (d mod 1000000000) @ ''s'';
             mins = secs div 60
         in if mins = 0 then tail
            else if mins < 60 then itoa mins @ ''m'' @ tail
            else itoa (mins div 60) @ ''h'' @ itoa (mins mod 60) @ ''m'' @ tail))"

section \<open>The restart back-off\<close>

text \<open>\<open>time.Duration(f)\<close> for a float that is a non-negative integer.\<close>

definition floatToInt64 :: "64 word \<Rightarrow> int \<Rightarrow> 64 word" where
  "floatToInt64 ovf x = (if x < 2 ^ 63 then word_of_int x else ovf)"

definition maxBackOff :: "64 word" where "maxBackOff = 300000000000"

definition backOffTime :: "64 word \<Rightarrow> int \<Rightarrow> 64 word" where
  "backOffTime ovf restarts =
     (let backOff = floatToInt64 ovf (10 * 2 ^ nat (max restarts 0)) * 1000000000;
          capped = (if sint backOff > sint maxBackOff then maxBackOff else backOff)
      in if sint capped \<le> 0 then 1000000000 else capped)"

section \<open>One round of the restart loop\<close>

record run_env =
  re_ctxDone :: bool
  re_err :: "err option"
  re_now :: "nat \<Rightarrow> time"

definition tenMinutes :: duration where "tenMinutes = 600 * second"

text \<open>From the loop head to the call of the plugin.\<close>

definition beginRun :: "string \<Rightarrow> run_env \<Rightarrow> PluginState \<Rightarrow> StateMap \<Rightarrow> PluginState \<times> StateMap" where
  "beginRun pluginId e s sm =
     (let s1 = s\<lparr>ps_Status := Running, ps_Restarts := ps_Restarts s + 1,
                 ps_TotalRestarts := ps_TotalRestarts s + 1, ps_StatusMsg := ''plugin started'',
                 ps_RestartBackOff := [], ps_RunningSince := re_now e 0\<rparr>
      in (s1, SetPluginState (re_now e 1) pluginId s1 sm))"

text \<open>The part of the loop body that computes and records the back-off.\<close>

definition backOffPart ::
  "64 word \<Rightarrow> string \<Rightarrow> run_env \<Rightarrow> PluginState \<Rightarrow> StateMap \<Rightarrow> StateMap" where
  "backOffPart ovf pluginId e s sm =
     (let s1 = (if re_now e 3 - ps_RunningSince s > tenMinutes then s\<lparr>ps_Restarts := 0\<rparr> else s);
          sm1 = (if re_now e 3 - ps_RunningSince s > tenMinutes
                 then SetPluginState (re_now e 4) pluginId s1 sm else sm);
          s2 = s1\<lparr>ps_RestartBackOff :=
                 Duration_String (nat (sint (backOffTime ovf (ps_Restarts s1))))\<rparr>
      in SetPluginState (re_now e 5) pluginId s2 sm1)"

text \<open>From the return of the plugin to the next loop head; True when the loop is left.\<close>

definition endRun ::
  "64 word \<Rightarrow> string \<Rightarrow> string \<Rightarrow> run_env \<Rightarrow> PluginState \<Rightarrow> StateMap \<Rightarrow> StateMap \<times> bool" where
  "endRun ovf pluginId restartPolicy e s sm =
     (case re_err e of
        Some err \<Rightarrow>
          (let s1 = s\<lparr>ps_StatusMsg := err_Error err\<rparr> in
           if restartPolicy = RestartNever then
             (SetPluginState (re_now e 2) pluginId (s1\<lparr>ps_Status := StatusError\<rparr>) sm, True)
           else
             (let s2 = s1\<lparr>ps_Status := Restarting\<rparr> in
              (backOffPart ovf pluginId e s2 (SetPluginState (re_now e 2) pluginId s2 sm), False)))
      | None \<Rightarrow>
          (let s1 = s\<lparr>ps_StatusMsg := ''plugin exited with no error''\<rparr> in
           if restartPolicy = RestartNever \<or> restartPolicy = RestartOnError then
             (SetPluginState (re_now e 2) pluginId (s1\<lparr>ps_Status := NotRunning\<rparr>) sm, True)
           else
             (let s2 = s1\<lparr>ps_Status := Restarting\<rparr> in
              (backOffPart ovf pluginId e s2 (SetPluginState (re_now e 2) pluginId s2 sm), False))))"

definition startPluginRound ::
  "64 word \<Rightarrow> string \<Rightarrow> string \<Rightarrow> run_env \<Rightarrow> StateMap \<Rightarrow> StateMap \<times> bool" where
  "startPluginRound ovf pluginId restartPolicy e sm =
     (case GetPluginState pluginId sm of
        Inl _ \<Rightarrow> (sm, True)
      | Inr s \<Rightarrow> (case beginRun pluginId e s sm of (s1, sm1) \<Rightarrow> endRun ovf pluginId restartPolicy e s1 sm1))"

fun startPluginLoop ::
  "64 word \<Rightarrow> string \<Rightarrow> string \<Rightarrow> run_env list \<Rightarrow> StateMap \<Rightarrow> StateMap \<times> bool" where
  "startPluginLoop ovf pluginId restartPolicy [] sm = (sm, False)"
| "startPluginLoop ovf pluginId restartPolicy (e # es) sm =
     (if re_ctxDone e then (sm, True)
      else case startPluginRound ovf pluginId restartPolicy e sm of
        (sm1, True) \<Rightarrow> (sm1, True)
      | (sm1, False) \<Rightarrow> startPluginLoop ovf pluginId restartPolicy es sm1)"

definition StartPlugin ::
  "64 word \<Rightarrow> string \<Rightarrow> string \<Rightarrow> run_env list \<Rightarrow> StateMap \<Rightarrow> StateMap \<times> bool" where
  "StartPlugin ovf pluginId restartPolicy es sm =
     startPluginLoop ovf pluginId (if restartPolicy = [] then RestartAlways else restartPolicy) es sm"

section \<open>The back-off\<close>

text \<open>
  C16. Whatever the number of restarts and whatever the platform does with a float that is too
  big for an int64, the wait between two runs of a plugin is positive (a ticker with a
  non-positive period would panic) and at most five minutes.
\<close>

theorem backoff_bounds: "0 < sint (backOffTime ovf r) \<and> sint (backOffTime ovf r) \<le> sint maxBackOff"
  by (auto simp: backOffTime_def maxBackOff_def Let_def)

lemma sint_word_of_int_small: "0 \<le> x \<Longrightarrow> x < 2 ^ 63 \<Longrightarrow> sint (word_of_int x :: 64 word) = x"
  by (simp add: sint_uint uint_word_of_int_eq take_bit_int_eq_self signed_take_bit_int_eq_self)

lemma backOff_product:
  "r \<le> 59 \<Longrightarrow> floatToInt64 ovf (10 * 2 ^ r) * 1000000000 = word_of_int (10000000000 * 2 ^ r)"
proof -
  assume "r \<le> 59"
  then have "(2::int) ^ r \<le> 2 ^ 59" by (intro power_increasing) auto
  then have "floatToInt64 ovf (10 * 2 ^ r) = word_of_int (10 * 2 ^ r)"
    by (simp add: floatToInt64_def)
  then show ?thesis by (simp add: mult.commute flip: wi_hom_mult)
qed

text \<open>
  The documented back-off: after few restarts the wait is ten seconds doubled once per
  restart, capped at five minutes. This holds for the first 29 restarts in a row.
\<close>

theorem backoff_schedule:
  assumes "r \<le> 29"
  shows "sint (backOffTime ovf (int r)) = min (10 * 2 ^ r * second) (300 * second)"
proof -
  have "(2::int) ^ r \<le> 2 ^ 29" using assms by (intro power_increasing) auto
  then have "sint (word_of_int (10000000000 * 2 ^ r) :: 64 word) = 10000000000 * 2 ^ r"
    by (intro sint_word_of_int_small) simp_all
  with backOff_product[of r ovf] assms show ?thesis
    by (simp add: backOffTime_def maxBackOff_def second_def Let_def min_def)
qed

theorem backoff_schedule_witness: "sint (backOffTime 0 4) = 160 * second"
  using backoff_schedule[of 4 0] by (simp add: second_def)

text \<open>
  From the 53rd restart on the product is a multiple of \<open>2 ^ 63\<close>, so the 64-bit product is
  zero or the least integer; from the 60th on the float no longer fits. The two results of the
  conversion in the hypothesis are those of amd64 (the least int64) and arm64 (the greatest).
\<close>

lemma backOff_wraps:
  assumes "53 \<le> r" and "ovf = - (2 ^ 63) \<or> ovf = 2 ^ 63 - 1"
  shows "sint (floatToInt64 ovf (10 * 2 ^ r) * 1000000000) \<le> 0"
proof (cases "r \<le> 59")
  case True
  show ?thesis
  proof (cases "r = 53")
    case True
    then show ?thesis by (simp add: floatToInt64_def)
  next
    case False
    with assms(1) obtain k where "r = 54 + k" using le_Suc_ex[of 54 r] by auto
    then have "10000000000 * 2 ^ r = (2::int) ^ 64 * (9765625 * 2 ^ k)" by (simp add: power_add)
    moreover have "word_of_int (2 ^ 64 * x) = (0 :: 64 word)" for x
      by (simp only: word_of_int_eq_0_iff) simp
    ultimately have "word_of_int (10000000000 * 2 ^ r) = (0 :: 64 word)" by metis
    with backOff_product[OF \<open>r \<le> 59\<close>, of ovf] show ?thesis by simp
  qed
next
  case False
  then have "(2::int) ^ 60 \<le> 2 ^ r" by (intro power_increasing) auto
  then have "floatToInt64 ovf (10 * 2 ^ r) = ovf" by (simp add: floatToInt64_def)
  with assms(2) show ?thesis by auto
qed

text \<open>
  The cap is lost for a plugin that keeps failing: at 30 restarts, and from 53 restarts on
  for ever, the 64-bit product wraps around and the wait becomes one second.
\<close>

theorem backoff_collapses:
  assumes "r = 30 \<or> 53 \<le> r" and "ovf = - (2 ^ 63) \<or> ovf = 2 ^ 63 - 1"
  shows "sint (backOffTime ovf (int r)) = second"
proof -
  have "sint (floatToInt64 ovf (10 * 2 ^ r) * 1000000000) \<le> 0"
  proof (cases "r = 30")
    case False
    with assms show ?thesis by (intro backOff_wraps) auto
  qed (simp add: floatToInt64_def)
  then show ?thesis by (simp add: backOffTime_def maxBackOff_def second_def Let_def)
qed

theorem backoff_collapses_witness: "sint (backOffTime (2 ^ 63 - 1) 100) = second"
  using backoff_collapses[of 100 "2 ^ 63 - 1"] by simp

section \<open>The restart loop\<close>

text \<open>What the restart policies promise.\<close>

definition restartsAfter :: "string \<Rightarrow> err option \<Rightarrow> bool" where
  "restartsAfter policy e \<longleftrightarrow>
     policy \<noteq> RestartNever \<and> (policy = RestartOnError \<longrightarrow> e \<noteq> None)"

lemmas round_defs = startPluginRound_def beginRun_def endRun_def backOffPart_def

lemma round_frame:
  "q \<noteq> p \<Longrightarrow> stateOf (fst (startPluginRound ovf p policy e sm)) q = stateOf sm q"
  by (simp add: round_defs Let_def split: sum.split option.split)

lemma round_stops:
  "stateOf sm p = Some s \<Longrightarrow>
   snd (startPluginRound ovf p policy e sm) \<longleftrightarrow> \<not> restartsAfter policy (re_err e)"
  by (simp add: round_defs GetPluginState_def restartsAfter_def policy_defs Let_def split: option.split)

text \<open>The state of the plugin after a round that ends the loop and after one that does not.\<close>

definition finalState :: "PluginState \<Rightarrow> run_env \<Rightarrow> PluginState \<Rightarrow> bool" where
  "finalState s e s' \<longleftrightarrow>
     ps_Status s' = (if re_err e = None then NotRunning else StatusError) \<and>
     ps_StatusMsg s' = (case re_err e of None \<Rightarrow> ''plugin exited with no error'' | Some x \<Rightarrow> err_Error x) \<and>
     ps_TotalRestarts s' = ps_TotalRestarts s + 1 \<and> ps_Config s' = ps_Config s"

definition waitingState :: "64 word \<Rightarrow> PluginState \<Rightarrow> run_env \<Rightarrow> PluginState \<Rightarrow> bool" where
  "waitingState ovf s e s' \<longleftrightarrow>
     ps_Status s' = Restarting \<and>
     ps_TotalRestarts s' = ps_TotalRestarts s + 1 \<and> ps_Config s' = ps_Config s \<and>
     ps_Restarts s' = (if re_now e 3 - re_now e 0 > tenMinutes then 0 else ps_Restarts s + 1) \<and>
     ps_RestartBackOff s' = Duration_String (nat (sint (backOffTime ovf (ps_Restarts s'))))"

lemma round_result:
  assumes "stateOf sm p = Some s"
  obtains s' where "stateOf (fst (startPluginRound ovf p policy e sm)) p = Some s'"
    and "if restartsAfter policy (re_err e) then waitingState ovf s e s' else finalState s e s'"
proof (cases "re_err e")
  case None
  with assms that show ?thesis
    by (cases "restartsAfter policy None")
      (auto simp: round_defs GetPluginState_def restartsAfter_def policy_defs waitingState_def
        finalState_def Let_def)
next
  case (Some x)
  with assms that show ?thesis
    by (cases "restartsAfter policy (Some x)")
      (auto simp: round_defs GetPluginState_def restartsAfter_def policy_defs waitingState_def
        finalState_def Let_def)
qed

text \<open>Rounds after which the policy restarts the plugin, before the context is cancelled.\<close>

definition restartRounds :: "string \<Rightarrow> run_env list \<Rightarrow> bool" where
  "restartRounds policy es \<longleftrightarrow> list_all (\<lambda>e. \<not> re_ctxDone e \<and> restartsAfter policy (re_err e)) es"

lemma restartRounds_Cons [simp]:
  "restartRounds policy [] \<longleftrightarrow> True"
  "restartRounds policy (e # es) \<longleftrightarrow>
     \<not> re_ctxDone e \<and> restartsAfter policy (re_err e) \<and> restartRounds policy es"
  by (auto simp: restartRounds_def)

lemma loop_restarts:
  assumes "restartRounds policy es" and "stateOf sm p = Some s"
  obtains sm' s' where
    "\<And>rest. startPluginLoop ovf p policy (es @ rest) sm = startPluginLoop ovf p policy rest sm'"
    and "stateOf sm' p = Some s'"
    and "ps_TotalRestarts s' = ps_TotalRestarts s + int (length es)" and "ps_Config s' = ps_Config s"
    and "ps_Status s' = (if es = [] then ps_Status s else Restarting)"
  using assms
proof (induction es arbitrary: sm s thesis)
  case (Cons e es)
  let ?r = "startPluginRound ovf p policy e sm"
  have c: "\<not> re_ctxDone e" "restartsAfter policy (re_err e)" "restartRounds policy es"
    using Cons.prems(2) by auto
  obtain s1 where s1: "stateOf (fst ?r) p = Some s1" "waitingState ovf s e s1"
    using round_result[OF Cons.prems(3), of ovf policy e] c(2) by auto
  obtain sm' s' where ih:
    "\<And>rest. startPluginLoop ovf p policy (es @ rest) (fst ?r) = startPluginLoop ovf p policy rest sm'"
    "stateOf sm' p = Some s'" "ps_TotalRestarts s' = ps_TotalRestarts s1 + int (length es)"
    "ps_Config s' = ps_Config s1" "ps_Status s' = (if es = [] then ps_Status s1 else Restarting)"
    using Cons.IH[OF _ c(3) s1(1)] by metis
  have "startPluginLoop ovf p policy ((e # es) @ rest) sm = startPluginLoop ovf p policy rest sm'" for rest
    using c(1,2) ih(1) round_stops[OF Cons.prems(3), of ovf policy e] by (simp split: prod.split bool.split) (metis fst_conv snd_conv)
  moreover have "ps_TotalRestarts s' = ps_TotalRestarts s + int (length (e # es))"
    "ps_Config s' = ps_Config s" "ps_Status s' = Restarting"
    using ih(3-5) s1(2) by (simp_all add: waitingState_def)
  ultimately show ?case using Cons.prems(1) ih(2) by simp
qed simp

abbreviation effectivePolicy :: "string \<Rightarrow> string" where
  "effectivePolicy policy \<equiv> (if policy = [] then RestartAlways else policy)"

text \<open>
  C15. The restart policies. As long as the policy asks for a restart the starter runs the
  plugin once per round and counts every run; the first run after which it does not is the last
  one, whatever the later rounds would bring, and leaves the plugin's exit status in the table:
  an error with its text, or no error. \<open>never\<close> runs once, \<open>onError\<close> ends at the first run
  without an error.
\<close>

theorem restart_policy_obeyed:
  assumes "stateOf sm p = Some s" and "restartRounds (effectivePolicy policy) es"
    and "\<not> re_ctxDone e" and "\<not> restartsAfter (effectivePolicy policy) (re_err e)"
  shows "\<exists>s'. snd (StartPlugin ovf p policy (es @ e # rest) sm) \<and>
    stateOf (fst (StartPlugin ovf p policy (es @ e # rest) sm)) p = Some s' \<and>
    ps_TotalRestarts s' = ps_TotalRestarts s + int (length es) + 1 \<and>
    ps_Config s' = ps_Config s \<and>
    ps_Status s' = (if re_err e = None then NotRunning else StatusError)"
proof -
  obtain sm1 s1 where 1:
    "\<And>rest. startPluginLoop ovf p (effectivePolicy policy) (es @ rest) sm
       = startPluginLoop ovf p (effectivePolicy policy) rest sm1"
    "stateOf sm1 p = Some s1" "ps_TotalRestarts s1 = ps_TotalRestarts s + int (length es)"
    "ps_Config s1 = ps_Config s"
    using loop_restarts[OF assms(2,1), of ovf] by metis
  let ?r = "startPluginRound ovf p (effectivePolicy policy) e sm1"
  obtain s2 where 2: "stateOf (fst ?r) p = Some s2" "finalState s1 e s2"
    using round_result[OF 1(2), of ovf "effectivePolicy policy" e] assms(4) by auto
  have "StartPlugin ovf p policy (es @ e # rest) sm = (fst ?r, True)"
    using 1(1) assms(3,4) round_stops[OF 1(2), of ovf "effectivePolicy policy" e]
    by (cases ?r) (auto simp: StartPlugin_def split: bool.split)
  with 1 2 show ?thesis by (simp add: finalState_def)
qed

text \<open>
  Under \<open>always\<close>, and when no policy is given, the starter never gives up: as long as the
  context is not cancelled it is still running after any number of rounds, whatever the runs
  returned, with one run counted per round; when the context is cancelled it returns at the
  next loop head.
\<close>

theorem always_keeps_running:
  assumes "stateOf sm p = Some s" and "policy = [] \<or> policy = RestartAlways"
    and "list_all (\<lambda>e. \<not> re_ctxDone e) es" and "re_ctxDone e"
  shows "\<exists>sm' s'. StartPlugin ovf p policy es sm = (sm', False) \<and>
    StartPlugin ovf p policy (es @ e # rest) sm = (sm', True) \<and> stateOf sm' p = Some s' \<and>
    ps_TotalRestarts s' = ps_TotalRestarts s + int (length es)"
proof -
  have eff: "effectivePolicy policy = RestartAlways" using assms(2) by (auto simp: policy_defs)
  have "restartRounds RestartAlways es"
    using assms(3) by (simp add: restartRounds_def restartsAfter_def policy_defs)
  from loop_restarts[OF this assms(1), of ovf]
  obtain sm1 s1 where 1: "\<And>rest. startPluginLoop ovf p RestartAlways (es @ rest) sm
      = startPluginLoop ovf p RestartAlways rest sm1" "stateOf sm1 p = Some s1"
      "ps_TotalRestarts s1 = ps_TotalRestarts s + int (length es)"
    by metis
  from 1(1)[of "[]"] 1(1)[of "e # rest"] assms(4)
  have "StartPlugin ovf p policy es sm = (sm1, False)"
    "StartPlugin ovf p policy (es @ e # rest) sm = (sm1, True)"
    unfolding StartPlugin_def eff by simp_all
  with 1(2,3) show ?thesis by blast
qed

definition exampleRound :: "err option \<Rightarrow> run_env" where
  "exampleRound e = \<lparr>re_ctxDone = False, re_err = e, re_now = int\<rparr>"

definition exampleStates :: StateMap where
  "exampleStates = SetPluginState 0 ''dns/prod/pod-1/heart''
     (zeroPluginState\<lparr>ps_Restarts := -1, ps_TotalRestarts := -1\<rparr>) (NewStateMap zeroAgentConfig)"

lemma exampleStates_at [simp]:
  "stateOf exampleStates ''dns/prod/pod-1/heart'' =
     Some (zeroPluginState\<lparr>ps_Restarts := -1, ps_TotalRestarts := -1, ps_LastUpdated := 0\<rparr>)"
  by (simp add: exampleStates_def)

theorem restart_policy_obeyed_witness:
  "snd (StartPlugin 0 ''dns/prod/pod-1/heart'' RestartOnError
      [exampleRound (Some CtxDeadlineExceeded), exampleRound None, exampleRound None] exampleStates)"
  using restart_policy_obeyed[OF exampleStates_at, of RestartOnError
      "[exampleRound (Some CtxDeadlineExceeded)]" "exampleRound None" 0 "[exampleRound None]"]
  by (auto simp: exampleRound_def restartsAfter_def policy_defs)

theorem always_keeps_running_witness:
  "\<not> snd (StartPlugin 0 ''dns/prod/pod-1/heart'' []
      [exampleRound (Some CtxDeadlineExceeded), exampleRound None] exampleStates)"
  using always_keeps_running[OF exampleStates_at, of "[]"
      "[exampleRound (Some CtxDeadlineExceeded), exampleRound None]"
      "exampleRound None\<lparr>re_ctxDone := True\<rparr>" 0 "[]"]
  by (auto simp: exampleRound_def)

lemma round_local:
  "stateOf sm p = stateOf sm' p \<Longrightarrow>
   stateOf (fst (startPluginRound ovf p policy e sm)) p = stateOf (fst (startPluginRound ovf p policy e sm')) p"
  by (simp add: round_defs GetPluginState_def Let_def split: sum.split option.split)

text \<open>
  Starters of different plugins do not interfere: a starter changes the state of its own
  plugin only, and a round of one and a round of another give the same table in either order.
\<close>

theorem starters_independent:
  assumes "p \<noteq> q"
  shows "stateOf (fst (startPluginRound ovf p policy e (fst (startPluginRound ovf q policy' e' sm))))
       = stateOf (fst (startPluginRound ovf q policy' e' (fst (startPluginRound ovf p policy e sm)))) \<and>
    stateOf (fst (startPluginRound ovf p policy e sm)) q = stateOf sm q"
proof -
  have "stateOf (fst (startPluginRound ovf p policy e (fst (startPluginRound ovf q policy' e' sm)))) k
      = stateOf (fst (startPluginRound ovf q policy' e' (fst (startPluginRound ovf p policy e sm)))) k"
    for k
    using assms round_local round_frame by (cases "k = p"; cases "k = q") metis+
  with assms show ?thesis by (auto simp: round_frame)
qed

theorem starters_independent_witness:
  "stateOf (fst (startPluginRound 0 ''dns/prod/pod-2/heart'' RestartNever (exampleRound None) exampleStates))
     ''dns/prod/pod-1/heart'' = stateOf exampleStates ''dns/prod/pod-1/heart''"
  using starters_independent[of "''dns/prod/pod-2/heart''" "''dns/prod/pod-1/heart''"] by simp

end
