(* ===== verification/PluginManager.thy ===== *)
theory PluginManager
  imports Controller Lifecycle
begin

text \<open>
  The plugin manager of the agent (agent/pluginmanager/pluginManager.go): it starts and stops the
  tests of this agent to match the stored configurations, and cleans up on exit. A running test is
  a goroutine executing \<open>StartPlugin\<close>; stopping it cancels its context and waits, so what the
  routine still does to the state table is the effect of the rounds it completes until then
  (\<open>pe_rounds\<close>). A call of the nil cancel function of a missing entry is the outcome None.
\<close>

section \<open>State\<close>

text \<open>
  The entry of a test: the cancel function and the wait group are represented by the restart policy
  of the routine that was started, if one was.
\<close>

record AgentTest =
  at_config :: SynTestConfig
  at_version :: string
  at_routine :: "string option"

record PluginManager =
  pm_AgentId :: string
  pm_config :: AgentConfig
  pm_sm :: StateMap
  pm_SyntheticTests :: "(string \<times> AgentTest) list"

record pm_env =
  pe_ovf :: "64 word"
  pe_rounds :: "string \<Rightarrow> run_env list"
  pe_now :: "string \<Rightarrow> time"
  pe_SynTestNameMap :: "string list"

section \<open>Starting and stopping a test\<close>

definition runtimeInfo :: "PluginManager \<Rightarrow> gomap" where
  "runtimeInfo pm =
     (let info = ac_RunTimeInfo (pm_config pm);
          m = AList.update SpecialKeyAgentNs (ai_AgentNamespace info)
                (AList.update SpecialKeyPodName (ai_PodName info)
                (AList.update SpecialKeyAgentId (pm_AgentId pm)
                (AList.update SpecialKeyNodeName (ai_NodeName info) [])))
      in fold (\<lambda>(k, v). AList.update k v) (ai_PodLabels info) m)"

definition effectiveRestartPolicy :: "string \<Rightarrow> string" where
  "effectiveRestartPolicy p =
     (if p \<noteq> RestartAlways \<and> p \<noteq> RestartNever \<and> p \<noteq> RestartOnError then DefaultRestartPolicy else p)"

text \<open>The routine started for the test, and the manager with the state of its plugin set.\<close>

definition StartTestRoutine :: "pm_env \<Rightarrow> AgentTest \<Rightarrow> PluginManager \<Rightarrow> string option \<times> PluginManager" where
  "StartTestRoutine env t pm =
     (let config = (at_config t)\<lparr>stc_Runtime := runtimeInfo pm\<rparr>;
          synTestState = zeroPluginState\<lparr>ps_Status := StatusUnknown, ps_Config := config,
            ps_Restarts := -1, ps_TotalRestarts := -1\<rparr>;
          pluginId = ComputePluginId (stc_Name config) (stc_Namespace config) (pm_AgentId pm)
      in if stc_PluginName config \<in> set (pe_SynTestNameMap env)
         then (Some (effectiveRestartPolicy (stc_PluginRestartPolicy config)),
               pm\<lparr>pm_sm := SetPluginState (pe_now env pluginId) pluginId synTestState (pm_sm pm)\<rparr>)
         else (None,
               pm\<lparr>pm_sm := SetPluginState (pe_now env pluginId) pluginId
                 (synTestState\<lparr>ps_Status := StatusError,
                    ps_StatusMsg := ''couldn't find plugin: '' @ [CHR 0x27] @ stc_PluginName config @ [CHR 0x27]\<rparr>)
                 (pm_sm pm)\<rparr>))"

text \<open>Waiting for the routine of a test to return after its context was cancelled.\<close>

definition waitRoutine :: "pm_env \<Rightarrow> string \<Rightarrow> AgentTest \<Rightarrow> StateMap \<Rightarrow> StateMap" where
  "waitRoutine env pluginId t sm =
     (case at_routine t of
        None \<Rightarrow> sm
      | Some policy \<Rightarrow> fst (StartPlugin (pe_ovf env) pluginId policy (pe_rounds env pluginId) sm))"

definition StopAndDeleteSynTest ::
  "pm_env \<Rightarrow> 's SynHeartStore \<Rightarrow> string \<Rightarrow> PluginManager \<Rightarrow> 's \<Rightarrow> (PluginManager \<times> 's) option" where
  "StopAndDeleteSynTest env st testConfigId pm s =
     (case map_of (pm_SyntheticTests pm) testConfigId of
        None \<Rightarrow> None
      | Some t \<Rightarrow>
          (let pluginId = ComputePluginId (stc_Name (at_config t)) (stc_Namespace (at_config t)) (pm_AgentId pm);
               sm = DeletePluginState pluginId (waitRoutine env pluginId t (pm_sm pm))
           in Some (pm\<lparr>pm_sm := sm, pm_SyntheticTests := AList.delete testConfigId (pm_SyntheticTests pm)\<rparr>,
                    snd (st_DeleteAllTestRunInfo st pluginId s))))"

section \<open>Synchronising with the stored configurations\<close>

fun stopMissing :: "pm_env \<Rightarrow> 's SynHeartStore \<Rightarrow> (string \<times> SyntestConfigSummary) list \<Rightarrow> string list
    \<Rightarrow> PluginManager \<Rightarrow> 's \<Rightarrow> bool \<Rightarrow> (PluginManager \<times> 's \<times> bool) option" where
  "stopMissing env st latest [] pm s changed = Some (pm, s, changed)"
| "stopMissing env st latest (testConfigId # ids) pm s changed =
     (if map_of latest testConfigId = None
      then (case StopAndDeleteSynTest env st testConfigId pm s of
              None \<Rightarrow> None
            | Some (pm, s) \<Rightarrow> stopMissing env st latest ids pm s True)
      else stopMissing env st latest ids pm s changed)"

definition syncOne :: "pm_env \<Rightarrow> 's SynHeartStore \<Rightarrow> string \<Rightarrow> SyntestConfigSummary
    \<Rightarrow> PluginManager \<Rightarrow> 's \<Rightarrow> bool \<Rightarrow> (PluginManager \<times> 's \<times> bool) option" where
  "syncOne env st testConfigId summary pm s changed =
     (let old = map_of (pm_SyntheticTests pm) testConfigId; latestVersion = sum_Version summary in
      if (case old of None \<Rightarrow> False | Some t \<Rightarrow> at_version t = latestVersion) then Some (pm, s, changed)
      else case st_FetchTestConfig st testConfigId s of
        (Inl e, s) \<Rightarrow> Some (pm, s, changed)
      | (Inr latest, s) \<Rightarrow>
          (case (if old \<noteq> None then map_option (\<lambda>(pm, s). (pm, s, True)) (StopAndDeleteSynTest env st testConfigId pm s)
                 else Some (pm, s, changed)) of
             None \<Rightarrow> None
           | Some (pm, s, changed) \<Rightarrow>
               (case IsAgentValidForSynTest (pm_config pm) (pm_AgentId pm) (stc_Name latest) (stc_Namespace latest)
                       (stc_NodeSelector latest) (stc_PodLabelSelector latest) (stc_Labels latest) of
                  Inl e \<Rightarrow> Some (pm, s, changed)
                | Inr valid \<Rightarrow>
                    if valid then
                      (let t = \<lparr>at_config = latest, at_version = latestVersion, at_routine = None\<rparr>;
                           (routine, pm1) = StartTestRoutine env t pm
                       in Some (pm1\<lparr>pm_SyntheticTests :=
                                 AList.update testConfigId (t\<lparr>at_routine := routine\<rparr>) (pm_SyntheticTests pm1)\<rparr>,
                                s, True))
                    else Some (pm, s, changed))))"

fun syncLatest :: "pm_env \<Rightarrow> 's SynHeartStore \<Rightarrow> (string \<times> SyntestConfigSummary) list
    \<Rightarrow> PluginManager \<Rightarrow> 's \<Rightarrow> bool \<Rightarrow> (PluginManager \<times> 's \<times> bool) option" where
  "syncLatest env st [] pm s changed = Some (pm, s, changed)"
| "syncLatest env st ((testConfigId, summary) # rest) pm s changed =
     (case syncOne env st testConfigId summary pm s changed of
        None \<Rightarrow> None
      | Some (pm, s, changed) \<Rightarrow> syncLatest env st rest pm s changed)"

definition SyncSyntestPluginConfigs ::
  "pm_env \<Rightarrow> 's SynHeartStore \<Rightarrow> PluginManager \<Rightarrow> 's \<Rightarrow> ((bool \<times> err option) \<times> PluginManager \<times> 's) option" where
  "SyncSyntestPluginConfigs env st pm s =
     (case st_FetchAllTestConfigSummary st s of
        (Inl e, s) \<Rightarrow> Some ((False, Some e), pm, s)
      | (Inr latest, s) \<Rightarrow>
          (case stopMissing env st latest (map fst (pm_SyntheticTests pm)) pm s False of
             None \<Rightarrow> None
           | Some (pm, s, changed) \<Rightarrow>
               (case syncLatest env st latest pm s changed of
                  None \<Rightarrow> None
                | Some (pm, s, changed) \<Rightarrow> Some ((changed, None), pm, s))))"

definition SyncConfig ::
  "pm_env \<Rightarrow> 's SynHeartStore \<Rightarrow> PluginManager \<Rightarrow> 's \<Rightarrow> ((bool \<times> err option) \<times> PluginManager \<times> 's) option" where
  "SyncConfig env st pm s =
     map_option (\<lambda>((changed, e), p). ((changed, errors_Wrap e ''error syncing syntest configs''), p))
       (SyncSyntestPluginConfigs env st pm s)"

section \<open>Leaving\<close>

fun stopAll :: "pm_env \<Rightarrow> 's SynHeartStore \<Rightarrow> string list \<Rightarrow> PluginManager \<Rightarrow> 's \<Rightarrow> (PluginManager \<times> 's) option" where
  "stopAll env st [] pm s = Some (pm, s)"
| "stopAll env st (i # ids) pm s =
     (case StopAndDeleteSynTest env st i pm s of None \<Rightarrow> None | Some (pm, s) \<Rightarrow> stopAll env st ids pm s)"

definition cleanupAndUnregister ::
  "pm_env \<Rightarrow> 's SynHeartStore \<Rightarrow> PluginManager \<Rightarrow> 's \<Rightarrow> (PluginManager \<times> 's) option" where
  "cleanupAndUnregister env st pm s =
     (case stopAll env st (map fst (pm_SyntheticTests pm)) pm s of
        None \<Rightarrow> None
      | Some (pm, s) \<Rightarrow>
          (let s1 = snd (st_DeleteAgentStatus st (pm_AgentId pm) s);
               s2 = snd (st_NewAgentEvent st (''exiting agent: '' @ pm_AgentId pm) s1)
           in Some (pm, s2)))"

section \<open>Stopping a test\<close>

lemma startPluginLoop_frame:
  "q \<noteq> p \<Longrightarrow> stateOf (fst (startPluginLoop ovf p policy es sm)) q = stateOf sm q"
proof (induction es arbitrary: sm)
  case (Cons e es)
  obtain sm1 b where r: "startPluginRound ovf p policy e sm = (sm1, b)" by (cases "startPluginRound ovf p policy e sm")
  then have "stateOf sm1 q = stateOf sm q" using round_frame[OF Cons.prems, of ovf policy e sm] by simp
  with Cons r show ?case by (cases b) auto
qed simp

lemma waitRoutine_frame: "q \<noteq> p \<Longrightarrow> stateOf (waitRoutine env p t sm) q = stateOf sm q"
  by (auto simp: waitRoutine_def StartPlugin_def startPluginLoop_frame split: option.splits)

abbreviation pidOf :: "PluginManager \<Rightarrow> AgentTest \<Rightarrow> string" where
  "pidOf pm t \<equiv> ComputePluginId (stc_Name (at_config t)) (stc_Namespace (at_config t)) (pm_AgentId pm)"

abbreviation testOf :: "PluginManager \<Rightarrow> string \<Rightarrow> AgentTest option" where
  "testOf pm \<equiv> map_of (pm_SyntheticTests pm)"

text \<open>What does not change when tests are started and stopped.\<close>

definition sameAgent :: "PluginManager \<Rightarrow> PluginManager \<Rightarrow> bool" where
  "sameAgent pm pm' \<longleftrightarrow> pm_AgentId pm' = pm_AgentId pm \<and> pm_config pm' = pm_config pm"

lemma sameAgent_refl [simp]: "sameAgent pm pm"
  by (simp add: sameAgent_def)

lemma sameAgent_trans: "sameAgent a b \<Longrightarrow> sameAgent b c \<Longrightarrow> sameAgent a c"
  by (simp add: sameAgent_def)

definition sameConfigs :: "('s \<Rightarrow> bool) \<Rightarrow> ('s \<Rightarrow> store_view) \<Rightarrow> 's \<Rightarrow> 's \<Rightarrow> bool" where
  "sameConfigs ok view s s' \<longleftrightarrow> ok s' \<and> v_cfg (view s') = v_cfg (view s) \<and> v_sum (view s') = v_sum (view s) \<and>
     v_agents (view s') = v_agents (view s)"

lemma sameConfigs_trans: "sameConfigs ok view a b \<Longrightarrow> sameConfigs ok view b c \<Longrightarrow> sameConfigs ok view a c"
  by (simp add: sameConfigs_def)

context reliable_store begin

lemma stop_test:
  assumes "inv s" and t: "testOf pm i = Some t" and "gwf (pm_SyntheticTests pm)"
  obtains pm' s' where "StopAndDeleteSynTest env st i pm s = Some (pm', s')" "sameAgent pm pm'"
    "gwf (pm_SyntheticTests pm')" "testOf pm' = (testOf pm)(i := None)" "sameConfigs inv view s s'"
    "stateOf (pm_sm pm') (pidOf pm t) = None" "v_runStatus (view s') (pidOf pm t) = None"
    "\<forall>q. q \<noteq> pidOf pm t \<longrightarrow> stateOf (pm_sm pm') q = stateOf (pm_sm pm) q"
    "\<forall>q. q \<noteq> pidOf pm t \<longrightarrow> v_runStatus (view s') q = v_runStatus (view s) q"
proof -
  let ?p = "pidOf pm t"
  let ?s = "snd (st_DeleteAllTestRunInfo st ?p s)"
  obtain res s' where d: "st_DeleteAllTestRunInfo st ?p s = (res, s')" by (cases "st_DeleteAllTestRunInfo st ?p s")
  note law = delete_run_info[OF assms(1) d]
  note off = offPlugin_other[OF law[THEN conjunct2, THEN conjunct1]]
  show ?thesis
  proof (rule that)
    show "StopAndDeleteSynTest env st i pm s = Some (pm\<lparr>pm_sm := DeletePluginState ?p (waitRoutine env ?p t (pm_sm pm)),
        pm_SyntheticTests := AList.delete i (pm_SyntheticTests pm)\<rparr>, s')"
      using t d by (simp add: StopAndDeleteSynTest_def Let_def)
    show "sameConfigs inv view s s'" using law off by (simp add: sameConfigs_def)
    show "v_runStatus (view s') ?p = None" using delete_run_info_total[OF assms(1), of ?p] d by simp
    show "\<forall>q. q \<noteq> ?p \<longrightarrow> v_runStatus (view s') q = v_runStatus (view s) q" using off(1) by blast
  qed (use assms(3) waitRoutine_frame in \<open>auto simp: sameAgent_def\<close>)
qed

section \<open>One pass\<close>

lemma stopMissing_exact:
  assumes "inv s" "gwf (pm_SyntheticTests pm)" "distinct ids" "set ids \<subseteq> dom (testOf pm)"
  shows "\<exists>pm' s' ch'. stopMissing env st latest ids pm s ch = Some (pm', s', ch') \<and> sameAgent pm pm' \<and>
    gwf (pm_SyntheticTests pm') \<and> sameConfigs inv view s s' \<and>
    (\<forall>j. testOf pm' j = (if j \<in> set ids \<and> map_of latest j = None then None else testOf pm j))"
  using assms
proof (induction ids arbitrary: pm s ch)
  case Nil
  then show ?case by (simp add: sameConfigs_def)
next
  case (Cons i ids)
  show ?case
  proof (cases "map_of latest i = None")
    case True
    from Cons.prems obtain t where t: "testOf pm i = Some t" by auto
    obtain pm1 s1 where 1: "StopAndDeleteSynTest env st i pm s = Some (pm1, s1)" "sameAgent pm pm1"
      "gwf (pm_SyntheticTests pm1)" "testOf pm1 = (testOf pm)(i := None)" "sameConfigs inv view s s1"
      by (rule stop_test[OF Cons.prems(1) t Cons.prems(2)])
    have "inv s1" "set ids \<subseteq> dom (testOf pm1)" "distinct ids"
      using 1 Cons.prems by (auto simp: sameConfigs_def)
    from Cons.IH[OF this(1) 1(3) this(3,2), of True] obtain pm2 s2 ch2 where
      2: "stopMissing env st latest ids pm1 s1 True = Some (pm2, s2, ch2)" "sameAgent pm1 pm2"
        "gwf (pm_SyntheticTests pm2)" "sameConfigs inv view s1 s2"
        "\<forall>j. testOf pm2 j = (if j \<in> set ids \<and> map_of latest j = None then None else testOf pm1 j)"
      by blast
    have "stopMissing env st latest (i # ids) pm s ch = Some (pm2, s2, ch2)" using True 1(1) 2(1) by simp
    moreover have "\<forall>j. testOf pm2 j = (if j \<in> set (i # ids) \<and> map_of latest j = None then None else testOf pm j)"
      using 2(5) 1(4) True by simp
    ultimately show ?thesis using 2(3) sameAgent_trans[OF 1(2) 2(2)] sameConfigs_trans[OF 1(5) 2(4)] by blast
  next
    case False
    from Cons.IH[OF Cons.prems(1,2), of ch] Cons.prems obtain pm2 s2 ch2 where
      "stopMissing env st latest ids pm s ch = Some (pm2, s2, ch2)" "sameAgent pm pm2"
        "gwf (pm_SyntheticTests pm2)" "sameConfigs inv view s s2"
        "\<forall>j. testOf pm2 j = (if j \<in> set ids \<and> map_of latest j = None then None else testOf pm j)"
      by auto
    with False show ?thesis by auto
  qed
qed

end

text \<open>What a pass makes of the entry of one stored configuration.\<close>

abbreviation runsHere :: "PluginManager \<Rightarrow> SynTestConfig \<Rightarrow> bool" where
  "runsHere pm c \<equiv> IsAgentValidForSynTest (pm_config pm) (pm_AgentId pm) (stc_Name c) (stc_Namespace c)
     (stc_NodeSelector c) (stc_PodLabelSelector c) (stc_Labels c) = Inr True"

definition syncedEntry :: "PluginManager \<Rightarrow> SynTestConfig option \<Rightarrow> string \<Rightarrow> AgentTest option \<Rightarrow> AgentTest option \<Rightarrow> bool" where
  "syncedEntry pm stored version old new \<longleftrightarrow>
     (if (\<exists>t. old = Some t \<and> at_version t = version) \<or> stored = None then new = old
      else if runsHere pm (the stored)
      then \<exists>r. new = Some \<lparr>at_config = the stored, at_version = version, at_routine = r\<rparr>
      else new = None)"

lemma syncedEntry_same: "sameAgent pm pm' \<Longrightarrow> syncedEntry pm' c x old new = syncedEntry pm c x old new"
  by (simp only: syncedEntry_def sameAgent_def)

context reliable_store begin

text \<open>A test that runs with another version is stopped first; a test that does not run is left out.\<close>

lemma stop_old:
  assumes "inv s" "gwf (pm_SyntheticTests pm)"
  obtains pm1 s1 ch1 where "(if testOf pm i \<noteq> None
      then map_option (\<lambda>(pm, s). (pm, s, True)) (StopAndDeleteSynTest env st i pm s) else Some (pm, s, ch)) = Some (pm1, s1, ch1)"
    "sameAgent pm pm1" "gwf (pm_SyntheticTests pm1)" "testOf pm1 = (testOf pm)(i := None)" "sameConfigs inv view s s1"
proof (cases "testOf pm i")
  case None
  then have "testOf pm = (testOf pm)(i := None)" by (simp add: fun_upd_idem)
  with None that[of pm s ch] assms show thesis by (simp add: sameConfigs_def)
next
  case (Some t)
  obtain pm1 s1 where "StopAndDeleteSynTest env st i pm s = Some (pm1, s1)" "sameAgent pm pm1"
    "gwf (pm_SyntheticTests pm1)" "testOf pm1 = (testOf pm)(i := None)" "sameConfigs inv view s s1"
    by (rule stop_test[OF assms(1) Some assms(2)])
  with that[of pm1 s1 True] Some show thesis by simp
qed

lemma StartTestRoutine_keeps:
  "StartTestRoutine env t pm = (rt, pm') \<Longrightarrow> pm_SyntheticTests pm' = pm_SyntheticTests pm \<and> sameAgent pm pm'"
  by (auto simp: StartTestRoutine_def Let_def sameAgent_def split: if_splits)

lemma syncOne_exact:
  assumes "inv s" "gwf (pm_SyntheticTests pm)"
  shows "\<exists>pm' s' ch'. syncOne env st i sm pm s ch = Some (pm', s', ch') \<and> sameAgent pm pm' \<and>
    gwf (pm_SyntheticTests pm') \<and> sameConfigs inv view s s' \<and> (\<forall>j. j \<noteq> i \<longrightarrow> testOf pm' j = testOf pm j) \<and>
    syncedEntry pm (v_cfg (view s) i) (sum_Version sm) (testOf pm i) (testOf pm' i)"
proof (cases "\<exists>t. testOf pm i = Some t \<and> at_version t = sum_Version sm")
  case True
  with assms show ?thesis by (auto simp: syncOne_def syncedEntry_def sameConfigs_def)
next
  case new: False
  then have nv: "(case testOf pm i of None \<Rightarrow> False | Some t \<Rightarrow> at_version t = sum_Version sm) = False"
    by (auto split: option.splits)
  obtain f s1 where f: "st_FetchTestConfig st i s = (f, s1)" by (cases "st_FetchTestConfig st i s")
  have f': "f = (case v_cfg (view s) i of None \<Rightarrow> Inl ErrNotFound | Some c \<Rightarrow> Inr c)"
    using fetch_config_total[OF assms(1), of i] f by simp
  have s1: "sameConfigs inv view s s1" "inv s1" using fetch_config[OF assms(1) f] by (auto simp: sameConfigs_def)
  show ?thesis
  proof (cases "v_cfg (view s) i")
    case None
    with new nv f f' s1 assms(2) show ?thesis by (simp add: syncOne_def syncedEntry_def)
  next
    case (Some c)
    obtain pm1 s2 ch1 where 1: "(if testOf pm i \<noteq> None
        then map_option (\<lambda>(pm, s). (pm, s, True)) (StopAndDeleteSynTest env st i pm s1) else Some (pm, s1, ch)) = Some (pm1, s2, ch1)"
      "sameAgent pm pm1" "gwf (pm_SyntheticTests pm1)" "testOf pm1 = (testOf pm)(i := None)" "sameConfigs inv view s1 s2"
      by (rule stop_old[OF s1(2) assms(2)])
    have ag: "pm_config pm1 = pm_config pm" "pm_AgentId pm1 = pm_AgentId pm" using 1(2) by (auto simp: sameAgent_def)
    note sc = sameConfigs_trans[OF s1(1) 1(5)]
    let ?valid = "IsAgentValidForSynTest (pm_config pm) (pm_AgentId pm) (stc_Name c) (stc_Namespace c)
       (stc_NodeSelector c) (stc_PodLabelSelector c) (stc_Labels c)"
    have eq: "syncOne env st i sm pm s ch =
        (case ?valid of
           Inl e \<Rightarrow> Some (pm1, s2, ch1)
         | Inr valid \<Rightarrow>
             if valid then
               (let t = \<lparr>at_config = c, at_version = sum_Version sm, at_routine = None\<rparr>;
                    (routine, pm2) = StartTestRoutine env t pm1
                in Some (pm2\<lparr>pm_SyntheticTests := AList.update i (t\<lparr>at_routine := routine\<rparr>) (pm_SyntheticTests pm2)\<rparr>, s2, True))
             else Some (pm1, s2, ch1))"
      unfolding syncOne_def Let_def nv if_False f prod.case f' Some option.case sum.case 1(1) ag by (rule refl)
    show ?thesis
    proof (cases "?valid = Inr True")
      case False
      then have "syncOne env st i sm pm s ch = Some (pm1, s2, ch1)" unfolding eq by (auto split: sum.splits)
      with 1 sc new Some False show ?thesis by (auto simp: syncedEntry_def)
    next
      case True
      let ?t = "\<lparr>at_config = c, at_version = sum_Version sm, at_routine = None\<rparr>"
      obtain rt pm2 where st: "StartTestRoutine env ?t pm1 = (rt, pm2)" by (cases "StartTestRoutine env ?t pm1")
      from StartTestRoutine_keeps[OF st] have pm2: "pm_SyntheticTests pm2 = pm_SyntheticTests pm1" "sameAgent pm1 pm2" by simp_all
      have "syncOne env st i sm pm s ch = Some (pm2\<lparr>pm_SyntheticTests := AList.update i (?t\<lparr>at_routine := rt\<rparr>) (pm_SyntheticTests pm2)\<rparr>, s2, True)"
        unfolding eq using True st by simp
      with 1 sc new Some True pm2 sameAgent_trans[OF 1(2) pm2(2)] show ?thesis
        by (auto simp: syncedEntry_def sameAgent_def)
    qed
  qed
qed

lemma syncLatest_exact:
  assumes "inv s" "gwf (pm_SyntheticTests pm)" "gwf latest"
  shows "\<exists>pm' s' ch'. syncLatest env st latest pm s ch = Some (pm', s', ch') \<and> sameAgent pm pm' \<and>
    gwf (pm_SyntheticTests pm') \<and> sameConfigs inv view s s' \<and>
    (\<forall>j. case map_of latest j of None \<Rightarrow> testOf pm' j = testOf pm j
       | Some sm \<Rightarrow> syncedEntry pm (v_cfg (view s) j) (sum_Version sm) (testOf pm j) (testOf pm' j))"
  using assms
proof (induction latest arbitrary: pm s ch)
  case Nil
  then show ?case by (simp add: sameConfigs_def)
next
  case (Cons p latest)
  obtain i sm where p: "p = (i, sm)" by (cases p)
  have g: "gwf latest" "map_of latest i = None" using Cons.prems(3) p by (auto simp: gwf_def map_of_eq_None_iff)
  obtain pm1 s1 ch1 where 1: "syncOne env st i sm pm s ch = Some (pm1, s1, ch1)" "sameAgent pm pm1"
    "gwf (pm_SyntheticTests pm1)" "sameConfigs inv view s s1" "\<forall>j. j \<noteq> i \<longrightarrow> testOf pm1 j = testOf pm j"
    "syncedEntry pm (v_cfg (view s) i) (sum_Version sm) (testOf pm i) (testOf pm1 i)"
    using syncOne_exact[OF Cons.prems(1,2)] by blast
  have "inv s1" using 1(4) by (simp add: sameConfigs_def)
  from Cons.IH[OF this 1(3) g(1)] obtain pm2 s2 ch2 where
    2: "syncLatest env st latest pm1 s1 ch1 = Some (pm2, s2, ch2)" "sameAgent pm1 pm2" "sameConfigs inv view s1 s2"
      "gwf (pm_SyntheticTests pm2)" "\<forall>j. case map_of latest j of None \<Rightarrow> testOf pm2 j = testOf pm1 j
         | Some sm \<Rightarrow> syncedEntry pm1 (v_cfg (view s1) j) (sum_Version sm) (testOf pm1 j) (testOf pm2 j)"
    by blast
  note ent = syncedEntry_same[OF 1(2)]
  have "case map_of (p # latest) j of None \<Rightarrow> testOf pm2 j = testOf pm j
      | Some sm \<Rightarrow> syncedEntry pm (v_cfg (view s) j) (sum_Version sm) (testOf pm j) (testOf pm2 j)" for j
  proof (cases "j = i")
    case True
    then have "testOf pm2 i = testOf pm1 i" using 2(5)[rule_format, of i] g(2) by simp
    with True p 1(6) show ?thesis by simp
  next
    case False
    have "v_cfg (view s1) = v_cfg (view s)" using 1(4) by (simp add: sameConfigs_def)
    with False p 1(5) 2(5)[rule_format, of j] ent show ?thesis by (auto split: option.splits)
  qed
  moreover have "syncLatest env st (p # latest) pm s ch = Some (pm2, s2, ch2)" using p 1(1) 2(1) by simp
  ultimately show ?case using 2(4) sameAgent_trans[OF 1(2) 2(2)] sameConfigs_trans[OF 1(4) 2(3)] by blast
qed

lemma sync_exact:
  assumes "inv s" "gwf (pm_SyntheticTests pm)"
  shows "\<exists>ch pm' s'. SyncSyntestPluginConfigs env st pm s = Some ((ch, None), pm', s') \<and> sameAgent pm pm' \<and>
    gwf (pm_SyntheticTests pm') \<and> sameConfigs inv view s s' \<and>
    (\<forall>j. case v_sum (view s) j of None \<Rightarrow> testOf pm' j = None
       | Some sm \<Rightarrow> syncedEntry pm (v_cfg (view s) j) (sum_Version sm) (testOf pm j) (testOf pm' j))"
proof -
  obtain m s1 where f: "st_FetchAllTestConfigSummary st s = (Inr m, s1)"
    using fetch_summaries_total[OF assms(1)] by (metis prod.collapse)
  have s1: "sameConfigs inv view s s1" "inv s1" and m: "gwf m" "map_of m = v_sum (view s)"
    using fetch_summaries[OF assms(1) f] by (auto simp: sameConfigs_def)
  let ?ids = "map fst (pm_SyntheticTests pm)"
  have ids: "distinct ?ids" "set ?ids \<subseteq> dom (testOf pm)" using assms(2) by (auto simp: gwf_def dom_map_of_conv_image_fst)
  from stopMissing_exact[OF s1(2) assms(2) ids] obtain pm1 s2 ch1 where
    1: "stopMissing env st m ?ids pm s1 False = Some (pm1, s2, ch1)" "sameAgent pm pm1" "gwf (pm_SyntheticTests pm1)"
      "sameConfigs inv view s1 s2" "\<forall>j. testOf pm1 j = (if j \<in> set ?ids \<and> map_of m j = None then None else testOf pm j)"
    by blast
  have "inv s2" using 1(4) by (simp add: sameConfigs_def)
  from syncLatest_exact[OF this 1(3) m(1)] obtain pm2 s3 ch2 where
    2: "syncLatest env st m pm1 s2 ch1 = Some (pm2, s3, ch2)" "sameAgent pm1 pm2" "sameConfigs inv view s2 s3"
      "gwf (pm_SyntheticTests pm2)" "\<forall>j. case map_of m j of None \<Rightarrow> testOf pm2 j = testOf pm1 j
         | Some sm \<Rightarrow> syncedEntry pm1 (v_cfg (view s2) j) (sum_Version sm) (testOf pm1 j) (testOf pm2 j)"
    by blast
  have "SyncSyntestPluginConfigs env st pm s = Some ((ch2, None), pm2, s3)"
    using f 1(1) 2(1) by (simp add: SyncSyntestPluginConfigs_def)
  moreover have "sameAgent pm pm2" by (rule sameAgent_trans[OF 1(2) 2(2)])
  moreover have "sameConfigs inv view s s3" by (rule sameConfigs_trans[OF s1(1) sameConfigs_trans[OF 1(4) 2(3)]])
  moreover have "case v_sum (view s) j of None \<Rightarrow> testOf pm2 j = None
       | Some sm \<Rightarrow> syncedEntry pm (v_cfg (view s) j) (sum_Version sm) (testOf pm j) (testOf pm2 j)" for j
  proof -
    have "j \<in> set ?ids \<longleftrightarrow> testOf pm j \<noteq> None" by (simp add: map_of_eq_None_iff)
    then have "testOf pm1 j = (if v_sum (view s) j = None then None else testOf pm j)" using 1(5) m(2) by auto
    moreover have "v_cfg (view s2) = v_cfg (view s)" using s1(1) 1(4) by (simp add: sameConfigs_def)
    ultimately show ?thesis
      using 2(5)[rule_format, of j] m(2) syncedEntry_same[OF 1(2)] by (auto split: option.splits)
  qed
  ultimately show ?thesis using 2(4) by blast
qed

lemma stopAll_exact:
  assumes "inv s" "gwf (pm_SyntheticTests pm)" "distinct ids" "set ids = dom (testOf pm)"
  shows "\<exists>pm' s'. stopAll env st ids pm s = Some (pm', s') \<and> sameAgent pm pm' \<and> sameConfigs inv view s s' \<and>
    testOf pm' = Map.empty \<and>
    (\<forall>q. stateOf (pm_sm pm) q = None \<longrightarrow> stateOf (pm_sm pm') q = None) \<and>
    (\<forall>q. v_runStatus (view s) q = None \<longrightarrow> v_runStatus (view s') q = None) \<and>
    (\<forall>i t. testOf pm i = Some t \<longrightarrow> stateOf (pm_sm pm') (pidOf pm t) = None \<and> v_runStatus (view s') (pidOf pm t) = None)"
  using assms
proof (induction ids arbitrary: pm s)
  case Nil
  then have "testOf pm = Map.empty" by (metis dom_eq_empty_conv list.set(1))
  with Nil show ?case by (simp add: sameConfigs_def)
next
  case (Cons i ids)
  from Cons.prems(4) obtain t where t: "testOf pm i = Some t" by (auto simp: dom_def)
  obtain pm1 s1 where 1: "StopAndDeleteSynTest env st i pm s = Some (pm1, s1)" "sameAgent pm pm1"
    "gwf (pm_SyntheticTests pm1)" "testOf pm1 = (testOf pm)(i := None)" "sameConfigs inv view s s1"
    "stateOf (pm_sm pm1) (pidOf pm t) = None" "v_runStatus (view s1) (pidOf pm t) = None"
    "\<forall>q. q \<noteq> pidOf pm t \<longrightarrow> stateOf (pm_sm pm1) q = stateOf (pm_sm pm) q"
    "\<forall>q. q \<noteq> pidOf pm t \<longrightarrow> v_runStatus (view s1) q = v_runStatus (view s) q"
    by (rule stop_test[OF Cons.prems(1) t Cons.prems(2)])
  have "inv s1" "distinct ids" "set ids = dom (testOf pm1)"
    using 1(4,5) Cons.prems(3,4) by (auto simp: sameConfigs_def)
  from Cons.IH[OF this(1) 1(3) this(2,3)] obtain pm2 s2 where
    2: "stopAll env st ids pm1 s1 = Some (pm2, s2)" "sameAgent pm1 pm2" "sameConfigs inv view s1 s2" "testOf pm2 = Map.empty"
      "\<forall>q. stateOf (pm_sm pm1) q = None \<longrightarrow> stateOf (pm_sm pm2) q = None"
      "\<forall>q. v_runStatus (view s1) q = None \<longrightarrow> v_runStatus (view s2) q = None"
      "\<forall>i t. testOf pm1 i = Some t \<longrightarrow> stateOf (pm_sm pm2) (pidOf pm1 t) = None \<and> v_runStatus (view s2) (pidOf pm1 t) = None"
    by blast
  have keep: "stateOf (pm_sm pm) q = None \<longrightarrow> stateOf (pm_sm pm2) q = None"
    "v_runStatus (view s) q = None \<longrightarrow> v_runStatus (view s2) q = None" for q
    using 1(6-9) 2(5,6) by metis+
  have "stateOf (pm_sm pm2) (pidOf pm u) = None \<and> v_runStatus (view s2) (pidOf pm u) = None"
    if "testOf pm j = Some u" for j u
  proof (cases "j = i")
    case True
    with that t 1(6,7) 2(5,6) show ?thesis by auto
  next
    case False
    with that 1(4) have "testOf pm1 j = Some u" by simp
    from 2(7)[rule_format, OF this] 1(2) show ?thesis by (simp add: sameAgent_def)
  qed
  with keep 1(1) 2(1,4) sameAgent_trans[OF 1(2) 2(2)] sameConfigs_trans[OF 1(5) 2(3)] show ?case by auto
qed

lemma cleanup_exact:
  assumes "inv s" and "gwf (pm_SyntheticTests pm)"
  shows "\<exists>pm' s'. cleanupAndUnregister env st pm s = Some (pm', s') \<and> sameAgent pm pm' \<and> testOf pm' = Map.empty \<and>
    inv s' \<and> v_agents (view s') = (v_agents (view s))(pm_AgentId pm := None) \<and>
    (\<forall>i t. testOf pm i = Some t \<longrightarrow> stateOf (pm_sm pm') (pidOf pm t) = None \<and> v_runStatus (view s') (pidOf pm t) = None)"
proof -
  let ?ids = "map fst (pm_SyntheticTests pm)"
  have ids: "distinct ?ids" "set ?ids = dom (testOf pm)" using assms(2) by (auto simp: gwf_def dom_map_of_conv_image_fst)
  obtain pm1 s1 where 1: "stopAll env st ?ids pm s = Some (pm1, s1)" "sameAgent pm pm1" "sameConfigs inv view s s1"
    "testOf pm1 = Map.empty"
    "\<forall>i t. testOf pm i = Some t \<longrightarrow> stateOf (pm_sm pm1) (pidOf pm t) = None \<and> v_runStatus (view s1) (pidOf pm t) = None"
    using stopAll_exact[OF assms ids] by blast
  have ok1: "inv s1" "v_agents (view s1) = v_agents (view s)" and pm1: "pm_AgentId pm1 = pm_AgentId pm"
    using 1(2,3) by (auto simp: sameConfigs_def sameAgent_def)
  obtain s2 where d: "st_DeleteAgentStatus st (pm_AgentId pm) s1 = (Inr (), s2)"
    using delete_agent_total[OF ok1(1), of "pm_AgentId pm"] by (metis prod.collapse)
  have s2: "inv s2" "view s2 = (view s1)\<lparr>v_agents := (v_agents (view s1))(pm_AgentId pm := None)\<rparr>"
    using delete_agent[OF ok1(1) d] by auto
  let ?ev = "''exiting agent: '' @ pm_AgentId pm"
  obtain res s3 where e: "st_NewAgentEvent st ?ev s2 = (res, s3)" by (cases "st_NewAgentEvent st ?ev s2")
  have "cleanupAndUnregister env st pm s = Some (pm1, s3)"
    using 1(1) d e pm1 by (simp add: cleanupAndUnregister_def Let_def)
  with 1(2,4,5) s2(2) ok1(2) new_agent_event[OF s2(1) e] show ?thesis by auto
qed

end

section \<open>Properties\<close>


definition exampleManager :: PluginManager where
  "exampleManager = \<lparr>pm_AgentId = ''pod-1/heart'', pm_config = zeroAgentConfig,
     pm_sm = NewStateMap zeroAgentConfig, pm_SyntheticTests = []\<rparr>"

definition examplePmEnv :: pm_env where
  "examplePmEnv = \<lparr>pe_ovf = 0, pe_rounds = (\<lambda>_. []), pe_now = (\<lambda>_. 0), pe_SynTestNameMap = [''dns'']\<rparr>"

lemma configMem_consistent:
  assumes "v_sum (memView' configMem) i = Some x"
  shows "\<exists>c. v_cfg (memView' configMem) i = Some c \<and> stc_Version c = sum_Version x"
proof -
  let ?c = "versioned exampleController exampleTest ''*'' []"
  obtain s' where w: "WriteTestConfig memStore ?c ''spec'' agentMem = (Inr (), s')"
    using memory.write_config_total_law[OF agentMem_inv, of ?c "encConfig ?c" "''spec''"]
    by (cases "WriteTestConfig memStore ?c ''spec'' agentMem") (auto simp: memStore_def)
  have s': "s' = configMem" using w by (simp add: configMem_def)
  note law = memory.write_config_law[OF agentMem_inv w]
  have "v_sum (memView' agentMem) = Map.empty" by simp
  show ?thesis
  proof (cases "i = cid ?c")
    case True
    with assms law(4) s' have "x = summaryOf ?c" "v_cfg (memView' configMem) i = Some ?c" by auto
    then show ?thesis by (simp add: summaryOf_def)
  next
    case False
    with offConfig_other(2)[OF law(2) False] assms s' show ?thesis by simp
  qed
qed


text \<open>
  A test whose summary is gone is stopped and forgotten in one pass, and a test whose
  configuration cannot be fetched keeps running at its old version.
\<close>

theorem sync_stops_deleted_tests:
  assumes "reliable_store st view ok nsum nagent nstatus encodable" and "ok s" and "gwf (pm_SyntheticTests pm)"
  shows "\<exists>ch pm' s'. SyncSyntestPluginConfigs env st pm s = Some ((ch, None), pm', s') \<and>
    (v_sum (view s) i = None \<longrightarrow> testOf pm' i = None) \<and>
    (v_sum (view s) i \<noteq> None \<and> v_cfg (view s) i = None \<longrightarrow> testOf pm' i = testOf pm i)"
proof -
  obtain ch pm' s' where p: "SyncSyntestPluginConfigs env st pm s = Some ((ch, None), pm', s')"
    "\<forall>j. case v_sum (view s) j of None \<Rightarrow> testOf pm' j = None
       | Some sm \<Rightarrow> syncedEntry pm (v_cfg (view s) j) (sum_Version sm) (testOf pm j) (testOf pm' j)"
    using reliable_store.sync_exact[OF assms] by blast
  from p(2)[rule_format, of i] have "v_sum (view s) i = None \<longrightarrow> testOf pm' i = None"
    "v_sum (view s) i \<noteq> None \<and> v_cfg (view s) i = None \<longrightarrow> testOf pm' i = testOf pm i"
    by (auto simp: syncedEntry_def split: option.splits)
  with p(1) show ?thesis by (intro exI conjI)
qed

theorem sync_stops_deleted_tests_witness:
  "\<exists>ch pm' s'. SyncSyntestPluginConfigs examplePmEnv (NewRedisSynHeartStore memStore)
     (exampleManager\<lparr>pm_SyntheticTests := [(''gone/prod'', \<lparr>at_config = zeroSynTestConfig, at_version = ''v1'', at_routine = None\<rparr>)]\<rparr>)
     emptyMem = Some ((ch, None), pm', s') \<and> testOf pm' ''gone/prod'' = None"
  using sync_stops_deleted_tests[OF memory.rstore.reliable_store_axioms emptyMem_inv,
      of "exampleManager\<lparr>pm_SyntheticTests := [(''gone/prod'', \<lparr>at_config = zeroSynTestConfig, at_version = ''v1'', at_routine = None\<rparr>)]\<rparr>"
        examplePmEnv "''gone/prod''"]
  by (simp add: gwf_def viewOf_def memView_def memHash_def emptyMem_def)

text \<open>
  C19. An agent that leaves cleans up after itself: all its tests are stopped, the states of
  their plugins are removed from its table and their run status from the storage, and its own
  entry is gone; the entries of other agents are untouched.
\<close>

theorem leaving_agent_cleans_up:
  assumes "reliable_store st view ok nsum nagent nstatus encodable" and "ok s" and "gwf (pm_SyntheticTests pm)"
  shows "\<exists>pm' s'. cleanupAndUnregister env st pm s = Some (pm', s') \<and> testOf pm' = Map.empty \<and>
    v_agents (view s') = (v_agents (view s))(pm_AgentId pm := None) \<and>
    (\<forall>i t. testOf pm i = Some t \<longrightarrow> stateOf (pm_sm pm') (pidOf pm t) = None \<and> v_runStatus (view s') (pidOf pm t) = None)"
  using reliable_store.cleanup_exact[OF assms, of env] by blast

theorem leaving_agent_cleans_up_witness:
  "\<exists>pm' s'. cleanupAndUnregister examplePmEnv (NewRedisSynHeartStore memStore) exampleManager agentMem = Some (pm', s') \<and>
     v_agents (memView' s') = Map.empty"
  using leaving_agent_cleans_up[OF memory.rstore.reliable_store_axioms agentMem_inv,
      of exampleManager examplePmEnv]
  by (auto simp: exampleManager_def)

end
