(* ===== verification/TestRoutine.thy ===== *)
theory TestRoutine
  imports Models
begin

text \<open>
  The routine of one synthetic test (agent/pluginmanager/syntest.go): woken by its timer or by
  the run of another test, it starts the plugin process, initialises it, performs the test,
  publishes the run and finishes the plugin. What the plugin process and its connection do, given
  the time limit of the call, is the record \<open>routine_env\<close>; \<open>time.ParseDuration\<close> and MD5 are
  arguments. The routine is a function of the sequence of its wake-ups and yields the runs it
  publishes and how it ends. A panic outside the recovering helper ends the agent.
\<close>

section \<open>Calls to the plugin\<close>

text \<open>
  A call with a time limit returns, panics (and is recovered), or its context ends first. A panic
  closes the error channel without a value, and the receive then yields nil.
\<close>

datatype call_result = Returns "err option" | Panics | CtxEnds err

fun runFuncWithTimeout :: "call_result \<Rightarrow> err option" where
  "runFuncWithTimeout (Returns e) = e"
| "runFuncWithTimeout Panics = None"
| "runFuncWithTimeout (CtxEnds e) = Some (ErrNew (err_Error e))"

text \<open>The reply of the gRPC client, and what the wrapper makes of it.\<close>

definition GRPCClient_PerformTest :: "TestResult option \<Rightarrow> err option \<Rightarrow> TestResult \<times> err option" where
  "GRPCClient_PerformTest res e = (case res of Some r \<Rightarrow> (r, e) | None \<Rightarrow> (FailedTestResult, e))"

datatype perform_result = Replies "TestResult option" "err option" | PerformEnds err

record routine_env =
  te_connect :: "err option"
  te_initialise :: "duration \<Rightarrow> call_result"
  te_perform :: "duration \<Rightarrow> perform_result"
  te_finish :: "duration \<Rightarrow> call_result"
  te_id :: string
  te_start :: string
  te_end :: string
  te_logs :: "err + string"
  te_initLogs :: string

record SynTestRoutine =
  str_agentId :: string
  str_config :: SynTestConfig
  str_cmd :: "string list"
  str_printPluginLogs :: string

section \<open>One test\<close>

definition performTest :: "SynTestRoutine \<Rightarrow> routine_env \<Rightarrow> Trigger \<Rightarrow> duration \<Rightarrow> TestRun \<times> err option" where
  "performTest str env triggerInfo timeout =
     (let (result, e) = (case te_perform env timeout of
            PerformEnds e \<Rightarrow> (FailedTestResult, Some e)
          | Replies res e \<Rightarrow> GRPCClient_PerformTest res e)
      in (TestRun (te_id env) [] (te_start env) (te_end env) (str_config str) triggerInfo result [], e))"

definition computePluginIdHash :: "(string \<Rightarrow> string) \<Rightarrow> SynTestRoutine \<Rightarrow> string" where
  "computePluginIdHash md5 str =
     take 8 (md5 (ComputePluginId (stc_Name (str_config str)) (stc_Namespace (str_config str)) (str_agentId str)))"

definition printLogsFromPlugin :: "(string \<Rightarrow> string) \<Rightarrow> SynTestRoutine \<Rightarrow> string \<Rightarrow> string" where
  "printLogsFromPlugin md5 str logs =
     (let prefix = ''plugin.'' @ computePluginIdHash md5 str @ '': ''
      in prefix @ concat (map (\<lambda>c. if c = CHR 0x0A then c # prefix else [c]) logs))"

text \<open>The run to publish, the logs to print, and the error.\<close>

definition runTest :: "(string \<Rightarrow> string) \<Rightarrow> SynTestRoutine \<Rightarrow> routine_env \<Rightarrow> Trigger \<Rightarrow> duration
    \<Rightarrow> TestRun \<times> string option \<times> err option" where
  "runTest md5 str env triggerInfo timeout =
     (let (t, e) = performTest str env triggerInfo timeout;
          e1 = (case e of Some e \<Rightarrow> Some (if e = CtxDeadlineExceeded then ErrWrap ''test hit timeout'' e else e) | None \<Rightarrow> None);
          details = (case e1 of Some e \<Rightarrow> AList.update ErrorKey (err_Error e) (tr_Details t) | None \<Rightarrow> tr_Details t);
          failed = (e1 \<noteq> None \<or> tres_Marks (tr_TestResult t) < tres_MaxMarks (tr_TestResult t));
          logs = (case te_logs env of Inl _ \<Rightarrow> ''<unable to fetch logs>'' | Inr l \<Rightarrow> l);
          printed = (if str_printPluginLogs str = LogAlways \<or> (str_printPluginLogs str = LogOnFail \<and> failed)
                     then Some (printLogsFromPlugin md5 str logs) else None)
      in (TestRun (tr_Id t) (str_agentId str) (tr_StartTime t) (tr_EndTime t) (tr_TestConfig t) (tr_Trigger t)
            (tr_TestResult t) (AList.update LogKey logs details),
          printed, e1))"

text \<open>
  What one test leaves behind: the run it published, the logs it printed, whether the plugin was
  finished, and the error. None: the agent panics, because the command of the plugin is empty.
\<close>

record test_out =
  out_run :: "TestRun option"
  out_printed :: "string option"
  out_finished :: bool
  out_err :: "err option"

text \<open>
  Connecting runs the command of the plugin and asks its client for the plugin; both steps belong to
  the plugin library and may fail. An empty command has no first element, and the agent panics.
\<close>

definition connectWithPlugin :: "string list \<Rightarrow> err option \<Rightarrow> err option option" where
  "connectWithPlugin executableCmd failure = (case executableCmd of [] \<Rightarrow> None | _ # _ \<Rightarrow> Some failure)"

text \<open>An error while finishing is only logged; the result says whether the plugin was finished.\<close>

definition str_finish :: "routine_env \<Rightarrow> duration \<Rightarrow> bool" where
  "str_finish env timeout = (case runFuncWithTimeout (te_finish env timeout) of Some _ \<Rightarrow> False | None \<Rightarrow> True)"

definition testPlugin :: "(string \<Rightarrow> string) \<Rightarrow> SynTestRoutine \<Rightarrow> routine_env \<Rightarrow> duration \<Rightarrow> duration \<Rightarrow> duration \<Rightarrow> test_out option" where
  "testPlugin md5 str env initTimeout testTimeout finishTimeout =
     map_option (\<lambda>connected. (case connected of
        Some e \<Rightarrow> \<lparr>out_run = None, out_printed = None, out_finished = False,
                   out_err = Some (ErrWrap ''error connecting to plugin'' e)\<rparr>
      | None \<Rightarrow>
          (case runFuncWithTimeout (te_initialise env initTimeout) of
             Some e \<Rightarrow> \<lparr>out_run = None, out_printed = None, out_finished = False,
               out_err = Some (ErrWrap (''error initialising plugin: --- LOGS ---'' @ [CHR 0x0A] @ te_initLogs env) e)\<rparr>
           | None \<Rightarrow>
               (case runTest md5 str env (Trigger TriggerTypeTimer None []) testTimeout of
                  (run, printed, Some e) \<Rightarrow>
                    \<lparr>out_run = Some run, out_printed = printed, out_finished = False, out_err = Some e\<rparr>
                | (run, printed, None) \<Rightarrow>
                    \<lparr>out_run = Some run, out_printed = printed,
                     out_finished = str_finish env finishTimeout, out_err = None\<rparr>))))
       (connectWithPlugin (str_cmd str) (te_connect env))"

lemma testPlugin_eq:
  "testPlugin md5 str env it rt ft =
     (if str_cmd str = [] then None
      else Some (case te_connect env of
        Some e \<Rightarrow> \<lparr>out_run = None, out_printed = None, out_finished = False,
                   out_err = Some (ErrWrap ''error connecting to plugin'' e)\<rparr>
      | None \<Rightarrow>
          (case runFuncWithTimeout (te_initialise env it) of
             Some e \<Rightarrow> \<lparr>out_run = None, out_printed = None, out_finished = False,
               out_err = Some (ErrWrap (''error initialising plugin: --- LOGS ---'' @ [CHR 0x0A] @ te_initLogs env) e)\<rparr>
           | None \<Rightarrow>
               (case runTest md5 str env (Trigger TriggerTypeTimer None []) rt of
                  (run, printed, e) \<Rightarrow>
                    \<lparr>out_run = Some run, out_printed = printed,
                     out_finished = (e = None \<and> str_finish env ft), out_err = e\<rparr>))))"
  by (cases "str_cmd str") (auto simp: testPlugin_def connectWithPlugin_def split: option.splits prod.splits)

section \<open>The routine\<close>

datatype wake = OnTimer | OnTestRun TestRun | OnCtxDone

record wake_env =
  we_wake :: wake
  we_cancelled :: bool
  we_test :: routine_env

datatype routine_end = StillRunning | RunReturns "err option" | Crashes

record timeouts =
  tm_init :: duration
  tm_run :: duration
  tm_finish :: duration
  tm_logWait :: duration

definition DefaultInitTimeout :: duration where "DefaultInitTimeout = 10 * second"
definition DefaultRunTimeout :: duration where "DefaultRunTimeout = 10 * second"
definition DefaultFinishTimeout :: duration where "DefaultFinishTimeout = 10 * second"
definition DefaultLogWaitTime :: duration where "DefaultLogWaitTime = 15000000"

definition parseOr :: "(string \<Rightarrow> err + duration) \<Rightarrow> string \<Rightarrow> duration \<Rightarrow> duration" where
  "parseOr parseDuration s d = (case parseDuration s of Inl _ \<Rightarrow> d | Inr x \<Rightarrow> x)"

definition routineTimeouts :: "(string \<Rightarrow> err + duration) \<Rightarrow> SynTestConfig \<Rightarrow> timeouts" where
  "routineTimeouts parseDuration c =
     \<lparr>tm_init = parseOr parseDuration (to_Init (stc_Timeouts c)) DefaultInitTimeout,
      tm_run = parseOr parseDuration (to_Run (stc_Timeouts c)) DefaultRunTimeout,
      tm_finish = parseOr parseDuration (to_Finish (stc_Timeouts c)) DefaultFinishTimeout,
      tm_logWait = parseOr parseDuration (stc_LogWaitTime c) DefaultLogWaitTime\<rparr>"

text \<open>Whether a run that arrives on the channel of the routine starts the test.\<close>

definition triggers :: "string list \<Rightarrow> TestRun \<Rightarrow> bool" where
  "triggers dependsOn testRun \<longleftrightarrow>
     ''*'' \<in> set dependsOn \<or> ''*++'' \<in> set dependsOn \<or> stc_Name (tr_TestConfig testRun) \<in> set dependsOn"

text \<open>
  A wake-up by a channel that was never made does not happen: the timer without a positive repeat
  duration, and the runs of other tests without dependencies.
\<close>

definition wakes :: "duration \<Rightarrow> string list \<Rightarrow> wake \<Rightarrow> bool" where
  "wakes repeatDuration dependsOn w =
     (case w of OnTimer \<Rightarrow> repeatDuration > 0
      | OnTestRun r \<Rightarrow> dependsOn \<noteq> [] \<and> triggers dependsOn r
      | OnCtxDone \<Rightarrow> False)"

fun runLoop :: "(string \<Rightarrow> string) \<Rightarrow> SynTestRoutine \<Rightarrow> timeouts \<Rightarrow> duration \<Rightarrow> wake_env list \<Rightarrow> TestRun list \<times> routine_end" where
  "runLoop md5 str tm d [] = ([], StillRunning)"
| "runLoop md5 str tm d (w # ws) =
     (if we_wake w = OnCtxDone then ([], RunReturns None)
      else if \<not> wakes d (stc_DependsOn (str_config str)) (we_wake w) then runLoop md5 str tm d ws
      else if we_cancelled w then ([], RunReturns None)
      else case testPlugin md5 str (we_test w) (tm_init tm) (tm_run tm) (tm_finish tm) of
        None \<Rightarrow> ([], Crashes)
      | Some out \<Rightarrow>
          (case out_err out of
             Some e \<Rightarrow> (case out_run out of None \<Rightarrow> [] | Some r \<Rightarrow> [r], RunReturns (Some e))
           | None \<Rightarrow> apfst ((@) (case out_run out of None \<Rightarrow> [] | Some r \<Rightarrow> [r])) (runLoop md5 str tm d ws)))"

definition SynTestRoutine_Run ::
  "(string \<Rightarrow> string) \<Rightarrow> (string \<Rightarrow> err + duration) \<Rightarrow> SynTestRoutine \<Rightarrow> wake_env list \<Rightarrow> TestRun list \<times> routine_end" where
  "SynTestRoutine_Run md5 parseDuration str ws =
     (case parseDuration (stc_Repeat (str_config str)) of
        Inl e \<Rightarrow> ([], RunReturns (Some (ErrWrap ''error parsing repeat duration'' e)))
      | Inr testRepeatDuration \<Rightarrow>
          runLoop md5 str (routineTimeouts parseDuration (str_config str)) testRepeatDuration ws)"

section \<open>What one test publishes\<close>

lemma keys_differ [simp]: "ErrorKey \<noteq> LogKey" "LogKey \<noteq> ErrorKey"
  by (simp_all add: ErrorKey_def LogKey_def)

lemma runTest_facts:
  assumes "runTest md5 str env tg t = (run, printed, e)"
  shows "tr_AgentId run = str_agentId str" "tr_TestConfig run = str_config str"
    "map_of (tr_Details run) LogKey = Some (case te_logs env of Inl _ \<Rightarrow> ''<unable to fetch logs>'' | Inr l \<Rightarrow> l)"
    "map_of (tr_Details run) ErrorKey = map_option err_Error e"
    "case te_perform env t of
       Replies (Some res) e \<Rightarrow> tr_TestResult run = res
     | _ \<Rightarrow> tres_Marks (tr_TestResult run) = 0 \<and> tres_MaxMarks (tr_TestResult run) = 1"
    "te_perform env t = PerformEnds CtxDeadlineExceeded \<Longrightarrow> e = Some (ErrWrap ''test hit timeout'' CtxDeadlineExceeded)"
  using assms
  by (auto simp: runTest_def performTest_def GRPCClient_PerformTest_def FailedTestResult_def Let_def split_beta update_conv'
      split: perform_result.splits option.splits)

text \<open>
  C20. A test that could be initialised is always reported: it publishes exactly one run, with the
  identifier of the agent, the configuration and the logs of the plugin. The error entry of the
  run is the error the routine returns; a test that does not answer in time is published as
  failed, with no marks of one and the time-out as its error. The plugin is finished only after a
  test without an error.
\<close>

theorem test_always_reported:
  assumes "str_cmd str \<noteq> []" and "te_connect env = None" and "runFuncWithTimeout (te_initialise env i) = None"
  shows "\<exists>out run. testPlugin md5 str env i t f = Some out \<and> out_run out = Some run \<and>
    tr_AgentId run = str_agentId str \<and> tr_TestConfig run = str_config str \<and>
    map_of (tr_Details run) LogKey = Some (case te_logs env of Inl _ \<Rightarrow> ''<unable to fetch logs>'' | Inr l \<Rightarrow> l) \<and>
    map_of (tr_Details run) ErrorKey = map_option err_Error (out_err out) \<and>
    (case te_perform env t of
       Replies (Some res) e \<Rightarrow> tr_TestResult run = res
     | _ \<Rightarrow> tres_Marks (tr_TestResult run) = 0 \<and> tres_MaxMarks (tr_TestResult run) = 1) \<and>
    (te_perform env t = PerformEnds CtxDeadlineExceeded \<longrightarrow>
       map_of (tr_Details run) ErrorKey = Some ''test hit timeout: context deadline exceeded'') \<and>
    (out_err out \<noteq> None \<longrightarrow> \<not> out_finished out)"
proof -
  obtain run printed e where r: "runTest md5 str env (Trigger TriggerTypeTimer None []) t = (run, printed, e)"
    by (cases "runTest md5 str env (Trigger TriggerTypeTimer None []) t")
  obtain out where out: "testPlugin md5 str env i t f = Some out" "out_run out = Some run" "out_err out = e"
    "e \<noteq> None \<longrightarrow> \<not> out_finished out"
    using assms r by (cases e) (auto simp: testPlugin_eq)
  note f = runTest_facts[OF r]
  have "te_perform env t = PerformEnds CtxDeadlineExceeded \<longrightarrow>
      map_of (tr_Details run) ErrorKey = Some ''test hit timeout: context deadline exceeded''"
    using f(4,6) by auto
  with out f(1-5) show ?thesis by blast
qed

definition exampleRoutine :: SynTestRoutine where
  "exampleRoutine = \<lparr>str_agentId = ''pod-1/heart'', str_config = zeroSynTestConfig\<lparr>stc_Name := ''dns'', stc_DependsOn := [''*'']\<rparr>,
     str_cmd = [''./plugins/test-dns''], str_printPluginLogs = LogOnFail\<rparr>"

definition slowTest :: routine_env where
  "slowTest = \<lparr>te_connect = None, te_initialise = (\<lambda>_. Returns None), te_perform = (\<lambda>_. PerformEnds CtxDeadlineExceeded),
     te_finish = (\<lambda>_. Returns None), te_id = ''run-1'', te_start = [], te_end = [], te_logs = Inr [], te_initLogs = []\<rparr>"

theorem test_always_reported_witness:
  "\<exists>out run. testPlugin (\<lambda>s. s) exampleRoutine slowTest DefaultInitTimeout DefaultRunTimeout DefaultFinishTimeout = Some out \<and>
     out_run out = Some run \<and> map_of (tr_Details run) ErrorKey = Some ''test hit timeout: context deadline exceeded''"
  using test_always_reported[of exampleRoutine slowTest DefaultInitTimeout "\<lambda>s. s" DefaultRunTimeout DefaultFinishTimeout]
  by (auto simp: exampleRoutine_def slowTest_def)

section \<open>When tests run\<close>

definition runOf :: "(string \<Rightarrow> string) \<Rightarrow> SynTestRoutine \<Rightarrow> timeouts \<Rightarrow> wake_env \<Rightarrow> TestRun" where
  "runOf md5 str tm w = fst (runTest md5 str (we_test w) (Trigger TriggerTypeTimer None []) (tm_run tm))"

text \<open>A wake-up whose test goes through without an error.\<close>

definition goesWell :: "timeouts \<Rightarrow> wake_env \<Rightarrow> bool" where
  "goesWell tm w \<longleftrightarrow> we_wake w \<noteq> OnCtxDone \<and> \<not> we_cancelled w \<and> te_connect (we_test w) = None \<and>
     runFuncWithTimeout (te_initialise (we_test w) (tm_init tm)) = None \<and>
     (\<exists>res. te_perform (we_test w) (tm_run tm) = Replies res None)"

lemma goesWell_test:
  assumes "str_cmd str \<noteq> []" "goesWell tm w"
  obtains out where "testPlugin md5 str (we_test w) (tm_init tm) (tm_run tm) (tm_finish tm) = Some out"
    "out_run out = Some (runOf md5 str tm w)" "out_err out = None"
proof -
  obtain res where res: "te_perform (we_test w) (tm_run tm) = Replies res None" using assms(2) by (auto simp: goesWell_def)
  then have "snd (snd (runTest md5 str (we_test w) (Trigger TriggerTypeTimer None []) (tm_run tm))) = None"
    by (cases res) (auto simp: runTest_def performTest_def GRPCClient_PerformTest_def Let_def)
  then obtain run printed where r: "runTest md5 str (we_test w) (Trigger TriggerTypeTimer None []) (tm_run tm) = (run, printed, None)"
    by (cases "runTest md5 str (we_test w) (Trigger TriggerTypeTimer None []) (tm_run tm)") auto
  show thesis by (rule that) (use assms r in \<open>auto simp: testPlugin_eq goesWell_def runOf_def\<close>)
qed


definition quickTest :: routine_env where
  "quickTest = slowTest\<lparr>te_perform := (\<lambda>_. Replies (Some \<lparr>tres_Marks = 1, tres_MaxMarks = 1, tres_Details = []\<rparr>) None)\<rparr>"


section \<open>Triggers by the test itself\<close>

lemma published_config:
  assumes "testPlugin md5 str env i t f = Some out" "out_run out = Some run"
  shows "tr_TestConfig run = str_config str" "tg_TriggerType (tr_Trigger run) = TriggerTypeTimer"
  using assms by (auto simp: testPlugin_eq runTest_def performTest_def Let_def split: if_splits option.splits prod.splits)

text \<open>
  A test that depends on all tests, or on itself, is triggered by its own runs: the broadcaster
  delivers a run to every subscriber, and the routine that published it is one of them.
\<close>

lemma own_run_triggers:
  assumes "testPlugin md5 str env i t f = Some out" "out_run out = Some run"
    and "''*'' \<in> set (stc_DependsOn (str_config str)) \<or> stc_Name (str_config str) \<in> set (stc_DependsOn (str_config str))"
  shows "wakes d (stc_DependsOn (str_config str)) (OnTestRun run)"
  using assms(3) published_config(1)[OF assms(1,2)] by (auto simp: wakes_def triggers_def)

text \<open>A panic while the plugin is initialised is taken for success.\<close>

lemma panic_taken_for_success: "runFuncWithTimeout Panics = runFuncWithTimeout (Returns None)"
  by simp

text \<open>A plugin with an empty command ends the agent at its first test.\<close>

lemma empty_command_crashes:
  assumes "str_cmd str = []" "wakes d (stc_DependsOn (str_config str)) (we_wake w)" "\<not> we_cancelled w" "we_wake w \<noteq> OnCtxDone"
  shows "runLoop md5 str tm d (w # ws) = ([], Crashes)"
  using assms by (simp add: testPlugin_eq)

end
