(* ===== verification/AgentStartup.thy ===== *)
theory AgentStartup
  imports PluginManager TestRoutine
begin

text \<open>
  The start of the agent: reading its configuration, its identity and its pod labels, and finding
  and registering the plugins (agent/pluginmanager/pluginManager.go and pluginRegistration.go). The
  file system, the environment variables, the YAML library and the Redis client are the record
  \<open>startup_env\<close>. \<open>os.Exit\<close> is the outcome None. The two registration maps always have the
  same keys and are one table from plugin names to commands.
\<close>

section \<open>The environment\<close>

record 's startup_env =
  su_readFile :: "string \<Rightarrow> err + string"
  su_unmarshal :: "string \<Rightarrow> err + AgentConfig"
  su_getenv :: "string \<Rightarrow> string"
  su_glob :: "string \<Rightarrow> err + string list"
  su_connect :: "string \<Rightarrow> 's RedisSynHeartStore"

type_synonym registry = "(string \<times> string list) list"

section \<open>Plugins\<close>

definition SyntestPrefix :: string where "SyntestPrefix = ''test-''"

definition RegisterSynTestPlugin :: "string \<Rightarrow> string list \<Rightarrow> registry \<Rightarrow> registry" where
  "RegisterSynTestPlugin pluginName cmd reg = AList.update pluginName cmd reg"

definition discoverFile :: "PluginDiscoveryConfig \<Rightarrow> string \<Rightarrow> registry \<Rightarrow> registry" where
  "discoverFile config filePath plugins =
     (let fileName = last (strings_Split CHR ''/'' filePath) in
      if \<not> strings_HasPrefix fileName SyntestPrefix then plugins
      else
        (let cmd = (if pdc_Cmd config = [] then
                      (if \<not> strings_HasPrefix filePath ''./'' then [''./'' @ filePath] else [])
                    else [pdc_Cmd config, filePath])
         in AList.update (strings_TrimPrefix fileName SyntestPrefix) cmd plugins))"

definition DiscoverPlugins :: "'s startup_env \<Rightarrow> PluginDiscoveryConfig \<Rightarrow> err + registry" where
  "DiscoverPlugins env config =
     (case su_glob env (pdc_Path config) of
        Inl e \<Rightarrow> Inl (ErrWrap (''error discovering plugins from path '' @ pdc_Path config) e)
      | Inr files \<Rightarrow> Inr (fold (discoverFile config) files []))"

section \<open>Configuration\<close>

definition DefaultLabelFilePath :: string where "DefaultLabelFilePath = ''/etc/podinfo/labels''"

definition parseLabelLine :: "string \<Rightarrow> gomap \<Rightarrow> gomap" where
  "parseLabelLine line labels =
     (let parts = strings_Split CHR ''='' line in
      if line = [] \<or> length parts \<noteq> 2 then labels
      else AList.update (parts ! 0) (strings_Trim (parts ! 1) CHR 0x22) labels)"

definition parseLabelFile :: "'s startup_env \<Rightarrow> string \<Rightarrow> err + gomap" where
  "parseLabelFile env labelFilePath =
     (case su_readFile env labelFilePath of
        Inl e \<Rightarrow> Inl (ErrWrap ''error reading label file'' e)
      | Inr labelFileData \<Rightarrow> Inr (fold parseLabelLine (strings_Split CHR 0x0A labelFileData) []))"

definition validLogOption :: "string \<Rightarrow> bool" where
  "validLogOption p \<longleftrightarrow> p = LogOnFail \<or> p = LogAlways \<or> p = LogNever"

text \<open>The checks that follow once the label file was read; the identifier and the configuration.\<close>

definition checkConfig :: "AgentConfig \<Rightarrow> (err + string \<times> AgentConfig) option" where
  "checkConfig c =
     (if map_of (ai_PodLabels (ac_RunTimeInfo c)) K8sDiscoverLabel \<noteq> Some K8sDiscoverLabelVal then None
      else if ac_GracePeriod c \<le> 0 then Some (Inl (ErrNew ''gracePeriod must be a positive value''))
      else if ac_SyncFrequency c \<le> 0 then Some (Inl (ErrNew ''syncFrequency must be a positive value''))
      else Some (Inr (ComputeAgentId (ai_PodName (ac_RunTimeInfo c)) (ai_AgentNamespace (ac_RunTimeInfo c)),
             if validLogOption (ac_PrintPluginLogs c) then c else c\<lparr>ac_PrintPluginLogs := LogNever\<rparr>)))"

definition parsePluginManagerConfig :: "'s startup_env \<Rightarrow> string \<Rightarrow> (err + string \<times> AgentConfig) option" where
  "parsePluginManagerConfig env configPath =
     (case su_readFile env configPath of
        Inl e \<Rightarrow> Some (Inl (ErrWrap ''error reading config file'' e))
      | Inr config \<Rightarrow>
     (case su_unmarshal env config of
        Inl e \<Rightarrow> Some (Inl (ErrWrap ''error unmarshalling config yaml'' e))
      | Inr conf \<Rightarrow>
          (let node = su_getenv env ''NODE_NAME''; pod = su_getenv env ''POD_NAME''; ns = su_getenv env ''NAMESPACE'';
               file = (if ac_LabelFileLocation conf = [] then DefaultLabelFilePath else ac_LabelFileLocation conf)
           in if node = [] then Some (Inl (ErrNew ''NODE_NAME missing from env''))
              else if pod = [] then Some (Inl (ErrNew ''POD_NAME missing from env''))
              else if ns = [] then Some (Inl (ErrNew ''NAMESPACE missing from env''))
              else case parseLabelFile env file of
                     Inl e \<Rightarrow> Some (Inl (ErrWrap ''error parsing label file'' e))
                   | Inr labels \<Rightarrow>
                       checkConfig (conf\<lparr>ac_LabelFileLocation := file,
                         ac_RunTimeInfo := \<lparr>ai_NodeName = node, ai_PodName = pod, ai_PodLabels = labels, ai_AgentNamespace = ns\<rparr>\<rparr>))))"

section \<open>The plugin manager\<close>

fun discoverAll :: "'s startup_env \<Rightarrow> PluginDiscoveryConfig list \<Rightarrow> registry \<Rightarrow> err + registry" where
  "discoverAll env [] found = Inr found"
| "discoverAll env (c # cs) found =
     (case DiscoverPlugins env c of
        Inl e \<Rightarrow> Inl (ErrWrap ''error discovering plugins'' e)
      | Inr plugins \<Rightarrow> discoverAll env cs (fold (\<lambda>(name, cmds). AList.update name cmds) plugins found))"

definition NewExtStorageHandler :: "'s startup_env \<Rightarrow> StorageConfig \<Rightarrow> err + 's SynHeartStore" where
  "NewExtStorageHandler env config = NewSynHeartStore (sc_Type config) (su_connect env (sc_Address config))"

definition NewPluginManager ::
  "'s startup_env \<Rightarrow> string \<Rightarrow> registry \<Rightarrow> ((err + PluginManager \<times> 's SynHeartStore) \<times> registry) option" where
  "NewPluginManager env configPath reg =
     (case parsePluginManagerConfig env configPath of
        None \<Rightarrow> None
      | Some (Inl e) \<Rightarrow> Some (Inl e, reg)
      | Some (Inr (agentId, config)) \<Rightarrow>
          (case discoverAll env (ac_EnabledPlugins config) [] of
             Inl e \<Rightarrow> Some (Inl e, reg)
           | Inr plugins \<Rightarrow>
               if plugins = [] then None
               else
                 (let config = config\<lparr>ac_MatchNamespaceSet := fold (\<lambda>ns. AList.update ns True) (ac_MatchTestNamespaces config) [],
                        ac_DiscoveredPlugins := plugins\<rparr>;
                      reg = fold (\<lambda>(name, cmds). RegisterSynTestPlugin name cmds) plugins reg
                  in case NewExtStorageHandler env (ac_StoreConfig config) of
                       Inl e \<Rightarrow> Some (Inl (ErrWrap ''error creating storage client'' e), reg)
                     | Inr st \<Rightarrow>
                         Some (Inr (\<lparr>pm_AgentId = agentId, pm_config = config, pm_sm = NewStateMap config,
                                     pm_SyntheticTests = []\<rparr>, st), reg))))"

section \<open>Updating maps in a loop\<close>

lemma fold_update_map_of:
  "gwf xs \<Longrightarrow> map_of (fold (\<lambda>(k, x). AList.update k x) xs m) = map_of m ++ map_of xs"
proof (induction xs arbitrary: m)
  case (Cons p xs)
  obtain k x where p: "p = (k, x)" by (cases p)
  have "gwf xs" "map_of xs k = None" using Cons.prems p by (auto simp: gwf_def map_of_eq_None_iff)
  with Cons.IH[of "AList.update k x m"] p show ?case by (auto simp: update_conv' map_add_def split: option.splits)
qed simp

lemma fold_update_gwf: "gwf m \<Longrightarrow> gwf (fold (\<lambda>(k, x). AList.update k x) xs m)"
  by (induction xs arbitrary: m) auto

lemma fold_set_map_of:
  "map_of (fold (\<lambda>k. AList.update k x) ks m) k' = (if k' \<in> set ks then Some x else map_of m k')"
  by (induction ks arbitrary: m) (auto simp: update_conv')

section \<open>The label file\<close>

text \<open>The file as the downward API of Kubernetes writes it: a line \<open>key="value"\<close> for each label.\<close>

definition labelLine :: "string \<times> string \<Rightarrow> string" where
  "labelLine p = fst p @ [CHR ''='', CHR 0x22] @ snd p @ [CHR 0x22]"

fun joinLines :: "string list \<Rightarrow> string" where
  "joinLines [] = []"
| "joinLines [l] = l"
| "joinLines (l # ls) = l @ CHR 0x0A # joinLines ls"

definition plainLabel :: "string \<times> string \<Rightarrow> bool" where
  "plainLabel p \<longleftrightarrow> set (fst p @ snd p) \<inter> {CHR ''='', CHR 0x22, CHR 0x0A} = {}"

lemma Split_joinLines:
  "\<lbrakk>ls \<noteq> []; \<forall>l \<in> set ls. CHR 0x0A \<notin> set l\<rbrakk> \<Longrightarrow> strings_Split CHR 0x0A (joinLines ls) = ls"
  by (induction ls rule: joinLines.induct) (auto simp: strings_Split_plain strings_Split_append)

lemma dropWhile_fresh: "c \<notin> set v \<Longrightarrow> dropWhile ((=) c) v = v"
  by (cases v) auto

lemma Trim_quoted: "c \<notin> set v \<Longrightarrow> strings_Trim (c # v @ [c]) c = v"
  by (cases v) (auto simp: strings_Trim_def dropWhile_fresh)

lemma parseLabelLine_exact:
  assumes "plainLabel p"
  shows "parseLabelLine (labelLine p) m = AList.update (fst p) (snd p) m"
proof -
  have "strings_Split CHR ''='' (labelLine p) = [fst p, CHR 0x22 # snd p @ [CHR 0x22]]"
    using assms by (auto simp: labelLine_def plainLabel_def strings_Split_append strings_Split_plain)
  moreover have "labelLine p \<noteq> []" by (simp add: labelLine_def)
  moreover have "CHR 0x22 \<notin> set (snd p)" using assms by (auto simp: plainLabel_def)
  ultimately show ?thesis by (simp add: parseLabelLine_def Trim_quoted)
qed

lemma parse_labels:
  "\<forall>p \<in> set ps. plainLabel p \<Longrightarrow> fold parseLabelLine (map labelLine ps) m = fold (\<lambda>(k, x). AList.update k x) ps m"
  by (induction ps arbitrary: m) (auto simp: parseLabelLine_exact)

lemma parseLabelFile_labels:
  assumes "\<forall>p \<in> set labels. plainLabel p" and "su_readFile env path = Inr (joinLines (map labelLine labels))"
  shows "parseLabelFile env path = Inr (fold (\<lambda>(k, x). AList.update k x) labels [])"
proof (cases labels)
  case Nil
  with assms(2) show ?thesis by (simp add: parseLabelFile_def parseLabelLine_def)
next
  case Cons
  have "CHR 0x0A \<notin> set (labelLine p)" if "p \<in> set labels" for p
    using assms(1) that by (auto simp: labelLine_def plainLabel_def)
  then have "strings_Split CHR 0x0A (joinLines (map labelLine labels)) = map labelLine labels"
    using Cons by (intro Split_joinLines) auto
  with assms(2) parse_labels[OF assms(1)] show ?thesis by (simp add: parseLabelFile_def)
qed

text \<open>
  Pod labels round trip: the labels of a pod, written to the label file one per line with
  quoted values, are read back as they were. Keys and values contain no equals sign, quote or
  line break, as Kubernetes demands of labels.
\<close>

theorem label_file_roundtrip:
  assumes "gwf labels" and "\<forall>p \<in> set labels. plainLabel p" and "su_readFile env path = Inr (joinLines (map labelLine labels))"
  shows "\<exists>m. parseLabelFile env path = Inr m \<and> map_of m = map_of labels"
  using parseLabelFile_labels[OF assms(2,3)] fold_update_map_of[OF assms(1), of "[]"] by simp

definition exampleLabels :: gomap where
  "exampleLabels = [(''app'', ''heart''), (K8sDiscoverLabel, K8sDiscoverLabelVal)]"

definition exampleStartup :: "mem startup_env" where
  "exampleStartup = \<lparr>su_readFile = (\<lambda>path. if path = DefaultLabelFilePath then Inr (joinLines (map labelLine exampleLabels)) else Inr []),
     su_unmarshal = (\<lambda>_. Inr (zeroAgentConfig\<lparr>ac_GracePeriod := second, ac_SyncFrequency := 60 * second,
       ac_MatchTestNamespaces := [''prod''], ac_EnabledPlugins := [\<lparr>pdc_Path = ''p/*'', pdc_Cmd = []\<rparr>],
       ac_StoreConfig := \<lparr>sc_Type = ''redis'', sc_BufferSize = 1000, sc_Address = ''redis:6379'', sc_ExportRate = 15 * second\<rparr>\<rparr>)),
     su_getenv = (\<lambda>x. if x = ''NODE_NAME'' then ''node-1'' else if x = ''POD_NAME'' then ''pod-1'' else ''heart''),
     su_glob = (\<lambda>_. Inr [''p/README'', ''p/test-dns'']), su_connect = (\<lambda>_. memStore)\<rparr>"

lemma exampleLabels_plain: "gwf exampleLabels" "\<forall>p \<in> set exampleLabels. plainLabel p"
  by (auto simp: exampleLabels_def gwf_def plainLabel_def K8sDiscoverLabel_def K8sDiscoverLabelVal_def)

theorem label_file_roundtrip_witness:
  "\<exists>m. parseLabelFile exampleStartup DefaultLabelFilePath = Inr m \<and> map_of m ''app'' = Some ''heart''"
  using label_file_roundtrip[OF exampleLabels_plain, of exampleStartup DefaultLabelFilePath]
  by (auto simp: exampleStartup_def) (simp add: exampleLabels_def)

section \<open>A started agent\<close>

lemma discoverFile_gwf: "gwf m \<Longrightarrow> gwf (discoverFile c f m)"
  by (auto simp: discoverFile_def Let_def)

lemma discoverAll_gwf: "discoverAll env cs m = Inr m' \<Longrightarrow> gwf m \<Longrightarrow> gwf m'"
  by (induction cs arbitrary: m) (auto simp: fold_update_gwf split: sum.splits)

definition validConfig :: "string \<Rightarrow> AgentConfig \<Rightarrow> bool" where
  "validConfig i c \<longleftrightarrow>
     i = ComputeAgentId (ai_PodName (ac_RunTimeInfo c)) (ai_AgentNamespace (ac_RunTimeInfo c)) \<and>
     map_of (ai_PodLabels (ac_RunTimeInfo c)) K8sDiscoverLabel = Some K8sDiscoverLabelVal \<and>
     0 < ac_GracePeriod c \<and> 0 < ac_SyncFrequency c \<and> validLogOption (ac_PrintPluginLogs c)"

lemma checkConfig_ok:
  "checkConfig c = Some (Inr (i, c')) \<Longrightarrow> validConfig i c' \<and> ac_RunTimeInfo c' = ac_RunTimeInfo c"
  by (auto simp: checkConfig_def validConfig_def validLogOption_def split: if_splits)

lemma parseConfig_ok:
  assumes "parsePluginManagerConfig env path = Some (Inr (i, c))"
  shows "validConfig i c \<and> ai_NodeName (ac_RunTimeInfo c) = su_getenv env ''NODE_NAME'' \<and>
    ai_PodName (ac_RunTimeInfo c) = su_getenv env ''POD_NAME'' \<and> ai_AgentNamespace (ac_RunTimeInfo c) = su_getenv env ''NAMESPACE'' \<and>
    su_getenv env ''NODE_NAME'' \<noteq> [] \<and> su_getenv env ''POD_NAME'' \<noteq> [] \<and> su_getenv env ''NAMESPACE'' \<noteq> []"
  using assms unfolding parsePluginManagerConfig_def Let_def
  by (simp split: sum.splits if_splits) (drule checkConfig_ok; simp)+

text \<open>
  C26. An agent starts only when it is fit to run: a plugin manager that was created has the
  identifier of its pod, non-empty node, pod and namespace names, the discovery label without which
  the controller would not see it, positive periods and a valid log option. It watches exactly the
  configured namespaces, at least one plugin was found, all found plugins are registered with their
  commands, and no test is running.
\<close>

theorem agent_starts_valid:
  assumes "NewPluginManager env path reg = Some (Inr (pm, st), reg')" and "gwf reg"
  shows "pm_AgentId pm = ComputeAgentId (ai_PodName (ac_RunTimeInfo (pm_config pm))) (ai_AgentNamespace (ac_RunTimeInfo (pm_config pm))) \<and>
    ai_NodeName (ac_RunTimeInfo (pm_config pm)) \<noteq> [] \<and> ai_PodName (ac_RunTimeInfo (pm_config pm)) \<noteq> [] \<and>
    ai_AgentNamespace (ac_RunTimeInfo (pm_config pm)) \<noteq> [] \<and>
    map_of (ai_PodLabels (ac_RunTimeInfo (pm_config pm))) K8sDiscoverLabel = Some K8sDiscoverLabelVal \<and>
    0 < ac_GracePeriod (pm_config pm) \<and> 0 < ac_SyncFrequency (pm_config pm) \<and> validLogOption (ac_PrintPluginLogs (pm_config pm)) \<and>
    (\<forall>ns. map_of (ac_MatchNamespaceSet (pm_config pm)) ns =
       (if ns \<in> set (ac_MatchTestNamespaces (pm_config pm)) then Some True else None)) \<and>
    ac_DiscoveredPlugins (pm_config pm) \<noteq> [] \<and> map_of reg' = map_of reg ++ map_of (ac_DiscoveredPlugins (pm_config pm)) \<and>
    pm_SyntheticTests pm = [] \<and> pm_sm pm = NewStateMap (pm_config pm)"
proof -
  obtain i c plugins where p: "parsePluginManagerConfig env path = Some (Inr (i, c))"
    "discoverAll env (ac_EnabledPlugins c) [] = Inr plugins" "plugins \<noteq> []"
    using assms(1) by (auto simp: NewPluginManager_def split: option.splits sum.splits if_splits)
  define c' where "c' = c\<lparr>ac_MatchNamespaceSet := fold (\<lambda>ns. AList.update ns True) (ac_MatchTestNamespaces c) [],
    ac_DiscoveredPlugins := plugins\<rparr>"
  have pm: "pm = \<lparr>pm_AgentId = i, pm_config = c', pm_sm = NewStateMap c', pm_SyntheticTests = []\<rparr>"
    and reg': "reg' = fold (\<lambda>(name, cmds). AList.update name cmds) plugins reg"
    using assms(1) p by (auto simp: NewPluginManager_def RegisterSynTestPlugin_def[abs_def] c'_def Let_def split: sum.splits)
  have "gwf plugins" by (rule discoverAll_gwf[OF p(2)]) simp
  with parseConfig_ok[OF p(1)] p(3) show ?thesis
    by (auto simp: pm reg' c'_def validConfig_def fold_update_map_of fold_set_map_of)
qed

lemma exampleStartup_unmarshal:
  "su_unmarshal exampleStartup x = Inr (zeroAgentConfig\<lparr>ac_GracePeriod := second, ac_SyncFrequency := 60 * second,
     ac_MatchTestNamespaces := [''prod''], ac_EnabledPlugins := [\<lparr>pdc_Path = ''p/*'', pdc_Cmd = []\<rparr>],
     ac_StoreConfig := \<lparr>sc_Type = ''redis'', sc_BufferSize = 1000, sc_Address = ''redis:6379'', sc_ExportRate = 15 * second\<rparr>\<rparr>)"
  by (simp add: exampleStartup_def)

lemma exampleStartup_getenv:
  "su_getenv exampleStartup ''NODE_NAME'' = ''node-1''" "su_getenv exampleStartup ''POD_NAME'' = ''pod-1''"
  "su_getenv exampleStartup ''NAMESPACE'' = ''heart''"
  by (simp_all add: exampleStartup_def)

lemma exampleStartup_glob: "su_glob exampleStartup x = Inr [''p/README'', ''p/test-dns'']"
  by (simp add: exampleStartup_def)

lemma exampleStartup_config:
  "\<exists>c. parsePluginManagerConfig exampleStartup ''agent.yaml'' = Some (Inr (''pod-1/heart'', c)) \<and>
     ac_EnabledPlugins c = [\<lparr>pdc_Path = ''p/*'', pdc_Cmd = []\<rparr>] \<and> sc_Type (ac_StoreConfig c) = ''redis''"
proof -
  define m where "m = fold (\<lambda>(k, x). AList.update k x) exampleLabels []"
  have "su_readFile exampleStartup DefaultLabelFilePath = Inr (joinLines (map labelLine exampleLabels))"
    by (simp add: exampleStartup_def)
  from parseLabelFile_labels[OF exampleLabels_plain(2) this]
  have "parseLabelFile exampleStartup DefaultLabelFilePath = Inr m" by (simp add: m_def)
  moreover have "map_of m K8sDiscoverLabel = Some K8sDiscoverLabelVal"
    by (simp add: m_def fold_update_map_of exampleLabels_plain(1)) (simp add: exampleLabels_def K8sDiscoverLabel_def)
  moreover have "su_readFile exampleStartup ''agent.yaml'' = Inr []" by (simp add: exampleStartup_def DefaultLabelFilePath_def)
  ultimately show ?thesis
    by (simp add: parsePluginManagerConfig_def checkConfig_def exampleStartup_unmarshal exampleStartup_getenv
        ComputeAgentId_def zeroAgentConfig_def second_def Let_def)
qed

theorem agent_starts_valid_witness:
  "\<exists>pm st reg. NewPluginManager exampleStartup ''agent.yaml'' [] = Some (Inr (pm, st), reg) \<and>
     ai_NodeName (ac_RunTimeInfo (pm_config pm)) \<noteq> [] \<and> ac_DiscoveredPlugins (pm_config pm) = [(''dns'', [''./p/test-dns''])] \<and>
     map_of reg = map_of (ac_DiscoveredPlugins (pm_config pm))"
proof -
  obtain c where c: "parsePluginManagerConfig exampleStartup ''agent.yaml'' = Some (Inr (''pod-1/heart'', c))"
    "ac_EnabledPlugins c = [\<lparr>pdc_Path = ''p/*'', pdc_Cmd = []\<rparr>]" "sc_Type (ac_StoreConfig c) = ''redis''"
    using exampleStartup_config by blast
  have "discoverAll exampleStartup (ac_EnabledPlugins c) [] = Inr [(''dns'', [''./p/test-dns''])]"
    unfolding c(2) by (simp add: DiscoverPlugins_def exampleStartup_glob discoverFile_def SyntestPrefix_def strings_HasPrefix_def strings_TrimPrefix_def)
  then obtain pm reg where pm: "NewPluginManager exampleStartup ''agent.yaml'' [] =
      Some (Inr (pm, NewRedisSynHeartStore (su_connect exampleStartup (sc_Address (ac_StoreConfig c)))), reg)"
    "ac_DiscoveredPlugins (pm_config pm) = [(''dns'', [''./p/test-dns''])]"
    using c by (simp add: NewPluginManager_def NewExtStorageHandler_def NewSynHeartStore_def Let_def)
  with agent_starts_valid[OF pm(1)] show ?thesis by simp
qed

text \<open>
  A plugin whose path already starts with \<open>./\<close> is registered with no command at all, and the
  routine of a test that uses it fails on the first element of that command.
\<close>

lemma dotted_path_no_command:
  assumes "pdc_Cmd config = []" and "strings_HasPrefix path ''./''" and "strings_HasPrefix (last (strings_Split CHR ''/'' path)) SyntestPrefix"
  shows "map_of (discoverFile config path plugins) (strings_TrimPrefix (last (strings_Split CHR ''/'' path)) SyntestPrefix) = Some []"
  using assms by (simp add: discoverFile_def Let_def update_conv')

end
