(* ===== verification/StoreProps.thy ===== *)
theory StoreProps
  imports MemoryRedis StateMap
begin

text \<open>
  The properties of the storage, over every Redis server that behaves as documented. Those that
  assume \<open>redis_service\<close> hold whatever commands fail; those that assume \<open>reliable_redis\<close> also
  say that the methods succeed.
\<close>

section \<open>Configurations\<close>

context reliable_redis begin

lemma config_roundtrip_law:
  assumes "redisInv r (v s)" and "rs_marshalConfig r c = Inr b"
  shows "\<exists>s1 s2 m s3. WriteTestConfig r c raw s = (Inr (), s1) \<and>
    FetchTestConfig r (cid c) s1 = (Inr c, s2) \<and> FetchAllTestConfigSummary r s2 = (Inr m, s3) \<and>
    map_of m (cid c) = Some (through (rs_marshalSummary r) (rs_unmarshalSummary r) (summaryOf c)) \<and>
    offConfig (cid c) (viewOf r (v s3)) = offConfig (cid c) (viewOf r (v s))"
proof -
  obtain s1 where w: "WriteTestConfig r c raw s = (Inr (), s1)"
    using write_config_total_law[OF assms, of raw] by (metis prod.collapse)
  note law1 = write_config_law[OF assms(1) w]
  obtain res2 s2 where f: "FetchTestConfig r (cid c) s1 = (res2, s2)" by (cases "FetchTestConfig r (cid c) s1")
  note law2 = fetch_config_law[OF law1(1) f]
  have c: "res2 = Inr c"
    using rstore.fetch_config_total[OF law1(1), of "cid c"] law1(4) f by (simp add: NewRedisSynHeartStore_def)
  obtain m s3 where m: "FetchAllTestConfigSummary r s2 = (Inr m, s3)"
    using rstore.fetch_summaries_total[of s2] law2
    by (cases "FetchAllTestConfigSummary r s2") (auto simp: NewRedisSynHeartStore_def)
  with fetch_summaries_law[OF _ m] law1 law2 w f c show ?thesis by auto
qed

end



text \<open>
  C14. A failed write is confined: whichever commands of a configuration write fail, the
  other configurations, the agents and the run data stay as they are, and the stored
  configuration is the old one or the new one. When the write returns no error all of it is
  stored.
\<close>

theorem config_write_confined:
  assumes "redis_service r v" and "redisInv r (v s)" and "WriteTestConfig r c raw s = (res, s')"
  shows "redisInv r (v s') \<and> offConfig (cid c) (viewOf r (v s')) = offConfig (cid c) (viewOf r (v s)) \<and>
    v_cfg (viewOf r (v s')) (cid c) \<in> {v_cfg (viewOf r (v s)) (cid c), Some c} \<and>
    (res = Inr () \<longrightarrow> v_cfg (viewOf r (v s')) (cid c) = Some c \<and> v_raw (viewOf r (v s')) (cid c) = Some raw)"
  using redis_service.write_config_law[OF assms] by blast

theorem config_write_confined_witness:
  "redisInv memStore (memView (snd (WriteTestConfig memStore zeroSynTestConfig ''raw'' emptyMem)))"
  using config_write_confined[OF memory.redis_service_axioms emptyMem_inv, of zeroSynTestConfig "''raw''"]
  by (metis prod.collapse)

text \<open>
  Deleting a configuration removes all of it: over a server that answers, the delete returns no
  error, the configuration and its status can no longer be fetched (\<open>ErrNotFound\<close>), it is not
  in the list of summaries, and no other data has changed.
\<close>

theorem config_delete_complete:
  assumes "reliable_redis r v" and "redisInv r (v s)"
  shows "\<exists>s1 s2. DeleteTestConfig r i s = (Inr (), s1) \<and> FetchTestConfig r i s1 = (Inl ErrNotFound, s2) \<and>
    v_sum (viewOf r (v s1)) i = None \<and> v_status (viewOf r (v s1)) i = None \<and>
    offConfig i (viewOf r (v s1)) = offConfig i (viewOf r (v s))"
proof -
  note R = reliable_redis.axioms(1)[OF assms(1)]
  obtain s1 where d: "DeleteTestConfig r i s = (Inr (), s1)"
    using reliable_redis.delete_config_total_law[OF assms] by (metis prod.collapse)
  note law = redis_service.delete_config_law[OF R assms(2) d]
  have "decodable (rs_unmarshalConfig r) (rv_str (v s1) (ConfigSynTestJsonFmt i))"
    using law(1) by (simp add: redisInv_def)
  from reliable_redis.fetched_total[OF assms(1) law(1) stringFmts_mem(5) this] law(4)
  have "fst (FetchTestConfig r i s1) = Inl ErrNotFound"
    by (simp add: FetchTestConfig_def viewOf_def)
  then obtain s2 where "FetchTestConfig r i s1 = (Inl ErrNotFound, s2)" by (metis prod.collapse)
  with d law show ?thesis by blast
qed

theorem config_delete_complete_witness:
  "\<exists>s1. DeleteTestConfig memStore ''dns/prod'' emptyMem = (Inr (), s1)"
  using config_delete_complete[OF memory.reliable_redis_axioms emptyMem_inv, of "''dns/prod''"] by blast

section \<open>Test runs\<close>

definition passRatioOf :: "TestRun \<Rightarrow> f64" where
  "passRatioOf t = f64_div (tres_Marks (tr_TestResult t)) (tres_MaxMarks (tr_TestResult t))"

definition writeRunCmds :: "string \<Rightarrow> TestRun \<Rightarrow> string \<Rightarrow> (bool \<times> redis_cmd) list" where
  "writeRunCmds i t b = [(True, SET (TestRunLatestFmt i) b),
     (True, HSET AllTestRunStatus i (f64_format5 (passRatioOf t)))] @
     (if f64_lt1 (passRatioOf t) then [(True, SET (TestRunLastFailedFmt i) b)] else []) @
     [(True, PUBLISH SynTestChannel (''new run: '' @ i))]"

definition writeHealthCmds :: "string \<Rightarrow> PluginState \<Rightarrow> string \<Rightarrow> (bool \<times> redis_cmd) list" where
  "writeHealthCmds i p b = [(True, SET (PluginLatestHealthFmt i) b)] @
     (if ps_Status p \<noteq> Running then [(True, SET (PluginLastUnhealthyFmt i) b)] else []) @
     [(True, HSET AllPluginStatus i (ps_Status p))]"

lemma run_cmds_good:
  "(m, d) \<in> set (writeRunCmds i t b) \<Longrightarrow> goodCmd r d \<and> pluginCmd i d"
  "(m, d) \<in> set (writeHealthCmds i p b) \<Longrightarrow> goodCmd r d \<and> pluginCmd i d"
  by (auto simp: writeRunCmds_def writeHealthCmds_def key_simps goodCmd_set
      simp del: goodCmd.simps(1) split: if_splits)

context redis_service begin

lemma WriteTestRun_chain:
  assumes "rs_marshalRun r t = Inr b"
  shows "WriteTestRun r i t s = (res, s') \<Longrightarrow> chain (writeRunCmds i t b) (res = Inr ()) (v s) (v s')"
  unfolding WriteTestRun_def UpdateTestRunStatus_def assms sum.case Let_def passRatioOf_def[symmetric]
    writeRunCmds_def append.simps
  apply (erule chain_must, erule primitives_did)
  apply (erule chain_must, erule primitives_did)
  apply (cases "f64_lt1 (passRatioOf t)"; simp only: if_True if_False append.simps andThen.simps)
   apply (erule chain_must, erule primitives_did)
   apply (erule chain_end, erule primitives_did)
  apply (erule chain_end, erule primitives_did)
  done

lemma UpdatePluginStatus_did:
  "UpdatePluginStatus r i x s = (res, s') \<Longrightarrow> did (res = Inr ()) (HSET AllPluginStatus i x) (v s) (v s')"
  unfolding UpdatePluginStatus_def by (rule did_wrapErr[OF primitives_did(3)])

lemma WritePluginHealthStatus_chain:
  assumes "rs_marshalState r p = Inr b"
  shows "WritePluginHealthStatus r i p s = (res, s') \<Longrightarrow> chain (writeHealthCmds i p b) (res = Inr ()) (v s) (v s')"
  unfolding WritePluginHealthStatus_def assms sum.case writeHealthCmds_def append.simps
  apply (erule chain_must, erule primitives_did)
  apply (cases "ps_Status p = Running"; simp only: simp_thms if_True if_False append.simps andThen.simps)
   apply (erule chain_end, erule UpdatePluginStatus_did)
  apply (erule chain_must, erule primitives_did)
  apply (erule chain_end, erule UpdatePluginStatus_did)
  done

lemma plugin_cmds_law:
  assumes "chain cs ok (v s) (v s')" and "\<And>m d. (m, d) \<in> set cs \<Longrightarrow> goodCmd r d \<and> pluginCmd i d"
    and "redisInv r (v s)"
  shows "redisInv r (v s')" "offPlugin i (viewOf r (v s')) = offPlugin i (viewOf r (v s))"
  using cmds_inv[OF assms(1) _ assms(3)] chain_keeps[OF assms(1), of "\<lambda>w. offPlugin i (viewOf r w)"]
    assms(2) pluginCmd_frame by blast+

lemma write_run_law:
  assumes inv: "redisInv r (v s)" and w: "WriteTestRun r i t s = (Inr (), s')"
  shows "redisInv r (v s')" "offPlugin i (viewOf r (v s')) = offPlugin i (viewOf r (v s))"
    "v_latest (viewOf r (v s')) i = Some t"
    "v_runStatus (viewOf r (v s')) i = Some (f64_format5 (passRatioOf t))"
    "v_failed (viewOf r (v s')) i = (if f64_lt1 (passRatioOf t) then Some t else v_failed (viewOf r (v s)) i)"
proof -
  obtain b where b: "rs_marshalRun r t = Inr b"
    using w by (cases "rs_marshalRun r t") (auto simp: WriteTestRun_def)
  note ch = WriteTestRun_chain[OF b w, simplified]
  show "redisInv r (v s')" by (rule plugin_cmds_law(1)[OF ch run_cmds_good(1) inv])
  show "offPlugin i (viewOf r (v s')) = offPlugin i (viewOf r (v s))"
    by (rule plugin_cmds_law(2)[OF ch run_cmds_good(1) inv])
  show "v_latest (viewOf r (v s')) i = Some t"
    by (rule chain_establishes_nth[OF ch, of 0 _ "\<lambda>w. v_latest (viewOf r w) i = Some t"])
      (auto simp: writeRunCmds_def viewOf_def key_simps run_codec[OF b] split: if_splits)
  show "v_runStatus (viewOf r (v s')) i = Some (f64_format5 (passRatioOf t))"
    by (rule chain_establishes_nth[OF ch, of 1 _ "\<lambda>w. v_runStatus (viewOf r w) i = Some (f64_format5 (passRatioOf t))"])
      (auto simp: writeRunCmds_def viewOf_def key_simps split: if_splits)
  show "v_failed (viewOf r (v s')) i = (if f64_lt1 (passRatioOf t) then Some t else v_failed (viewOf r (v s)) i)"
  proof (cases "f64_lt1 (passRatioOf t)")
    case True
    have "v_failed (viewOf r (v s')) i = Some t"
      by (rule chain_establishes_nth[OF ch, of 2 _ "\<lambda>w. v_failed (viewOf r w) i = Some t"])
        (auto simp: writeRunCmds_def viewOf_def key_simps run_codec[OF b] True)
    with True show ?thesis by simp
  next
    case False
    have "v_failed (viewOf r (v s')) i = v_failed (viewOf r (v s)) i"
      by (rule chain_keeps[OF ch]) (auto simp: writeRunCmds_def viewOf_def key_simps False)
    with False show ?thesis by simp
  qed
qed

lemma write_health_law:
  assumes inv: "redisInv r (v s)" and w: "WritePluginHealthStatus r i p s = (Inr (), s')"
    and q: "q = through (rs_marshalState r) (rs_unmarshalState r) p"
  shows "redisInv r (v s')" "offPlugin i (viewOf r (v s')) = offPlugin i (viewOf r (v s))"
    "v_health (viewOf r (v s')) i = Some q" "v_pluginStatus (viewOf r (v s')) i = Some (ps_Status p)"
    "v_unhealthy (viewOf r (v s')) i = (if ps_Status p \<noteq> Running then Some q else v_unhealthy (viewOf r (v s)) i)"
proof -
  obtain b where b: "rs_marshalState r p = Inr b"
    using w by (cases "rs_marshalState r p") (auto simp: WritePluginHealthStatus_def)
  have u: "rs_unmarshalState r b = Inr q" using state_codec[OF b] q b by (auto simp: through_def)
  note ch = WritePluginHealthStatus_chain[OF b w, simplified]
  show "redisInv r (v s')" by (rule plugin_cmds_law(1)[OF ch run_cmds_good(2) inv])
  show "offPlugin i (viewOf r (v s')) = offPlugin i (viewOf r (v s))"
    by (rule plugin_cmds_law(2)[OF ch run_cmds_good(2) inv])
  show "v_health (viewOf r (v s')) i = Some q"
    by (rule chain_establishes_nth[OF ch, of 0 _ "\<lambda>w. v_health (viewOf r w) i = Some q"])
      (auto simp: writeHealthCmds_def viewOf_def key_simps u split: if_splits)
  show "v_pluginStatus (viewOf r (v s')) i = Some (ps_Status p)"
    by (rule chain_establishes_nth[OF ch, of "length (writeHealthCmds i p b) - 1" _ "\<lambda>w. v_pluginStatus (viewOf r w) i = Some (ps_Status p)"])
      (auto simp: writeHealthCmds_def viewOf_def key_simps)
  show "v_unhealthy (viewOf r (v s')) i = (if ps_Status p \<noteq> Running then Some q else v_unhealthy (viewOf r (v s)) i)"
  proof (cases "ps_Status p = Running")
    case False
    have "v_unhealthy (viewOf r (v s')) i = Some q"
      by (rule chain_establishes_nth[OF ch, of 1 _ "\<lambda>w. v_unhealthy (viewOf r w) i = Some q"])
        (auto simp: writeHealthCmds_def viewOf_def key_simps u False)
    with False show ?thesis by simp
  next
    case True
    have "v_unhealthy (viewOf r (v s')) i = v_unhealthy (viewOf r (v s)) i"
      by (rule chain_keeps[OF ch]) (auto simp: writeHealthCmds_def viewOf_def key_simps True)
    with True show ?thesis by simp
  qed
qed

end

text \<open>
  A stored run: when a run is written without an error it is the latest run of its plugin; it
  is also the last failed run exactly when its marks are below the maximum, and otherwise the last
  failed run is kept; the data of every other plugin is as before. The marks are integers a float
  represents exactly.
\<close>

theorem run_recorded:
  assumes "redis_service r v" and "redisInv r (v s)" and "WriteTestRun r i t s = (Inr (), s')"
    and "tres_Marks (tr_TestResult t) < 2 ^ 53"
    and "0 < tres_MaxMarks (tr_TestResult t)" and "tres_MaxMarks (tr_TestResult t) < 2 ^ 53"
  shows "v_latest (viewOf r (v s')) i = Some t \<and>
    v_failed (viewOf r (v s')) i =
      (if tres_Marks (tr_TestResult t) < tres_MaxMarks (tr_TestResult t) then Some t
       else v_failed (viewOf r (v s)) i) \<and>
    offPlugin i (viewOf r (v s')) = offPlugin i (viewOf r (v s))"
  using redis_service.write_run_law[OF assms(1-3)] f64_lt1_div[OF assms(4-6)] by (simp add: passRatioOf_def)

definition exampleRun :: TestRun where
  "exampleRun = TestRun ''run-1'' ''pod-1/heart'' ''t0'' ''t1'' zeroSynTestConfig
     (Trigger TriggerTypeTimer None []) \<lparr>tres_Marks = 1, tres_MaxMarks = 2, tres_Details = []\<rparr> []"

lemma exampleRun_written:
  "\<exists>s'. WriteTestRun memStore ''dns/prod/pod-1/heart'' exampleRun emptyMem = (Inr (), s')"
  by (simp add: WriteTestRun_def exampleRun_def memStore_def encRun_def SetR_def Let_def
      UpdateTestRunStatus_def HSetR_def PublishR_def emptyMem_def isStr_def memHash_def hash_key_defs
      string_key_defs eval_nat_numeral)

theorem run_recorded_witness:
  "\<exists>s'. WriteTestRun memStore ''dns/prod/pod-1/heart'' exampleRun emptyMem = (Inr (), s') \<and>
    v_failed (viewOf memStore (memView s')) ''dns/prod/pod-1/heart'' = Some exampleRun"
  using exampleRun_written run_recorded[OF memory.redis_service_axioms emptyMem_inv,
      of "''dns/prod/pod-1/heart''" exampleRun]
  by (auto simp: exampleRun_def)

text \<open>
  The pass ratio is a float: as printed for the status table, full marks are always
  \<open>1.00000\<close>, and a run with no marks at all out of no maximum is \<open>NaN\<close>, which is not below one,
  so it is never stored as a failed run.
\<close>

theorem pass_ratio_printed:
  assumes "0 < m" and "m < 2 ^ 53"
  shows "f64_format5 (f64_div m m) = ''1.00000'' \<and>
    f64_format5 (f64_div 0 0) = ''NaN'' \<and> \<not> f64_lt1 (f64_div 0 0)"
  using f64_format5_full[OF assms] by (simp add: f64_div_def f64_of_uint_def f64_quot_def)

theorem pass_ratio_printed_witness: "f64_format5 (f64_div 7 7) = ''1.00000''"
  using pass_ratio_printed[of 7] by simp

section \<open>Plugin health\<close>

text \<open>
  Plugin health: when a plugin state is written without an error it is the latest health of
  the plugin and its status is in the status table; it replaces the last unhealthy state exactly
  when the plugin is not running, so the reason of the last failure survives a restart.
\<close>

theorem health_recorded:
  assumes "redis_service r v" and "redisInv r (v s)" and "WritePluginHealthStatus r i p s = (Inr (), s')"
    and "through (rs_marshalState r) (rs_unmarshalState r) p = p"
  shows "v_health (viewOf r (v s')) i = Some p \<and> v_pluginStatus (viewOf r (v s')) i = Some (ps_Status p) \<and>
    v_unhealthy (viewOf r (v s')) i = (if ps_Status p \<noteq> Running then Some p else v_unhealthy (viewOf r (v s)) i) \<and>
    offPlugin i (viewOf r (v s')) = offPlugin i (viewOf r (v s))"
  using redis_service.write_health_law[OF assms(1-3) assms(4)[symmetric]] by blast

lemma zeroState_written:
  "\<exists>s'. WritePluginHealthStatus memStore ''dns/prod/pod-1/heart'' zeroPluginState emptyMem = (Inr (), s')"
  by (simp add: WritePluginHealthStatus_def memStore_def SetR_def UpdatePluginStatus_def HSetR_def
      emptyMem_def isStr_def memHash_def hash_key_defs string_key_defs eval_nat_numeral)

theorem health_recorded_witness:
  "\<exists>s'. WritePluginHealthStatus memStore ''dns/prod/pod-1/heart'' zeroPluginState emptyMem = (Inr (), s') \<and>
    v_unhealthy (viewOf memStore (memView s')) ''dns/prod/pod-1/heart'' = Some zeroPluginState"
  using zeroState_written health_recorded[OF memory.redis_service_axioms emptyMem_inv,
      of "''dns/prod/pod-1/heart''" zeroPluginState]
  by (auto simp: through_def memStore_def zeroPluginState_def Running_def)

text \<open>
  Deleting the data of a plugin never reports an error; over a server that answers it
  leaves nothing: the latest and last failed runs, both health records and both status entries are
  gone, and the data of every other plugin is as before.
\<close>

theorem run_data_deleted:
  assumes "reliable_redis r v" and "redisInv r (v s)"
  shows "\<exists>s'. DeleteAllTestRunInfo r i s = (Inr (), s') \<and>
    v_latest (viewOf r (v s')) i = None \<and> v_failed (viewOf r (v s')) i = None \<and>
    v_health (viewOf r (v s')) i = None \<and> v_unhealthy (viewOf r (v s')) i = None \<and>
    v_runStatus (viewOf r (v s')) i = None \<and> v_pluginStatus (viewOf r (v s')) i = None \<and>
    offPlugin i (viewOf r (v s')) = offPlugin i (viewOf r (v s))"
proof -
  obtain s' where s': "DeleteAllTestRunInfo r i s = (Inr (), s')"
    and ch: "chain (map (\<lambda>(_, c). (True, c)) (deleteRunCmds i)) True (v s) (v s')"
    using reliable_redis.delete_run_info_all[OF assms] by blast
  have gone: "Q (v s')" if "n < 6" "\<And>w. Q (effect (snd (deleteRunCmds i ! n)) w)"
    "\<And>b d w. (b, d) \<in> set (deleteRunCmds i) \<Longrightarrow> Q w \<Longrightarrow> Q (effect d w)" for n Q
  proof (rule chain_establishes_nth[OF ch, of n "snd (deleteRunCmds i ! n)" Q])
    have len: "length (deleteRunCmds i) = 6" by (simp add: deleteRunCmds_def)
    show "n < length (map (\<lambda>(_, c). (True, c)) (deleteRunCmds i))" using that(1) len by simp
    show "map (\<lambda>(_, c). (True, c)) (deleteRunCmds i) ! n = (True, snd (deleteRunCmds i ! n))"
      using that(1) len by (simp add: case_prod_beta)
    show "Q (effect d w)" if m: "(m, d) \<in> set (drop (Suc n) (map (\<lambda>(_, c). (True, c)) (deleteRunCmds i)))" "Q w"
      for m d w
      using in_set_dropD[OF m(1)] m(2) \<open>\<And>b d w. (b, d) \<in> set (deleteRunCmds i) \<Longrightarrow> Q w \<Longrightarrow> Q (effect d w)\<close>
      by auto
  qed (rule that(2))
  have "v_latest (viewOf r (v s')) i = None"
    by (rule gone[of 2 "\<lambda>w. v_latest (viewOf r w) i = None"]) (auto simp: deleteRunCmds_def viewOf_def key_simps)
  moreover have "v_failed (viewOf r (v s')) i = None"
    by (rule gone[of 3 "\<lambda>w. v_failed (viewOf r w) i = None"]) (auto simp: deleteRunCmds_def viewOf_def key_simps)
  moreover have "v_health (viewOf r (v s')) i = None"
    by (rule gone[of 4 "\<lambda>w. v_health (viewOf r w) i = None"]) (auto simp: deleteRunCmds_def viewOf_def key_simps)
  moreover have "v_unhealthy (viewOf r (v s')) i = None"
    by (rule gone[of 5 "\<lambda>w. v_unhealthy (viewOf r w) i = None"]) (auto simp: deleteRunCmds_def viewOf_def key_simps)
  moreover have "v_runStatus (viewOf r (v s')) i = None"
    by (rule gone[of 0 "\<lambda>w. v_runStatus (viewOf r w) i = None"]) (auto simp: deleteRunCmds_def viewOf_def key_simps)
  moreover have "v_pluginStatus (viewOf r (v s')) i = None"
    by (rule gone[of 1 "\<lambda>w. v_pluginStatus (viewOf r w) i = None"]) (auto simp: deleteRunCmds_def viewOf_def key_simps)
  ultimately show ?thesis
    using s' redis_service.delete_run_info_law(2)[OF reliable_redis.axioms(1)[OF assms(1)] assms(2) s'] by blast
qed

theorem run_data_deleted_witness:
  "\<exists>s'. DeleteAllTestRunInfo memStore ''dns/prod/pod-1/heart'' emptyMem = (Inr (), s')"
  using run_data_deleted[OF memory.reliable_redis_axioms emptyMem_inv, of "''dns/prod/pod-1/heart''"] by blast

section \<open>Retries\<close>

text \<open>
  Only transport errors are retried: when the server's reply to a read is an error or the nil
  reply, or the context has ended, that error is the result of the read after a single attempt.
\<close>

theorem replies_not_retried:
  assumes "redis_service r v" and "rs_client r (GET k) s = (Inl e, s1)" and "isRedisError e \<or> isCtxError e"
  shows "GetR r k s = (Inl e, s1)"
proof -
  have "\<not> retriableGet e" using assms(3) by (auto simp: retriableGet_def)
  with redis_service.onError_retries[OF assms(1), of retriableGet "rs_client r (GET k)" s] assms(2)
  have "rs_onError r retriableGet (rs_client r (GET k)) s = (Inl e, s1)"
    by (cases rule: retried.cases) auto
  then show ?thesis by (simp add: GetR_def)
qed

theorem replies_not_retried_witness:
  "GetR memStore (ConfigSynTestJsonFmt ''dns/prod'') emptyMem = (Inl RedisNil, emptyMem)"
  using replies_not_retried[OF memory.redis_service_axioms, of "ConfigSynTestJsonFmt ''dns/prod''" emptyMem RedisNil emptyMem]
  by (simp add: memStore_def emptyMem_def)

end
