(* ===== verification/RunStore.thy ===== *)
theory RunStore
  imports StoreProps
begin

text \<open>
  The part of the storage contract that the exporters of the agent and the REST API rely on: runs
  and plugin states. \<open>nstate\<close> is what is kept of a plugin state that is written and read
  back.
\<close>

section \<open>The contract\<close>

text \<open>The data of runs, and the data of plugin health.\<close>

definition runData :: "store_view \<Rightarrow> (string \<rightharpoonup> TestRun) \<times> (string \<rightharpoonup> TestRun) \<times> (string \<rightharpoonup> string)" where
  "runData a = (v_latest a, v_failed a, v_runStatus a)"

definition healthData :: "store_view \<Rightarrow> (string \<rightharpoonup> PluginState) \<times> (string \<rightharpoonup> PluginState) \<times> (string \<rightharpoonup> string)" where
  "healthData a = (v_health a, v_unhealthy a, v_pluginStatus a)"

locale run_store = synheart_store +
  fixes nstate :: "PluginState \<Rightarrow> PluginState"
  assumes write_run: "inv s \<Longrightarrow> st_WriteTestRun st i t s = (res, s') \<Longrightarrow>
      inv s' \<and> offPlugin i (view s') = offPlugin i (view s) \<and> healthData (view s') = healthData (view s) \<and>
      (res = Inr () \<longrightarrow> v_latest (view s') i = Some t \<and>
        v_runStatus (view s') i = Some (f64_format5 (passRatioOf t)) \<and>
        v_failed (view s') i = (if f64_lt1 (passRatioOf t) then Some t else v_failed (view s) i))"
    and write_health: "inv s \<Longrightarrow> st_WritePluginHealthStatus st i p s = (res, s') \<Longrightarrow>
      inv s' \<and> offPlugin i (view s') = offPlugin i (view s) \<and> runData (view s') = runData (view s) \<and>
      (res = Inr () \<longrightarrow> v_health (view s') i = Some (nstate p) \<and> v_pluginStatus (view s') i = Some (ps_Status p) \<and>
        v_unhealthy (view s') i = (if ps_Status p \<noteq> Running then Some (nstate p) else v_unhealthy (view s) i))"
    and fetch_latest_run: "inv s \<Longrightarrow> st_FetchLatestTestRun st i s = (res5, s') \<Longrightarrow>
      inv s' \<and> view s' = view s \<and> (\<forall>t. res5 = Inr t \<longrightarrow> v_latest (view s) i = Some t) \<and>
      (res5 = Inl ErrNotFound \<longrightarrow> v_latest (view s) i = None)"
    and fetch_failed_run: "inv s \<Longrightarrow> st_FetchLastFailedTestRun st i s = (res5, s') \<Longrightarrow>
      inv s' \<and> view s' = view s \<and> (\<forall>t. res5 = Inr t \<longrightarrow> v_failed (view s) i = Some t) \<and>
      (res5 = Inl ErrNotFound \<longrightarrow> v_failed (view s) i = None)"

text \<open>Storage that answers, and can encode the plugin states and the runs in \<open>encodableRun\<close>.\<close>

locale reliable_run_store = run_store +
  fixes encodableRun :: "TestRun \<Rightarrow> bool"
  assumes write_run_total: "inv s \<Longrightarrow> encodableRun t \<Longrightarrow> fst (st_WriteTestRun st i t s) = Inr ()"
    and write_health_total: "inv s \<Longrightarrow> fst (st_WritePluginHealthStatus st i p s) = Inr ()"
    and write_status_total: "inv s \<Longrightarrow> fst (st_WriteAgentStatus st a x s) = Inr ()"
    and fetch_latest_run_total: "inv s \<Longrightarrow> v_latest (view s) i = Some t \<Longrightarrow> fst (st_FetchLatestTestRun st i s) = Inr t"
    and fetch_failed_run_total: "inv s \<Longrightarrow> v_failed (view s) i = Some t \<Longrightarrow> fst (st_FetchLastFailedTestRun st i s) = Inr t"

section \<open>The Redis storage meets it\<close>

context redis_service begin

lemma write_run_frame:
  assumes inv: "redisInv r (v s)" and w: "WriteTestRun r i t s = (res, s')"
  shows "redisInv r (v s')" "offPlugin i (viewOf r (v s')) = offPlugin i (viewOf r (v s))"
    "healthData (viewOf r (v s')) = healthData (viewOf r (v s))"
proof -
  have "redisInv r (v s') \<and> offPlugin i (viewOf r (v s')) = offPlugin i (viewOf r (v s)) \<and>
    healthData (viewOf r (v s')) = healthData (viewOf r (v s))"
  proof (cases "rs_marshalRun r t")
    case (Inl e)
    with w inv show ?thesis by (auto simp: WriteTestRun_def)
  next
    case (Inr b)
    note ch = WriteTestRun_chain[OF Inr w]
    have "healthData (viewOf r (v s')) = healthData (viewOf r (v s))"
      by (rule chain_keeps[OF ch, of "\<lambda>w. healthData (viewOf r w)"])
        (auto simp: writeRunCmds_def viewOf_def healthData_def key_simps split: if_splits)
    then show ?thesis
      using plugin_cmds_law(1)[OF ch run_cmds_good(1) inv] plugin_cmds_law(2)[OF ch run_cmds_good(1) inv] by auto
  qed
  then show "redisInv r (v s')" "offPlugin i (viewOf r (v s')) = offPlugin i (viewOf r (v s))"
    "healthData (viewOf r (v s')) = healthData (viewOf r (v s))" by blast+
qed

lemma write_health_frame:
  assumes inv: "redisInv r (v s)" and w: "WritePluginHealthStatus r i p s = (res, s')"
  shows "redisInv r (v s')" "offPlugin i (viewOf r (v s')) = offPlugin i (viewOf r (v s))"
    "runData (viewOf r (v s')) = runData (viewOf r (v s))"
proof -
  have "redisInv r (v s') \<and> offPlugin i (viewOf r (v s')) = offPlugin i (viewOf r (v s)) \<and>
    runData (viewOf r (v s')) = runData (viewOf r (v s))"
  proof (cases "rs_marshalState r p")
    case (Inl e)
    with w inv show ?thesis by (auto simp: WritePluginHealthStatus_def)
  next
    case (Inr b)
    note ch = WritePluginHealthStatus_chain[OF Inr w]
    have "runData (viewOf r (v s')) = runData (viewOf r (v s))"
      by (rule chain_keeps[OF ch, of "\<lambda>w. runData (viewOf r w)"])
        (auto simp: writeHealthCmds_def viewOf_def runData_def key_simps split: if_splits)
    then show ?thesis
      using plugin_cmds_law(1)[OF ch run_cmds_good(2) inv] plugin_cmds_law(2)[OF ch run_cmds_good(2) inv] by auto
  qed
  then show "redisInv r (v s')" "offPlugin i (viewOf r (v s')) = offPlugin i (viewOf r (v s))"
    "runData (viewOf r (v s')) = runData (viewOf r (v s))" by blast+
qed

end

sublocale redis_service \<subseteq> runs: run_store "NewRedisSynHeartStore r" "\<lambda>s. viewOf r (v s)"
    "\<lambda>s. redisInv r (v s)" "through (rs_marshalSummary r) (rs_unmarshalSummary r)"
    "through (rs_marshalAgent r) (rs_unmarshalAgent r)" "through (rs_marshalStatus r) (rs_unmarshalStatus r)"
    "through (rs_marshalState r) (rs_unmarshalState r)"
proof (unfold_locales, goal_cases)
  case (1 s i t res s')
  then have w: "WriteTestRun r i t s = (res, s')" by (simp add: NewRedisSynHeartStore_def)
  with write_run_frame[OF 1(1) w] write_run_law[OF 1(1)] show ?case by blast
next
  case (2 s i p res s')
  then have w: "WritePluginHealthStatus r i p s = (res, s')" by (simp add: NewRedisSynHeartStore_def)
  with write_health_frame[OF 2(1) w] write_health_law[OF 2(1) _ refl] show ?case by blast
next
  case (3 s i res s')
  then have "FetchLatestTestRun r i s = (res, s')" by (simp add: NewRedisSynHeartStore_def)
  from fetched_law[OF this[unfolded FetchLatestTestRun_def]] 3(1) show ?case by (auto simp: viewOf_def)
next
  case (4 s i res s')
  then have "FetchLastFailedTestRun r i s = (res, s')" by (simp add: NewRedisSynHeartStore_def)
  from fetched_law[OF this[unfolded FetchLastFailedTestRun_def]] 4(1) show ?case by (auto simp: viewOf_def)
qed

context reliable_redis begin

lemma write_run_total_law:
  assumes inv: "redisInv r (v s)" and b: "rs_marshalRun r t = Inr b"
  shows "fst (WriteTestRun r i t s) = Inr ()"
proof -
  have g: "goodCmd r (SET (TestRunLatestFmt i) b)" "goodCmd r (HSET AllTestRunStatus i x)" "goodCmd r (SET (TestRunLastFailedFmt i) b)" for x
    by (auto simp: key_simps goodCmd_set simp del: goodCmd.simps(1))
  obtain s1 where s1: "SetR r (TestRunLatestFmt i) b s = (Inr (), s1)" "redisInv r (v s1)"
    using primitives_total(1)[OF inv g(1)] by blast
  obtain s2 where s2: "HSetR r AllTestRunStatus i (f64_format5 (passRatioOf t)) s1 = (Inr (), s2)" "redisInv r (v s2)"
    using primitives_total(3)[OF s1(2) g(2)] by blast
  obtain s3 where s3: "SetR r (TestRunLastFailedFmt i) b s2 = (Inr (), s3)" "redisInv r (v s3)"
    using primitives_total(1)[OF s2(2) g(3)] by blast
  obtain s4 where s4: "PublishR r SynTestChannel (''new run: '' @ i) s3 = (Inr (), s4)"
    using primitives_total(5)[OF s3(2)] by blast
  obtain s5 where s5: "PublishR r SynTestChannel (''new run: '' @ i) s2 = (Inr (), s5)"
    using primitives_total(5)[OF s2(2)] by blast
  show ?thesis
    using b s1(1) s2(1) s3(1) s4 s5 by (simp add: WriteTestRun_def UpdateTestRunStatus_def passRatioOf_def Let_def)
qed

lemma write_health_total_law:
  assumes inv: "redisInv r (v s)"
  shows "fst (WritePluginHealthStatus r i p s) = Inr ()"
proof -
  obtain b where b: "rs_marshalState r p = Inr b" using state_encodes by blast
  have g: "goodCmd r (SET (PluginLatestHealthFmt i) b)" "goodCmd r (HSET AllPluginStatus i x)" "goodCmd r (SET (PluginLastUnhealthyFmt i) b)" for x
    by (auto simp: key_simps goodCmd_set simp del: goodCmd.simps(1))
  obtain s1 where s1: "SetR r (PluginLatestHealthFmt i) b s = (Inr (), s1)" "redisInv r (v s1)"
    using primitives_total(1)[OF inv g(1)] by blast
  obtain s2 where s2: "SetR r (PluginLastUnhealthyFmt i) b s1 = (Inr (), s2)" "redisInv r (v s2)"
    using primitives_total(1)[OF s1(2) g(3)] by blast
  obtain s3 where s3: "HSetR r AllPluginStatus i (ps_Status p) s1 = (Inr (), s3)"
    using primitives_total(3)[OF s1(2) g(2)] by blast
  obtain s4 where s4: "HSetR r AllPluginStatus i (ps_Status p) s2 = (Inr (), s4)"
    using primitives_total(3)[OF s2(2) g(2)] by blast
  show ?thesis
    using b s1(1) s2(1) s3 s4
    by (cases "ps_Status p = Running") (simp_all add: WritePluginHealthStatus_def UpdatePluginStatus_def)
qed

lemma fetched_some:
  assumes "redisInv r (v s)" and "f \<in> set stringFmts" and "decode u (rv_str (v s) (f i)) = Some x"
  shows "fst (fetched msg umsg u (GetR r (f i) s)) = Inr x"
proof -
  have "decodable u (rv_str (v s) (f i))"
    using assms(3) by (cases "rv_str (v s) (f i)") (auto simp: decodable_def split: sum.splits)
  from fetched_total[OF assms(1,2) this] assms(3) show ?thesis by simp
qed

end

sublocale reliable_redis \<subseteq> rruns: reliable_run_store "NewRedisSynHeartStore r" "\<lambda>s. viewOf r (v s)"
    "\<lambda>s. redisInv r (v s)" "through (rs_marshalSummary r) (rs_unmarshalSummary r)"
    "through (rs_marshalAgent r) (rs_unmarshalAgent r)" "through (rs_marshalStatus r) (rs_unmarshalStatus r)"
    "through (rs_marshalState r) (rs_unmarshalState r)" "\<lambda>t. \<exists>b. rs_marshalRun r t = Inr b"
proof (unfold_locales, goal_cases)
  case (1 s t i)
  then show ?case using write_run_total_law by (auto simp: NewRedisSynHeartStore_def)
next
  case (2 s i p)
  then show ?case using write_health_total_law by (simp add: NewRedisSynHeartStore_def)
next
  case (3 s a x)
  then show ?case using rstore.write_agent_total by blast
next
  case (4 s i t)
  then show ?case
    using fetched_some[of s TestRunLatestFmt "rs_unmarshalRun r" i t]
    by (simp add: NewRedisSynHeartStore_def FetchLatestTestRun_def viewOf_def key_simps)
next
  case (5 s i t)
  then show ?case
    using fetched_some[of s TestRunLastFailedFmt "rs_unmarshalRun r" i t]
    by (simp add: NewRedisSynHeartStore_def FetchLastFailedTestRun_def viewOf_def key_simps)
qed

end
