(* ===== verification/Exporter.thy ===== *)
theory Exporter
  imports RunStore
begin

text \<open>
  The exporters of the agent (agent/pluginmanager/storage.go): one writes the agent status and the
  states of all plugins to the storage at every tick of its timer, the other writes the runs it
  receives from the broadcaster. Errors of the storage are logged and the loops go on.
\<close>

section \<open>The code\<close>

record 's ExtStorageHandler =
  esh_agentId :: string
  esh_Store :: "'s SynHeartStore"
  esh_config :: StorageConfig

text \<open>One tick: the formatted time and the state table that other routines share.\<close>

definition exportHealth :: "'s ExtStorageHandler \<Rightarrow> string \<Rightarrow> StateMap \<Rightarrow> 's \<Rightarrow> 's" where
  "exportHealth esh now sm s =
     (let pluginState = GetAllPluginState sm; agentStatus = GetAgentStatus now sm;
          s1 = snd (st_WriteAgentStatus (esh_Store esh) (esh_agentId esh) agentStatus s)
      in fold (\<lambda>(pluginId, state) s. snd (st_WritePluginHealthStatus (esh_Store esh) pluginId state s)) pluginState s1)"

datatype health_event = HealthTick string StateMap | HealthDone

text \<open>Whether the loop goes on, and the storage.\<close>

fun runPluginHealthExporter :: "'s ExtStorageHandler \<Rightarrow> health_event list \<Rightarrow> 's \<Rightarrow> bool \<times> 's" where
  "runPluginHealthExporter esh [] s = (True, s)"
| "runPluginHealthExporter esh (HealthDone # es) s = (False, s)"
| "runPluginHealthExporter esh (HealthTick now sm # es) s = runPluginHealthExporter esh es (exportHealth esh now sm s)"

definition runPluginId :: "TestRun \<Rightarrow> string" where
  "runPluginId t = ComputePluginId (stc_Name (tr_TestConfig t)) (stc_Namespace (tr_TestConfig t)) (tr_AgentId t)"

definition exportRun :: "'s ExtStorageHandler \<Rightarrow> TestRun \<Rightarrow> 's \<Rightarrow> 's" where
  "exportRun esh testRun s =
     (if tr_AgentId testRun \<noteq> esh_agentId esh then s
      else snd (st_WriteTestRun (esh_Store esh) (runPluginId testRun) testRun s))"

datatype run_event = RunReceived TestRun | RunsDone

fun runTestRunExporter :: "'s ExtStorageHandler \<Rightarrow> run_event list \<Rightarrow> 's \<Rightarrow> bool \<times> 's" where
  "runTestRunExporter esh [] s = (True, s)"
| "runTestRunExporter esh (RunsDone # es) s = (False, s)"
| "runTestRunExporter esh (RunReceived t # es) s = runTestRunExporter esh es (exportRun esh t s)"

text \<open>
  \<open>Run\<close>: both loops run as goroutines until the context ends; their ticks and runs come in any
  order. Nothing sends to its error channel, so it never returns an error.
\<close>

datatype esh_event = ExportTick string StateMap | ExportedRun TestRun | ExportDone

fun ExtStorageHandler_Run :: "'s ExtStorageHandler \<Rightarrow> esh_event list \<Rightarrow> 's \<Rightarrow> bool \<times> 's" where
  "ExtStorageHandler_Run esh [] s = (True, s)"
| "ExtStorageHandler_Run esh (ExportDone # es) s = (False, s)"
| "ExtStorageHandler_Run esh (ExportTick now sm # es) s = ExtStorageHandler_Run esh es (exportHealth esh now sm s)"
| "ExtStorageHandler_Run esh (ExportedRun t # es) s = ExtStorageHandler_Run esh es (exportRun esh t s)"

section \<open>The stored data of one plugin\<close>

definition healthAt :: "store_view \<Rightarrow> string \<Rightarrow> PluginState option \<times> PluginState option \<times> string option" where
  "healthAt a i = (v_health a i, v_unhealthy a i, v_pluginStatus a i)"

definition runAt :: "store_view \<Rightarrow> string \<Rightarrow> TestRun option \<times> TestRun option \<times> string option" where
  "runAt a i = (v_latest a i, v_failed a i, v_runStatus a i)"

definition shared :: "store_view \<Rightarrow> (string \<rightharpoonup> SynTestConfig) \<times> (string \<rightharpoonup> SyntestConfigSummary) \<times> (string \<rightharpoonup> AgentStatus)" where
  "shared a = (v_cfg a, v_sum a, v_agents a)"

lemma healthData_at: "healthData a = healthData b \<Longrightarrow> healthAt a = healthAt b"
  by (auto simp: healthData_def healthAt_def)

lemma runData_at: "runData a = runData b \<Longrightarrow> runAt a = runAt b"
  by (auto simp: runData_def runAt_def)

lemma offPlugin_at:
  assumes "offPlugin i a = offPlugin i b"
  shows "j \<noteq> i \<Longrightarrow> healthAt a j = healthAt b j" "j \<noteq> i \<Longrightarrow> runAt a j = runAt b j" "shared a = shared b"
proof -
  have eqs: "(v_latest a)(i := None) = (v_latest b)(i := None)" "(v_failed a)(i := None) = (v_failed b)(i := None)"
    "(v_runStatus a)(i := None) = (v_runStatus b)(i := None)" "(v_health a)(i := None) = (v_health b)(i := None)"
    "(v_unhealthy a)(i := None) = (v_unhealthy b)(i := None)" "(v_pluginStatus a)(i := None) = (v_pluginStatus b)(i := None)"
    using assms by (auto simp: offPlugin_def dest: arg_cong[of _ _ v_latest] arg_cong[of _ _ v_failed]
        arg_cong[of _ _ v_runStatus] arg_cong[of _ _ v_health] arg_cong[of _ _ v_unhealthy] arg_cong[of _ _ v_pluginStatus])
  note at = eqs[THEN fun_cong, of j]
  show "healthAt a j = healthAt b j" if "j \<noteq> i" using at(4-6) that by (simp add: healthAt_def)
  show "runAt a j = runAt b j" if "j \<noteq> i" using at(1-3) that by (simp add: runAt_def)
  show "shared a = shared b" using offPlugin_other[OF assms] by (simp add: shared_def)
qed

section \<open>What an export leaves in the storage\<close>

definition healthOf :: "(PluginState \<Rightarrow> PluginState) \<Rightarrow> PluginState \<Rightarrow> PluginState option \<times> PluginState option \<times> string option
    \<Rightarrow> PluginState option \<times> PluginState option \<times> string option" where
  "healthOf nstate p old =
     (Some (nstate p), if ps_Status p \<noteq> Running then Some (nstate p) else fst (snd old), Some (ps_Status p))"

context reliable_run_store begin

lemma write_health_exact:
  assumes "inv s" and "st_WritePluginHealthStatus st i p s = (res, s')"
  shows "inv s'" "shared (view s') = shared (view s)" "runAt (view s') = runAt (view s)"
    "healthAt (view s') j = (if j = i then healthOf nstate p (healthAt (view s) i) else healthAt (view s) j)"
proof -
  have res: "res = Inr ()" using write_health_total[OF assms(1), of i p] assms(2) by simp
  note law = write_health[OF assms]
  then have off: "offPlugin i (view s') = offPlugin i (view s)" by blast
  show "inv s'" "runAt (view s') = runAt (view s)" using law runData_at by blast+
  show "shared (view s') = shared (view s)" by (rule offPlugin_at(3)[OF off])
  show "healthAt (view s') j = (if j = i then healthOf nstate p (healthAt (view s) i) else healthAt (view s) j)"
    using law res offPlugin_at(1)[OF off, of j] by (simp add: healthAt_def healthOf_def)
qed

lemma write_healths_exact:
  assumes "inv s" and "gwf kvs"
  shows "let s' = fold (\<lambda>(i, p) s. snd (st_WritePluginHealthStatus st i p s)) kvs s in
    inv s' \<and> shared (view s') = shared (view s) \<and> runAt (view s') = runAt (view s) \<and>
    (\<forall>i. healthAt (view s') i =
       (case map_of kvs i of None \<Rightarrow> healthAt (view s) i | Some p \<Rightarrow> healthOf nstate p (healthAt (view s) i)))"
  using assms
proof (induction kvs arbitrary: s)
  case Nil
  then show ?case by simp
next
  case (Cons ip kvs)
  obtain i p where ip: "ip = (i, p)" by (cases ip)
  obtain res s1 where w: "st_WritePluginHealthStatus st i p s = (res, s1)" by (cases "st_WritePluginHealthStatus st i p s")
  note law = write_health_exact[OF Cons.prems(1) w]
  have g: "gwf kvs" "map_of kvs i = None" using Cons.prems(2) ip by (auto simp: gwf_def map_of_eq_None_iff)
  from Cons.IH[OF law(1) g(1)] law(2-) w g(2) ip show ?case
    by (auto simp: Let_def split: option.splits)
qed

lemma write_run_exact:
  assumes "inv s" and "st_WriteTestRun st i t s = (res, s')" and "encodableRun t"
  shows "inv s'" "shared (view s') = shared (view s)" "healthAt (view s') = healthAt (view s)"
    "v_latest (view s') j = (if j = i then Some t else v_latest (view s) j)"
    "v_failed (view s') j = (if j = i \<and> f64_lt1 (passRatioOf t) then Some t else v_failed (view s) j)"
proof -
  have res: "res = Inr ()" using write_run_total[OF assms(1,3), of i] assms(2) by simp
  note law = write_run[OF assms(1,2)]
  then have off: "offPlugin i (view s') = offPlugin i (view s)" by blast
  show "inv s'" "healthAt (view s') = healthAt (view s)" using law healthData_at by blast+
  show "shared (view s') = shared (view s)" by (rule offPlugin_at(3)[OF off])
  show "v_latest (view s') j = (if j = i then Some t else v_latest (view s) j)"
    "v_failed (view s') j = (if j = i \<and> f64_lt1 (passRatioOf t) then Some t else v_failed (view s) j)"
    using law res offPlugin_at(2)[OF off, of j] by (cases "j = i"; simp add: runAt_def)+
qed

end

text \<open>The last of a sequence, or what was there before.\<close>

definition lastOr :: "'a option \<Rightarrow> 'a list \<Rightarrow> 'a option" where
  "lastOr d xs = (if xs = [] then d else Some (last xs))"

lemma lastOr_simps [simp]: "lastOr d [] = d" "lastOr d (xs @ [x]) = Some x"
  by (simp_all add: lastOr_def)

text \<open>The runs among those received that the exporter stores for a plugin.\<close>

definition exported :: "string \<Rightarrow> string \<Rightarrow> TestRun list \<Rightarrow> TestRun list" where
  "exported agentId i ts = filter (\<lambda>t. tr_AgentId t = agentId \<and> runPluginId t = i) ts"

context reliable_run_store begin

lemma export_runs_exact:
  assumes "inv s" and "\<forall>t \<in> set ts. encodableRun t" and "esh_Store esh = st"
  shows "inv (fold (exportRun esh) ts s) \<and> shared (view (fold (exportRun esh) ts s)) = shared (view s) \<and>
    healthAt (view (fold (exportRun esh) ts s)) = healthAt (view s) \<and>
    v_latest (view (fold (exportRun esh) ts s)) i = lastOr (v_latest (view s) i) (exported (esh_agentId esh) i ts) \<and>
    v_failed (view (fold (exportRun esh) ts s)) i =
      lastOr (v_failed (view s) i) (filter (\<lambda>t. f64_lt1 (passRatioOf t)) (exported (esh_agentId esh) i ts))"
  using assms(2)
proof (induction ts rule: rev_induct)
  case Nil
  with assms(1) show ?case by (simp add: exported_def)
next
  case (snoc t ts)
  let ?s = "fold (exportRun esh) ts s"
  have IH: "inv ?s" "shared (view ?s) = shared (view s)" "healthAt (view ?s) = healthAt (view s)"
    "v_latest (view ?s) i = lastOr (v_latest (view s) i) (exported (esh_agentId esh) i ts)"
    "v_failed (view ?s) i = lastOr (v_failed (view s) i) (filter (\<lambda>t. f64_lt1 (passRatioOf t)) (exported (esh_agentId esh) i ts))"
    using snoc by auto
  show ?case
  proof (cases "tr_AgentId t = esh_agentId esh")
    case False
    then have eq: "fold (exportRun esh) (ts @ [t]) s = ?s" by (simp add: exportRun_def[of esh t])
    from False IH show ?thesis unfolding eq by (simp add: exported_def)
  next
    case True
    obtain res s1 where w: "st_WriteTestRun st (runPluginId t) t ?s = (res, s1)"
      by (cases "st_WriteTestRun st (runPluginId t) t ?s")
    have eq: "fold (exportRun esh) (ts @ [t]) s = s1" using True w assms(3) by (simp add: exportRun_def)
    have "encodableRun t" using snoc.prems by simp
    from write_run_exact[OF IH(1) w this] IH True show ?thesis
      unfolding eq by (simp add: exported_def)
  qed
qed

lemma export_health_exact:
  assumes "inv s" and "wfStates sm" and "esh_Store esh = st"
  shows "inv (exportHealth esh now sm s) \<and> runAt (view (exportHealth esh now sm s)) = runAt (view s) \<and>
    v_agents (view (exportHealth esh now sm s)) = (v_agents (view s))(esh_agentId esh \<mapsto> nagent (GetAgentStatus now sm)) \<and>
    (\<forall>i. healthAt (view (exportHealth esh now sm s)) i =
       (case stateOf sm i of None \<Rightarrow> healthAt (view s) i | Some p \<Rightarrow> healthOf nstate p (healthAt (view s) i)))"
proof -
  have kvs: "map_of (GetAllPluginState sm) = stateOf sm" "gwf (GetAllPluginState sm)"
    using copies.look_puts[of "sm_PluginStates sm" "[]"] copies.wf_puts[of "[]" "sm_PluginStates sm"] assms(2)
    by (auto simp: GetAllPluginState_def gwf_def split: option.splits)
  obtain res s1 where w: "st_WriteAgentStatus st (esh_agentId esh) (GetAgentStatus now sm) s = (res, s1)"
    by (cases "st_WriteAgentStatus st (esh_agentId esh) (GetAgentStatus now sm) s")
  then have "res = Inr ()" using write_status_total[OF assms(1), of "esh_agentId esh" "GetAgentStatus now sm"] by simp
  with write_agent[OF assms(1) w]
  have s1: "inv s1" "view s1 = (view s)\<lparr>v_agents := (v_agents (view s))(esh_agentId esh \<mapsto> nagent (GetAgentStatus now sm))\<rparr>"
    by auto
  then have at: "runAt (view s1) = runAt (view s)" "healthAt (view s1) = healthAt (view s)"
    by (auto simp: runAt_def healthAt_def)
  have eq: "exportHealth esh now sm s = fold (\<lambda>(i, p) s. snd (st_WritePluginHealthStatus st i p s)) (GetAllPluginState sm) s1"
    using w assms(3) by (simp add: exportHealth_def Let_def)
  show ?thesis
    unfolding eq using write_healths_exact[OF s1(1) kvs(2), unfolded Let_def kvs(1) at] s1(2) by (simp add: shared_def)
qed

end

section \<open>Properties\<close>

text \<open>
  A tick exports the whole table: over a storage that answers, after a tick the entry of the
  agent is the status of that moment, and every plugin in the table has its state as the latest
  health and its status in the status table; its last unhealthy state is replaced exactly when it is
  not running. The health of plugins that are not in the table and all run data are untouched.
\<close>

theorem health_exported:
  assumes "reliable_run_store (esh_Store esh) view ok nsum nagent nstatus nstate encodable" and "ok s" and "wfStates sm"
  shows "\<exists>s'. runPluginHealthExporter esh [HealthTick now sm] s = (True, s') \<and> ok s' \<and>
    v_agents (view s') = (v_agents (view s))(esh_agentId esh \<mapsto> nagent (GetAgentStatus now sm)) \<and>
    runAt (view s') = runAt (view s) \<and>
    (\<forall>i. healthAt (view s') i =
       (case stateOf sm i of None \<Rightarrow> healthAt (view s) i | Some p \<Rightarrow> healthOf nstate p (healthAt (view s) i)))"
  using reliable_run_store.export_health_exact[OF assms refl] by auto

definition exampleHandler :: "mem ExtStorageHandler" where
  "exampleHandler = \<lparr>esh_agentId = ''pod-1/heart'', esh_Store = NewRedisSynHeartStore memStore,
     esh_config = \<lparr>sc_Type = ''redis'', sc_BufferSize = 1000, sc_Address = [], sc_ExportRate = 15 * second\<rparr>\<rparr>"

definition exampleTable :: StateMap where
  "exampleTable = SetPluginState 7 ''dns/prod/pod-1/heart'' zeroPluginState (NewStateMap zeroAgentConfig)"

lemma exampleHandler_store: "esh_Store exampleHandler = NewRedisSynHeartStore memStore"
  by (simp add: exampleHandler_def)

theorem health_exported_witness:
  "\<exists>s'. runPluginHealthExporter exampleHandler [HealthTick ''now'' exampleTable] emptyMem = (True, s') \<and>
     v_agents (viewOf memStore (memView s')) ''pod-1/heart'' = Some (GetAgentStatus ''now'' exampleTable) \<and>
     v_pluginStatus (viewOf memStore (memView s')) ''dns/prod/pod-1/heart'' = Some []"
proof -
  have wf: "wfStates exampleTable" by (simp add: exampleTable_def SetPluginState_def NewStateMap_def gwf_def)
  have p: "stateOf exampleTable ''dns/prod/pod-1/heart'' = Some (zeroPluginState\<lparr>ps_LastUpdated := 7\<rparr>)"
    by (simp add: exampleTable_def)
  let ?v = "\<lambda>s. viewOf memStore (memView s)"
  obtain s' where s': "runPluginHealthExporter exampleHandler [HealthTick ''now'' exampleTable] emptyMem = (True, s')"
    "v_agents (?v s') = (v_agents (?v emptyMem))(''pod-1/heart'' \<mapsto> GetAgentStatus ''now'' exampleTable)"
    "\<forall>i. healthAt (?v s') i = (case stateOf exampleTable i of None \<Rightarrow> healthAt (?v emptyMem) i
       | Some p \<Rightarrow> healthOf (through (rs_marshalState memStore) (rs_unmarshalState memStore)) p (healthAt (?v emptyMem) i))"
    using health_exported[of exampleHandler, unfolded exampleHandler_store, OF memory.rruns.reliable_run_store_axioms
        emptyMem_inv wf, of "''now''"]
    by (auto simp: exampleHandler_def)
  have "v_pluginStatus (?v s') ''dns/prod/pod-1/heart'' = Some []"
    using s'(3)[rule_format, of "''dns/prod/pod-1/heart''"] p by (simp add: healthAt_def healthOf_def zeroPluginState_def)
  with s'(1,2) show ?thesis by auto
qed

lemma runTestRunExporter_fold:
  "runTestRunExporter esh (map RunReceived ts) s = (True, fold (exportRun esh) ts s)"
  by (induction ts arbitrary: s) auto

text \<open>
  The run exporter keeps the last run and the last failed run: over a storage that answers,
  after a sequence of runs was received, the latest run of a plugin is the last one of this agent
  for that plugin, its last failed run the last of those whose marks are below the maximum, and
  runs of other agents leave no trace. Configurations, agents and plugin health are untouched.
\<close>

theorem runs_exported:
  assumes "reliable_run_store (esh_Store esh) view ok nsum nagent nstatus nstate encodable" and "ok s"
    and "\<forall>t \<in> set ts. encodable t"
    and "\<forall>t \<in> set ts. tres_Marks (tr_TestResult t) < 2 ^ 53 \<and> 0 < tres_MaxMarks (tr_TestResult t) \<and> tres_MaxMarks (tr_TestResult t) < 2 ^ 53"
  shows "\<exists>s'. runTestRunExporter esh (map RunReceived ts) s = (True, s') \<and> ok s' \<and>
    v_latest (view s') i = lastOr (v_latest (view s) i) (exported (esh_agentId esh) i ts) \<and>
    v_failed (view s') i = lastOr (v_failed (view s) i)
      (filter (\<lambda>t. tres_Marks (tr_TestResult t) < tres_MaxMarks (tr_TestResult t)) (exported (esh_agentId esh) i ts)) \<and>
    shared (view s') = shared (view s) \<and> healthAt (view s') = healthAt (view s)"
proof -
  have "filter (\<lambda>t. f64_lt1 (passRatioOf t)) (exported (esh_agentId esh) i ts) =
    filter (\<lambda>t. tres_Marks (tr_TestResult t) < tres_MaxMarks (tr_TestResult t)) (exported (esh_agentId esh) i ts)"
    using assms(4) f64_lt1_div by (intro filter_cong) (auto simp: passRatioOf_def exported_def)
  with reliable_run_store.export_runs_exact[OF assms(1-3) refl, of i] show ?thesis
    by (simp add: runTestRunExporter_fold)
qed

theorem runs_exported_witness:
  "\<exists>s'. runTestRunExporter exampleHandler (map RunReceived [exampleRun]) emptyMem = (True, s') \<and>
     v_failed (viewOf memStore (memView s')) (runPluginId exampleRun) = Some exampleRun"
  using runs_exported[of exampleHandler, unfolded exampleHandler_store, OF memory.rruns.reliable_run_store_axioms emptyMem_inv,
      of "[exampleRun]" "runPluginId exampleRun"]
  by (fastforce simp: exampleHandler_def exampleRun_def exported_def memStore_def encRun_def lastOr_def)

section \<open>Both exporters\<close>

text \<open>The runs and the ticks among the events, and what the ticks make of the health of a plugin.\<close>

definition runsOf :: "esh_event list \<Rightarrow> TestRun list" where
  "runsOf es = List.map_filter (\<lambda>e. case e of ExportedRun t \<Rightarrow> Some t | _ \<Rightarrow> None) es"

definition ticksOf :: "esh_event list \<Rightarrow> (string \<times> StateMap) list" where
  "ticksOf es = List.map_filter (\<lambda>e. case e of ExportTick now sm \<Rightarrow> Some (now, sm) | _ \<Rightarrow> None) es"

fun tickHealth :: "(PluginState \<Rightarrow> PluginState) \<Rightarrow> string \<Rightarrow> string \<times> StateMap \<Rightarrow> PluginState option \<times> PluginState option \<times> string option
    \<Rightarrow> PluginState option \<times> PluginState option \<times> string option" where
  "tickHealth nstate i (now, sm) old = (case stateOf sm i of None \<Rightarrow> old | Some p \<Rightarrow> healthOf nstate p old)"

lemma events_simps [simp]:
  "runsOf [] = []" "ticksOf [] = []"
  "runsOf (ExportedRun t # es) = t # runsOf es" "ticksOf (ExportedRun t # es) = ticksOf es"
  "runsOf (ExportTick now sm # es) = runsOf es" "ticksOf (ExportTick now sm # es) = (now, sm) # ticksOf es"
  by (simp_all add: runsOf_def ticksOf_def List.map_filter_simps)

lemma exported_Cons: "exported a i (t # ts) = (if tr_AgentId t = a \<and> runPluginId t = i then t # exported a i ts else exported a i ts)"
  by (simp add: exported_def)

lemma lastOr_Cons [simp]: "lastOr d (x # xs) = lastOr (Some x) xs"
  by (simp add: lastOr_def)

text \<open>An event that both loops may process.\<close>

fun eventOk :: "(TestRun \<Rightarrow> bool) \<Rightarrow> esh_event \<Rightarrow> bool" where
  "eventOk encodable (ExportedRun t) = encodable t"
| "eventOk encodable (ExportTick now sm) = wfStates sm"
| "eventOk encodable ExportDone = False"

context reliable_run_store begin

lemma exporters_exact:
  assumes "inv s" and "\<forall>e \<in> set es. eventOk encodableRun e" and "esh_Store esh = st"
  shows "\<exists>s'. ExtStorageHandler_Run esh es s = (True, s') \<and> inv s' \<and>
    v_latest (view s') i = lastOr (v_latest (view s) i) (exported (esh_agentId esh) i (runsOf es)) \<and>
    v_failed (view s') i =
      lastOr (v_failed (view s) i) (filter (\<lambda>t. f64_lt1 (passRatioOf t)) (exported (esh_agentId esh) i (runsOf es))) \<and>
    healthAt (view s') i = fold (tickHealth nstate i) (ticksOf es) (healthAt (view s) i) \<and>
    v_agents (view s') (esh_agentId esh) = lastOr (v_agents (view s) (esh_agentId esh))
      (map (\<lambda>(now, sm). nagent (GetAgentStatus now sm)) (ticksOf es))"
  using assms(1,2)
proof (induction es arbitrary: s)
  case Nil
  then show ?case by (simp add: exported_def)
next
  case (Cons e es)
  show ?case
  proof (cases e)
    case (ExportTick now sm)
    then have w: "wfStates sm" using Cons.prems(2) by simp
    let ?s = "exportHealth esh now sm s"
    have h: "inv ?s" "runAt (view ?s) = runAt (view s)"
      "v_agents (view ?s) (esh_agentId esh) = Some (nagent (GetAgentStatus now sm))"
      "healthAt (view ?s) i = tickHealth nstate i (now, sm) (healthAt (view s) i)"
      using export_health_exact[OF Cons.prems(1) w assms(3), of now] by auto
    have "v_latest (view ?s) i = v_latest (view s) i" "v_failed (view ?s) i = v_failed (view s) i"
      using fun_cong[OF h(2), of i] by (simp_all add: runAt_def)
    with Cons.IH[OF h(1)] Cons.prems(2) h ExportTick show ?thesis by simp
  next
    case (ExportedRun t)
    then have enc: "\<forall>t \<in> set [t]. encodableRun t" using Cons.prems(2) by simp
    let ?s = "exportRun esh t s"
    note h = export_runs_exact[OF Cons.prems(1) enc assms(3), of i]
    have "inv ?s" "v_agents (view ?s) = v_agents (view s)" "healthAt (view ?s) = healthAt (view s)"
      "v_latest (view ?s) i = lastOr (v_latest (view s) i) (exported (esh_agentId esh) i [t])"
      "v_failed (view ?s) i = lastOr (v_failed (view s) i) (filter (\<lambda>t. f64_lt1 (passRatioOf t)) (exported (esh_agentId esh) i [t]))"
      using h by (auto simp: shared_def)
    with Cons.IH[of ?s] Cons.prems(2) ExportedRun show ?thesis
      by (auto simp: exported_Cons[of _ _ t] exported_def[of _ _ "[]"])
  next
    case ExportDone
    then show ?thesis using Cons.prems(2) by simp
  qed
qed

end



end
