(* ===== verification/AgentLoop.thy ===== *)
theory AgentLoop
  imports AgentStartup Exporter
begin

text \<open>
  The life of an agent after its start (\<open>PluginManager.Start\<close> in
  agent/pluginmanager/pluginManager.go): it announces itself, synchronises its tests when a signal
  or its timer asks for it, tells the Prometheus exporter of changes, and cleans up when its context
  ends. The other writers of the storage and the goroutines around the loop move at any time, so
  the executions are the sequences of steps of a relation. \<open>Exit\<close> sends an interrupt to the
  own process and returns; the loop then goes on until the context is cancelled.
\<close>

section \<open>State\<close>

text \<open>Both channels have room for two messages, of which only the number matters.\<close>

datatype phase = Starting | Watching | Notifying | Left

record 's agent =
  ag_pm :: PluginManager
  ag_store :: 's
  ag_configChan :: nat
  ag_promConfigChange :: nat
  ag_phase :: phase
  ag_exiting :: bool

text \<open>The agent announces itself; the signal that forces the first pass is still to be sent.\<close>

definition startAgent :: "'s SynHeartStore \<Rightarrow> PluginManager \<Rightarrow> 's \<Rightarrow> 's agent" where
  "startAgent st pm s =
     \<lparr>ag_pm = pm, ag_store = snd (st_NewAgentEvent st (''new agent: '' @ pm_AgentId pm) s),
      ag_configChan = 0, ag_promConfigChange = 0, ag_phase = Starting, ag_exiting = False\<rparr>"

definition sendInit :: "'s agent \<Rightarrow> 's agent" where
  "sendInit a = a\<lparr>ag_configChan := ag_configChan a + 1, ag_phase := Watching\<rparr>"

section \<open>The loop\<close>

text \<open>Sending to the channel of the Prometheus exporter waits when it is full.\<close>

definition notifyPrometheus :: "'s agent \<Rightarrow> 's agent" where
  "notifyPrometheus a =
     (if ag_promConfigChange a < 2 then a\<lparr>ag_promConfigChange := ag_promConfigChange a + 1\<rparr>
      else a\<lparr>ag_phase := Notifying\<rparr>)"

definition syncAndNotify :: "pm_env \<Rightarrow> 's SynHeartStore \<Rightarrow> 's agent \<Rightarrow> 's agent option" where
  "syncAndNotify env st a =
     (case SyncConfig env st (ag_pm a) (ag_store a) of
        None \<Rightarrow> None
      | Some ((configChanged, e), pm, s) \<Rightarrow>
          (let a = a\<lparr>ag_pm := pm, ag_store := s, ag_exiting := ag_exiting a \<or> e \<noteq> None\<rparr>
           in Some (if configChanged then notifyPrometheus a else a)))"

definition onSignal :: "pm_env \<Rightarrow> 's SynHeartStore \<Rightarrow> 's agent \<Rightarrow> 's agent option" where
  "onSignal env st a = syncAndNotify env st (a\<lparr>ag_configChan := ag_configChan a - 1\<rparr>)"

definition onTick :: "pm_env \<Rightarrow> 's SynHeartStore \<Rightarrow> 's agent \<Rightarrow> 's agent option" where
  "onTick env st a =
     (case st_Ping st (ag_store a) of
        (Inl e, s) \<Rightarrow> syncAndNotify env st (a\<lparr>ag_store := s, ag_exiting := True\<rparr>)
      | (Inr _, s) \<Rightarrow> syncAndNotify env st (a\<lparr>ag_store := s\<rparr>))"

section \<open>Leaving\<close>

text \<open>The routines of the tests have ended with the context; waiting for them again does nothing.\<close>

definition waitTests :: "pm_env \<Rightarrow> PluginManager \<Rightarrow> PluginManager" where
  "waitTests env pm =
     pm\<lparr>pm_sm := fold (\<lambda>(i, t). waitRoutine env (pidOf pm t) t) (pm_SyntheticTests pm) (pm_sm pm),
        pm_SyntheticTests := map (\<lambda>(i, t). (i, t\<lparr>at_routine := None\<rparr>)) (pm_SyntheticTests pm)\<rparr>"

definition shutdown :: "pm_env \<Rightarrow> 's SynHeartStore \<Rightarrow> 's agent \<Rightarrow> 's agent option" where
  "shutdown env st a =
     map_option (\<lambda>(pm, s). a\<lparr>ag_pm := pm, ag_store := s, ag_phase := Left\<rparr>)
       (cleanupAndUnregister env st (waitTests env (ag_pm a)) (ag_store a))"

section \<open>Executions\<close>

text \<open>
  The first signal and the three cases of the loop; besides, the subscription, which runs from the
  start, forwards a message, the Prometheus
  exporter, which runs only when an address is configured, takes a notification, and the other
  writers change the storage within its invariant.
\<close>

definition prometheusRuns :: "'s agent \<Rightarrow> bool" where
  "prometheusRuns a \<longleftrightarrow> pc_ServerAddress (ac_PrometheusConfig (pm_config (ag_pm a))) \<noteq> []"

inductive agentStep :: "'s SynHeartStore \<Rightarrow> ('s \<Rightarrow> bool) \<Rightarrow> 's agent \<Rightarrow> 's agent \<Rightarrow> bool" for st ok where
  init: "\<lbrakk>ag_phase a = Starting; ag_configChan a < 2\<rbrakk> \<Longrightarrow> agentStep st ok a (sendInit a)"
| signal: "\<lbrakk>ag_phase a = Watching; 0 < ag_configChan a; onSignal env st a = Some a'\<rbrakk> \<Longrightarrow> agentStep st ok a a'"
| tick: "\<lbrakk>ag_phase a = Watching; onTick env st a = Some a'\<rbrakk> \<Longrightarrow> agentStep st ok a a'"
| leave: "\<lbrakk>ag_phase a = Watching; shutdown env st a = Some a'\<rbrakk> \<Longrightarrow> agentStep st ok a a'"
| forward: "ag_configChan a < 2 \<Longrightarrow> agentStep st ok a (a\<lparr>ag_configChan := ag_configChan a + 1\<rparr>)"
| takeNotice: "\<lbrakk>prometheusRuns a; 0 < ag_promConfigChange a; ag_phase a \<noteq> Notifying\<rbrakk>
    \<Longrightarrow> agentStep st ok a (a\<lparr>ag_promConfigChange := ag_promConfigChange a - 1\<rparr>)"
| unblock: "\<lbrakk>prometheusRuns a; ag_phase a = Notifying\<rbrakk> \<Longrightarrow> agentStep st ok a (a\<lparr>ag_phase := Watching\<rparr>)"
| others: "\<lbrakk>ag_phase a \<noteq> Left; ok s\<rbrakk> \<Longrightarrow> agentStep st ok a (a\<lparr>ag_store := s\<rparr>)"

inductive_cases agentStep_cases: "agentStep st ok a a'"

section \<open>Invariant\<close>

definition agentInv :: "('s \<Rightarrow> store_view) \<Rightarrow> ('s \<Rightarrow> bool) \<Rightarrow> PluginManager \<Rightarrow> 's agent \<Rightarrow> bool" where
  "agentInv view ok pm a \<longleftrightarrow>
     sameAgent pm (ag_pm a) \<and> gwf (pm_SyntheticTests (ag_pm a)) \<and> ok (ag_store a) \<and>
     ag_configChan a \<le> 2 \<and> ag_promConfigChange a \<le> 2 \<and> (ag_phase a = Notifying \<longrightarrow> ag_promConfigChange a = 2) \<and>
     (ag_phase a = Left \<longrightarrow> testOf (ag_pm a) = Map.empty \<and> v_agents (view (ag_store a)) (pm_AgentId pm) = None)"

lemma waitTests_keeps:
  "sameAgent pm (waitTests env pm)" "gwf (pm_SyntheticTests (waitTests env pm)) \<longleftrightarrow> gwf (pm_SyntheticTests pm)"
  by (simp_all add: waitTests_def sameAgent_def gwf_def comp_def split_def)

lemma testOf_waitTests: "testOf (waitTests env pm) i = map_option (\<lambda>t. t\<lparr>at_routine := None\<rparr>) (testOf pm i)"
  by (simp add: waitTests_def map_of_map)

context reliable_store begin

lemma syncConfig_keeps:
  assumes "inv s" and "gwf (pm_SyntheticTests pm)"
  shows "\<exists>ch pm' s'. SyncConfig env st pm s = Some ((ch, None), pm', s') \<and> sameAgent pm pm' \<and>
    gwf (pm_SyntheticTests pm') \<and> inv s'"
proof -
  obtain ch pm' s' where "SyncSyntestPluginConfigs env st pm s = Some ((ch, None), pm', s')" "sameAgent pm pm'"
    "gwf (pm_SyntheticTests pm')" "sameConfigs inv view s s'"
    using sync_exact[OF assms] by blast
  then show ?thesis by (simp add: SyncConfig_def sameConfigs_def)
qed

lemma syncAndNotify_keeps:
  assumes "agentInv view inv pm a" and "ag_phase a = Watching" and "syncAndNotify env st a = Some a'"
  shows "agentInv view inv pm a' \<and> ag_exiting a' = ag_exiting a"
proof -
  have pre: "inv (ag_store a)" "gwf (pm_SyntheticTests (ag_pm a))" "sameAgent pm (ag_pm a)"
    using assms(1) by (auto simp: agentInv_def)
  obtain ch pm' s' where s: "SyncConfig env st (ag_pm a) (ag_store a) = Some ((ch, None), pm', s')" "sameAgent (ag_pm a) pm'"
    "gwf (pm_SyntheticTests pm')" "inv s'"
    using syncConfig_keeps[OF pre(1,2)] by blast
  have "sameAgent pm pm'" by (rule sameAgent_trans[OF pre(3) s(2)])
  with assms s show ?thesis
    by (auto simp: syncAndNotify_def Let_def agentInv_def notifyPrometheus_def split: if_splits)
qed

lemma agentInv_step:
  assumes "agentStep st inv a a'" and "agentInv view inv pm a"
  shows "agentInv view inv pm a'"
  using assms
proof (induction rule: agentStep.induct)
  case (signal a env a')
  then have "agentInv view inv pm (a\<lparr>ag_configChan := ag_configChan a - 1\<rparr>)" by (auto simp: agentInv_def)
  from syncAndNotify_keeps[OF this] signal show ?case by (simp add: onSignal_def)
next
  case (tick a env a')
  obtain res s where p: "st_Ping st (ag_store a) = (res, s)" by (cases "st_Ping st (ag_store a)")
  have "inv s" using ping[OF _ p] tick.prems by (auto simp: agentInv_def)
  then have "agentInv view inv pm (a\<lparr>ag_store := s\<rparr>)" "agentInv view inv pm (a\<lparr>ag_store := s, ag_exiting := True\<rparr>)"
    using tick by (auto simp: agentInv_def)
  then show ?case
    using syncAndNotify_keeps[of pm "a\<lparr>ag_store := s\<rparr>"] syncAndNotify_keeps[of pm "a\<lparr>ag_store := s, ag_exiting := True\<rparr>"] tick p
    by (auto simp: onTick_def split: sum.splits)
next
  case (leave a env a')
  let ?pm = "waitTests env (ag_pm a)"
  have pre: "inv (ag_store a)" "gwf (pm_SyntheticTests ?pm)" "sameAgent pm ?pm"
    using leave.prems sameAgent_trans[OF _ waitTests_keeps(1)] by (auto simp: agentInv_def waitTests_keeps(2))
  obtain pm' s' where c: "cleanupAndUnregister env st ?pm (ag_store a) = Some (pm', s')" "sameAgent ?pm pm'"
    "testOf pm' = Map.empty" "inv s'" "v_agents (view s') = (v_agents (view (ag_store a)))(pm_AgentId ?pm := None)"
    using cleanup_exact[OF pre(1,2)] by blast
  then have "pm_SyntheticTests pm' = []" by (simp add: map_of_eq_empty_iff)
  moreover have "sameAgent pm pm'" "pm_AgentId ?pm = pm_AgentId pm"
    using sameAgent_trans[OF pre(3) c(2)] pre(3) by (auto simp: sameAgent_def)
  moreover have "a' = a\<lparr>ag_pm := pm', ag_store := s', ag_phase := Left\<rparr>" using leave c(1) by (simp add: shutdown_def)
  ultimately show ?case using leave.prems c(3-5) by (simp add: agentInv_def)
qed (auto simp: agentInv_def sendInit_def)

lemma agentInv_start:
  assumes "inv s" and "gwf (pm_SyntheticTests pm)"
  shows "agentInv view inv pm (startAgent st pm s)"
proof -
  let ?ev = "''new agent: '' @ pm_AgentId pm"
  obtain res s1 where "st_NewAgentEvent st ?ev s = (res, s1)" by (cases "st_NewAgentEvent st ?ev s")
  with new_agent_event[OF assms(1)] assms(2) show ?thesis by (simp add: agentInv_def startAgent_def)
qed

lemma agentInv_reachable:
  assumes "(agentStep st inv)\<^sup>*\<^sup>* (startAgent st pm s) a" and "inv s" and "gwf (pm_SyntheticTests pm)"
  shows "agentInv view inv pm a"
  using assms(1) by (induction rule: rtranclp_induct) (use assms agentInv_start agentInv_step in blast)+

lemma agent_progress:
  assumes "agentInv view inv pm a" and "ag_phase a = Watching"
  shows "\<exists>a'. onTick env st a = Some a'" "\<exists>a'. shutdown env st a = Some a'"
proof -
  obtain res s where p: "st_Ping st (ag_store a) = (res, s)" by (cases "st_Ping st (ag_store a)")
  have pre: "inv s" "inv (ag_store a)" "gwf (pm_SyntheticTests (ag_pm a))"
    using ping[OF _ p] assms(1) by (auto simp: agentInv_def)
  obtain ch pm' s' where "SyncConfig env st (ag_pm a) s = Some ((ch, None), pm', s')"
    using syncConfig_keeps[OF pre(1,3)] by blast
  with p show "\<exists>a'. onTick env st a = Some a'" by (cases res) (simp_all add: onTick_def syncAndNotify_def Let_def)
  obtain pm' s' where "cleanupAndUnregister env st (waitTests env (ag_pm a)) (ag_store a) = Some (pm', s')"
    using cleanup_exact[OF pre(2), of "waitTests env (ag_pm a)" env] pre(3) waitTests_keeps(2) by blast
  then show "\<exists>a'. shutdown env st a = Some a'" by (simp add: shutdown_def)
qed

end

section \<open>Properties\<close>



text \<open>The steps of an agent whose loop waits for a Prometheus exporter that does not run.\<close>

lemma stuck_step:
  assumes "agentStep st ok a a'" and "ag_phase a = Notifying" and "\<not> prometheusRuns a"
  shows "ag_phase a' = Notifying \<and> \<not> prometheusRuns a' \<and> ag_pm a' = ag_pm a"
  using assms by (cases rule: agentStep.cases) (auto simp: prometheusRuns_def)

lemma stuck_forever:
  assumes "(agentStep st ok)\<^sup>*\<^sup>* a a'" and "ag_phase a = Notifying" and "\<not> prometheusRuns a"
  shows "ag_phase a' = Notifying \<and> \<not> prometheusRuns a' \<and> ag_pm a' = ag_pm a"
  using assms(1)
proof (induction rule: rtranclp_induct)
  case (step b c)
  with stuck_step[OF step(2)] show ?case by simp
qed (simp add: assms)

text \<open>
  An agent without a Prometheus address stops after its third change: nobody receives the
  notifications, so once two are in the channel, a further pass that changes something never gets
  past the send. The tests of the agent then stay as they are for ever, and it does not react to
  the end of its context either.
\<close>

theorem stuck_without_prometheus:
  assumes "\<not> prometheusRuns a" and "ag_phase a = Watching" and "ag_promConfigChange a = 2"
    and "SyncConfig env st (ag_pm a) (ag_store a) = Some ((True, e), pm', s')" and "sameAgent (ag_pm a) pm'"
  shows "\<exists>a'. onSignal env st a = Some a' \<and>
    (\<forall>b. (agentStep st ok)\<^sup>*\<^sup>* a' b \<longrightarrow> ag_phase b = Notifying \<and> ag_pm b = pm')"
proof -
  define a' where "a' = a\<lparr>ag_configChan := ag_configChan a - 1, ag_pm := pm', ag_store := s',
    ag_exiting := ag_exiting a \<or> e \<noteq> None, ag_phase := Notifying\<rparr>"
  have "onSignal env st a = Some a'"
    using assms(3,4) by (simp add: onSignal_def syncAndNotify_def Let_def notifyPrometheus_def a'_def)
  moreover have "ag_phase a' = Notifying" "\<not> prometheusRuns a'" "ag_pm a' = pm'"
    using assms(1,5) by (auto simp: a'_def prometheusRuns_def sameAgent_def)
  ultimately show ?thesis using stuck_forever by metis
qed

text \<open>
  The first signal can block as well: the subscription already forwards messages, so when two of
  them arrive before the signal is sent, its channel is full and nobody reads it, because the loop
  has not begun. The agent then never synchronises.
\<close>

lemma blocked_start_step:
  assumes "agentStep st ok a a'" and "ag_phase a = Starting" and "ag_configChan a = 2"
  shows "ag_phase a' = Starting \<and> ag_configChan a' = 2 \<and> ag_pm a' = ag_pm a"
  using assms by (cases rule: agentStep.cases) auto

lemma blocked_start:
  "\<exists>a. (agentStep st ok)\<^sup>*\<^sup>* (startAgent st pm s) a \<and>
    (\<forall>b. (agentStep st ok)\<^sup>*\<^sup>* a b \<longrightarrow> ag_phase b = Starting \<and> ag_pm b = pm)"
proof -
  let ?a = "startAgent st pm s"
  let ?b = "?a\<lparr>ag_configChan := ag_configChan ?a + 1\<rparr>"
  let ?c = "?b\<lparr>ag_configChan := ag_configChan ?b + 1\<rparr>"
  have "agentStep st ok ?a ?b" "agentStep st ok ?b ?c" by (rule agentStep.forward, simp add: startAgent_def)+
  then have "(agentStep st ok)\<^sup>*\<^sup>* ?a ?c" by (blast intro: rtranclp.intros)
  moreover have "ag_phase b = Starting \<and> ag_configChan b = 2 \<and> ag_pm b = pm" if "(agentStep st ok)\<^sup>*\<^sup>* ?c b" for b
    using that
  proof (induction rule: rtranclp_induct)
    case (step b d)
    with blocked_start_step[OF step(2)] show ?case by simp
  qed (simp add: startAgent_def)
  ultimately show ?thesis by blast
qed

definition changedManager :: PluginManager where
  "changedManager = exampleManager\<lparr>pm_SyntheticTests :=
     [(''gone/prod'', \<lparr>at_config = zeroSynTestConfig, at_version = ''v1'', at_routine = None\<rparr>)]\<rparr>"

definition stuckAgent :: "mem agent" where
  "stuckAgent = \<lparr>ag_pm = changedManager, ag_store = emptyMem, ag_configChan = 1, ag_promConfigChange = 2,
     ag_phase = Watching, ag_exiting = False\<rparr>"

lemma changedManager_synced:
  "\<exists>pm' s'. SyncConfig examplePmEnv (NewRedisSynHeartStore memStore) changedManager emptyMem = Some ((True, None), pm', s') \<and>
     sameAgent changedManager pm'"
proof -
  have "st_FetchAllTestConfigSummary (NewRedisSynHeartStore memStore) emptyMem = (Inr [], emptyMem)"
    by (simp add: NewRedisSynHeartStore_def FetchAllTestConfigSummary_def HGetAllR_def memStore_def emptyMem_def
        memHash_def isStr_def eval_nat_numeral)
  then show ?thesis
    by (simp add: SyncConfig_def SyncSyntestPluginConfigs_def changedManager_def StopAndDeleteSynTest_def Let_def sameAgent_def)
qed

theorem stuck_without_prometheus_witness:
  "\<exists>a'. onSignal examplePmEnv (NewRedisSynHeartStore memStore) stuckAgent = Some a' \<and>
     (\<forall>b. (agentStep (NewRedisSynHeartStore memStore) (\<lambda>_. True))\<^sup>*\<^sup>* a' b \<longrightarrow> ag_phase b = Notifying)"
proof -
  obtain pm' s' where s: "SyncConfig examplePmEnv (NewRedisSynHeartStore memStore) (ag_pm stuckAgent) (ag_store stuckAgent) =
      Some ((True, None), pm', s')" "sameAgent (ag_pm stuckAgent) pm'"
    using changedManager_synced by (auto simp: stuckAgent_def)
  have "\<not> prometheusRuns stuckAgent" "ag_phase stuckAgent = Watching" "ag_promConfigChange stuckAgent = 2"
    by (simp_all add: stuckAgent_def prometheusRuns_def changedManager_def exampleManager_def zeroAgentConfig_def)
  from stuck_without_prometheus[OF this s, of "\<lambda>_. True"] show ?thesis by blast
qed

section \<open>The process\<close>

text \<open>
  \<open>Start\<close> and \<open>main\<close> in agent/main.go: creating the plugin manager may fail; its \<open>Start\<close>
  blocks until the context ends and returns no error. The result of the loop is the exit status and
  how often the agent was started; \<open>start n\<close> is the result of the n-th start.
\<close>

definition SynHeart_Start :: "err + 'm \<Rightarrow> ('m \<Rightarrow> err option) \<Rightarrow> err option" where
  "SynHeart_Start created start = (case created of Inl e \<Rightarrow> Some e | Inr pm \<Rightarrow> start pm)"

partial_function (option) agentMain :: "(nat \<Rightarrow> err option) \<Rightarrow> nat \<Rightarrow> bool \<Rightarrow> (nat \<times> nat) option" where
  "agentMain start n restart =
     (if restart then (case start n of Some e \<Rightarrow> Some (1, n + 1) | None \<Rightarrow> agentMain start (n + 1) False)
      else Some (0, n))"

text \<open>
  Nothing sets the restart flag again, so the agent is started exactly once, whatever happens, and
  the exit status tells whether that start failed.
\<close>

lemma agent_started_once: "agentMain start 0 True = Some (if start 0 = None then 0 else 1, 1)"
proof -
  have "agentMain start 1 False = Some (0, 1)" by (subst agentMain.simps) simp
  then show ?thesis by (subst agentMain.simps) (auto split: option.split)
qed

end
