(* ===== verification/RestApi.thy ===== *)
theory RestApi
  imports RunStore "HOL-Library.Char_ord"
begin

text \<open>
  The REST API (restapi/main.go): the routes, the handlers that serve stored data, and the loop that
  keeps the health summary up to date. The JSON encoder and \<open>strconv.ParseFloat\<close> are the record
  \<open>rest_env\<close>. The storage client is the Redis store of the storage component; the encoder
  writes nothing when it fails.
\<close>

section \<open>Requests and responses\<close>

record request =
  rq_Path :: string
  rq_RawQuery :: string

text \<open>\<open>req.URL.String()\<close>; the characters of the routes need no escaping.\<close>

definition URL_String :: "request \<Rightarrow> string" where
  "URL_String rq = rq_Path rq @ (if rq_RawQuery rq = [] then [] else CHR 0x3F # rq_RawQuery rq)"

text \<open>
  \<open>http.ResponseWriter\<close>: the first status sent wins and fixes the headers; a body without a
  status sends 200.
\<close>

record writer =
  w_ctype :: string
  w_sent :: "(nat \<times> string) option"
  w_body :: string

definition newWriter :: writer where
  "newWriter = \<lparr>w_ctype = [], w_sent = None, w_body = []\<rparr>"

definition setContentType :: "string \<Rightarrow> writer \<Rightarrow> writer" where
  "setContentType ct w = w\<lparr>w_ctype := ct\<rparr>"

definition writeHeader :: "nat \<Rightarrow> writer \<Rightarrow> writer" where
  "writeHeader code w = (case w_sent w of Some _ \<Rightarrow> w | None \<Rightarrow> w\<lparr>w_sent := Some (code, w_ctype w)\<rparr>)"

definition writeBody :: "string \<Rightarrow> writer \<Rightarrow> writer" where
  "writeBody b w = (writeHeader 200 w)\<lparr>w_body := w_body w @ b\<rparr>"

definition httpError :: "string \<Rightarrow> nat \<Rightarrow> writer \<Rightarrow> writer" where
  "httpError msg code w =
     writeBody (msg @ [CHR 0x0A]) (writeHeader code (setContentType ''text/plain; charset=utf-8'' w))"

definition response :: "writer \<Rightarrow> nat \<times> string \<times> string" where
  "response w = (case w_sent w of None \<Rightarrow> (200, w_ctype w, []) | Some (code, ct) \<Rightarrow> (code, ct, w_body w))"

definition encodeTo :: "err + string \<Rightarrow> writer \<Rightarrow> writer" where
  "encodeTo res w = (case res of Inl _ \<Rightarrow> w | Inr b \<Rightarrow> writeBody b w)"

lemmas writer_defs = newWriter_def setContentType_def writeHeader_def writeBody_def httpError_def response_def encodeTo_def

section \<open>State\<close>

record FailedTestInfo =
  fti_Name :: string
  fti_Namespace :: string
  fti_TestConfigId :: string
  fti_DisplayName :: string
  fti_Status :: int

record PingApiResponse =
  pr_Message :: string
  pr_LastUpdated :: string
  pr_Details :: string
  pr_Status :: int
  pr_FailedTests :: "(string \<times> FailedTestInfo) list"

record RestApiConfig =
  rc_Address :: string
  rc_StorageAddress :: string
  rc_UIAddress :: string
  rc_DebugMode :: bool

record rest_env =
  re_agents :: "(string \<times> AgentStatus) list \<Rightarrow> err + string"
  re_summaries :: "(string \<times> SyntestConfigSummary) list \<Rightarrow> err + string"
  re_map :: "gomap \<Rightarrow> err + string"
  re_config :: "string \<Rightarrow> string \<Rightarrow> string \<Rightarrow> err + string"
  re_ping :: "PingApiResponse \<Rightarrow> err + string"
  re_parseFloat :: "string \<Rightarrow> err + float64"

record 's RestApi =
  ra_config :: RestApiConfig
  ra_store :: "'s RedisSynHeartStore"
  ra_PingResponse :: PingApiResponse

section \<open>Handlers\<close>

definition redirectUrl :: "'s RestApi \<Rightarrow> request \<Rightarrow> string" where
  "redirectUrl api rq =
     (let url = (if rc_UIAddress (ra_config api) = [] then rq_Path rq else rc_UIAddress (ra_config api))
      in if rq_RawQuery rq \<noteq> [] then url @ ''&'' @ rq_RawQuery rq else url)"

definition GetAllAgents :: "rest_env \<Rightarrow> 's RestApi \<Rightarrow> writer \<Rightarrow> 's \<Rightarrow> writer \<times> 's" where
  "GetAllAgents env api w s =
     (case FetchAllAgentStatus (ra_store api) s of
        (Inl e, s) \<Rightarrow> (encodeTo (re_agents env []) (setContentType ''application/json''
                         (httpError ''unable to fetch all tests'' 500 w)), s)
      | (Inr agents, s) \<Rightarrow> (encodeTo (re_agents env agents) (setContentType ''application/json'' w), s))"

definition GetAllTests :: "rest_env \<Rightarrow> 's RestApi \<Rightarrow> writer \<Rightarrow> 's \<Rightarrow> writer \<times> 's" where
  "GetAllTests env api w s =
     (case FetchAllTestConfigSummary (ra_store api) s of
        (Inl e, s) \<Rightarrow> (encodeTo (re_summaries env []) (setContentType ''application/json''
                         (httpError ''unable to fetch all tests'' 500 w)), s)
      | (Inr syntests, s) \<Rightarrow> (encodeTo (re_summaries env syntests) (setContentType ''application/json'' w), s))"

definition GetAllTestStatus :: "rest_env \<Rightarrow> 's RestApi \<Rightarrow> writer \<Rightarrow> 's \<Rightarrow> writer \<times> 's" where
  "GetAllTestStatus env api w s =
     (let w = setContentType ''application/json'' w in
      case FetchAllTestRunStatus (ra_store api) s of
        (Inl e, s) \<Rightarrow> (httpError ''error fetching status from extStore'' 500 w, s)
      | (Inr status, s) \<Rightarrow> (encodeTo (re_map env status) w, s))"

definition GetAllPluginStatus :: "rest_env \<Rightarrow> 's RestApi \<Rightarrow> writer \<Rightarrow> 's \<Rightarrow> writer \<times> 's" where
  "GetAllPluginStatus env api w s =
     (let w = setContentType ''application/json'' w in
      case FetchAllPluginStatus (ra_store api) s of
        (Inl e, s) \<Rightarrow> (httpError ''error fetching plugin status from extStore'' 500 w, s)
      | (Inr status, s) \<Rightarrow> (encodeTo (re_map env status) w, s))"

definition GetPluginHealth :: "'s RestApi \<Rightarrow> string option \<Rightarrow> request \<Rightarrow> writer \<Rightarrow> 's \<Rightarrow> writer \<times> 's" where
  "GetPluginHealth api vars rq w s =
     (case vars of
        None \<Rightarrow> (httpError ''no test id provided'' 422 w, s)
      | Some i \<Rightarrow>
          (let redisKey = (if strings_HasSuffix (URL_String rq) ''/lastUnhealthy''
                           then PluginLastUnhealthyFmt i else PluginLatestHealthFmt i) in
           case GetR (ra_store api) redisKey s of
             (Inl e, s) \<Rightarrow> (if errors_Is e RedisNil then httpError ''no plugin health found'' 404 w
                            else httpError ''unable to fetch test run'' 500 w, s)
           | (Inr health, s) \<Rightarrow> (writeBody health (setContentType ''application/json'' w), s)))"

text \<open>A part of a configuration, or the response to its error.\<close>

definition configPart :: "'s RestApi \<Rightarrow> string \<Rightarrow> writer \<Rightarrow> 's \<Rightarrow> (string \<Rightarrow> 's \<Rightarrow> writer \<times> 's) \<Rightarrow> writer \<times> 's" where
  "configPart api key w s k =
     (case GetR (ra_store api) key s of
        (Inl e, s) \<Rightarrow> (if errors_Is e RedisNil then httpError ''no test config found'' 404 w
                       else httpError ''unable to fetch config'' 500 w, s)
      | (Inr x, s) \<Rightarrow> k x s)"

definition GetTestConfig :: "rest_env \<Rightarrow> 's RestApi \<Rightarrow> string option \<Rightarrow> writer \<Rightarrow> 's \<Rightarrow> writer \<times> 's" where
  "GetTestConfig env api vars w s =
     (case vars of
        None \<Rightarrow> (httpError ''no test id provided'' 422 w, s)
      | Some configId \<Rightarrow>
          (let w = setContentType ''application/json'' w in
           configPart api (ConfigSynTestJsonFmt configId) w s (\<lambda>testConfig s.
           configPart api (ConfigSynTestRawFmt configId) w s (\<lambda>raw s.
           configPart api (ConfigSynTestStatusFmt configId) w s (\<lambda>status s.
             (case re_config env testConfig status raw of
                Inl e \<Rightarrow> httpError ''unable to fetch test run'' 500 w
              | Inr b \<Rightarrow> writeBody b w, s))))))"

definition GetTestRun :: "'s RestApi \<Rightarrow> string option \<Rightarrow> request \<Rightarrow> writer \<Rightarrow> 's \<Rightarrow> writer \<times> 's" where
  "GetTestRun api vars rq w s =
     (case vars of
        None \<Rightarrow> (httpError ''no test id provided'' 422 w, s)
      | Some i \<Rightarrow>
          (let redisKey = (if strings_HasSuffix (URL_String rq) ''/lastFailed''
                           then TestRunLastFailedFmt i else TestRunLatestFmt i);
               w = setContentType ''application/json'' w in
           case GetR (ra_store api) redisKey s of
             (Inl e, s) \<Rightarrow> (if errors_Is e RedisNil then httpError ''no testrun found'' 404 w
                            else httpError ''unable to fetch test run'' 500 w, s)
           | (Inr test, s) \<Rightarrow> (writeBody test w, s)))"

definition GetTestLogs :: "'s RestApi \<Rightarrow> string option \<Rightarrow> request \<Rightarrow> writer \<Rightarrow> 's \<Rightarrow> writer \<times> 's" where
  "GetTestLogs api vars rq w s =
     (case vars of
        None \<Rightarrow> (httpError ''no test id provided'' 422 w, s)
      | Some i \<Rightarrow>
          (let w = setContentType ''text/plain'' w in
           case (if strings_HasSuffix (URL_String rq) ''/lastFailed/logs''
                 then FetchLastFailedTestRun (ra_store api) i s else FetchLatestTestRun (ra_store api) i s) of
             (Inl e, s) \<Rightarrow> (if errors_Is e ErrNotFound then httpError ''no testrun found'' 404 w
                            else httpError ''unable to fetch test run'' 500 w, s)
           | (Inr testRun, s) \<Rightarrow> (writeBody (gidx (tr_Details testRun) LogKey) w, s)))"

definition GetPing :: "rest_env \<Rightarrow> 's RestApi \<Rightarrow> writer \<Rightarrow> writer" where
  "GetPing env api w =
     encodeTo (re_ping env (ra_PingResponse api)) (writeHeader 200 (setContentType ''application/json'' w))"

section \<open>Routes\<close>

datatype handler = H_RedirectToUi | H_GetPing | H_GetAllAgents | H_GetAllTests | H_GetTestConfig |
  H_GetAllPluginStatus | H_GetPluginHealth | H_GetAllTestStatus | H_GetTestRun | H_GetTestLogs

text \<open>The pattern \<open>[A-Za-z0-9.-]+\<close> of a segment, and identifiers of two or four segments.\<close>

definition segmentChar :: "char \<Rightarrow> bool" where
  "segmentChar c \<longleftrightarrow> (CHR ''A'' \<le> c \<and> c \<le> CHR ''Z'') \<or> (CHR ''a'' \<le> c \<and> c \<le> CHR ''z'') \<or>
     (CHR ''0'' \<le> c \<and> c \<le> CHR ''9'') \<or> c = CHR ''.'' \<or> c = CHR ''-''"

definition segment :: "string \<Rightarrow> bool" where
  "segment s \<longleftrightarrow> s \<noteq> [] \<and> list_all segmentChar s"

fun joinId :: "string list \<Rightarrow> string" where
  "joinId [] = []"
| "joinId [a] = a"
| "joinId (a # as) = a @ CHR ''/'' # joinId as"

text \<open>A path with an identifier of \<open>n\<close> segments between two fixed parts.\<close>

definition matchId :: "string list \<Rightarrow> nat \<Rightarrow> string list \<Rightarrow> string list \<Rightarrow> string option" where
  "matchId pre n post segs =
     (let i = take n (drop (length pre) segs) in
      if segs = pre @ i @ post \<and> length i = n \<and> list_all segment i then Some (joinId i) else None)"

definition apiSegs :: "string \<Rightarrow> string list" where
  "apiSegs x = [[], ''api'', ''v1'', x]"

fun firstRoute :: "('a \<times> string option) list \<Rightarrow> ('a \<times> string option) option" where
  "firstRoute [] = None"
| "firstRoute ((h, Some i) # rs) = Some (h, Some i)"
| "firstRoute ((h, None) # rs) = firstRoute rs"

text \<open>
  The routes in the order of their registration; the first that matches the path is taken. The
  router answers a path with empty, \<open>.\<close> or \<open>..\<close> segments with a redirect to its clean form
  before it looks at the routes, so the paths here are clean ones.
\<close>

definition registerRoutes :: "string \<Rightarrow> (handler \<times> string option) option" where
  "registerRoutes path =
     (let segs = strings_Split CHR ''/'' path in
      if path = ''/ui'' then Some (H_RedirectToUi, None)
      else if path = ''/api/v1/ping'' then Some (H_GetPing, None)
      else if path = ''/api/v1/agents'' then Some (H_GetAllAgents, None)
      else if path = ''/api/v1/testconfigs/summary'' then Some (H_GetAllTests, None)
      else if path = ''/api/v1/plugins/status'' then Some (H_GetAllPluginStatus, None)
      else if path = ''/api/v1/testruns/status'' then Some (H_GetAllTestStatus, None)
      else firstRoute
        [(H_GetTestConfig, matchId (apiSegs ''testconfig'') 2 [] segs),
         (H_GetPluginHealth, matchId (apiSegs ''plugin'') 4 [''health''] segs),
         (H_GetPluginHealth, matchId (apiSegs ''plugin'') 4 [''lastUnhealthy''] segs),
         (H_GetTestRun, matchId (apiSegs ''testrun'') 4 [''latest''] segs),
         (H_GetTestRun, matchId (apiSegs ''testrun'') 4 [''lastFailed''] segs),
         (H_GetTestLogs, matchId (apiSegs ''testrun'') 4 [''latest'', ''logs''] segs),
         (H_GetTestLogs, matchId (apiSegs ''testrun'') 4 [''lastFailed'', ''logs''] segs)])"

text \<open>
  Serving a request for stored data. The redirect to the user interface answers with the address
  \<open>redirectUrl\<close> and is not a response of this form.
\<close>

definition serve :: "rest_env \<Rightarrow> 's RestApi \<Rightarrow> request \<Rightarrow> 's \<Rightarrow> (writer \<times> 's) option" where
  "serve env api rq s =
     (case registerRoutes (rq_Path rq) of
        None \<Rightarrow> Some (httpError ''404 page not found'' 404 newWriter, s)
      | Some (H_RedirectToUi, _) \<Rightarrow> None
      | Some (H_GetPing, _) \<Rightarrow> Some (GetPing env api newWriter, s)
      | Some (H_GetAllAgents, _) \<Rightarrow> Some (GetAllAgents env api newWriter s)
      | Some (H_GetAllTests, _) \<Rightarrow> Some (GetAllTests env api newWriter s)
      | Some (H_GetTestConfig, i) \<Rightarrow> Some (GetTestConfig env api i newWriter s)
      | Some (H_GetAllPluginStatus, _) \<Rightarrow> Some (GetAllPluginStatus env api newWriter s)
      | Some (H_GetPluginHealth, i) \<Rightarrow> Some (GetPluginHealth api i rq newWriter s)
      | Some (H_GetAllTestStatus, _) \<Rightarrow> Some (GetAllTestStatus env api newWriter s)
      | Some (H_GetTestRun, i) \<Rightarrow> Some (GetTestRun api i rq newWriter s)
      | Some (H_GetTestLogs, i) \<Rightarrow> Some (GetTestLogs api i rq newWriter s))"

section \<open>The health summary\<close>

definition GetLegacyStatus :: "float64 \<Rightarrow> int" where
  "GetLegacyStatus passRatio =
     (if float_eq1 passRatio then 3
      else if float_eq0 passRatio then 1
      else if float_lt1 passRatio \<and> float_gt_half passRatio then 2
      else 0)"

record ping_acc =
  pa_failedTestNames :: "(string \<times> bool) list"
  pa_failedTests :: "(string \<times> FailedTestInfo) list"
  pa_overallStatus :: int

text \<open>The status of one plugin: its test name, namespace and pass ratio; None when it is skipped.\<close>

definition statusOf :: "rest_env \<Rightarrow> string \<times> string \<Rightarrow> (string \<times> string \<times> float64) option" where
  "statusOf env p =
     (case re_parseFloat env (snd p) of
        Inl _ \<Rightarrow> None
      | Inr passRatio \<Rightarrow>
          (case GetPluginIdComponents (fst p) of
             Inl _ \<Rightarrow> None
           | Inr (testName, testNs, _, _) \<Rightarrow> Some (testName, testNs, passRatio)))"

definition displayNameOf :: "(string \<times> SyntestConfigSummary) list \<Rightarrow> string \<Rightarrow> string" where
  "displayNameOf summaries configId = (case map_of summaries configId of None \<Rightarrow> [] | Some x \<Rightarrow> sum_DisplayName x)"

definition failedInfo :: "(string \<times> SyntestConfigSummary) list \<Rightarrow> string \<Rightarrow> string \<Rightarrow> float64 \<Rightarrow> FailedTestInfo" where
  "failedInfo summaries testName testNs passRatio =
     (let configId = ComputeSynTestConfigId testName testNs in
      \<lparr>fti_Name = testName, fti_Namespace = testNs, fti_TestConfigId = configId,
       fti_DisplayName = displayNameOf summaries configId, fti_Status = GetLegacyStatus passRatio\<rparr>)"

definition overall :: "int \<Rightarrow> int \<Rightarrow> int" where
  "overall legacyStatus overallStatus =
     (if legacyStatus < overallStatus then (if legacyStatus \<noteq> 0 then legacyStatus else 2) else overallStatus)"

definition countStatus :: "rest_env \<Rightarrow> (string \<times> SyntestConfigSummary) list \<Rightarrow> string \<times> string \<Rightarrow> ping_acc \<Rightarrow> ping_acc" where
  "countStatus env summaries p acc =
     (case statusOf env p of
        None \<Rightarrow> acc
      | Some (testName, testNs, passRatio) \<Rightarrow>
          if \<not> float_lt1 passRatio then acc
          else
            (let fti = (case map_of (pa_failedTests acc) testName of
                          Some i \<Rightarrow> i | None \<Rightarrow> failedInfo summaries testName testNs passRatio);
                 name = (if fti_DisplayName fti \<noteq> [] then fti_DisplayName fti else testName)
             in \<lparr>pa_failedTestNames = (if length (pa_failedTestNames acc) < 3
                     then AList.update name True (pa_failedTestNames acc) else pa_failedTestNames acc),
                 pa_failedTests = AList.update testName fti (pa_failedTests acc),
                 pa_overallStatus = overall (GetLegacyStatus passRatio) (pa_overallStatus acc)\<rparr>))"

fun joinNames :: "nat \<Rightarrow> nat \<Rightarrow> string list \<Rightarrow> string" where
  "joinNames n i [] = []"
| "joinNames n i (name # names) =
     (if i = 3 \<or> i = n - 1 then name else name @ '', '') @ joinNames n (i + 1) names"

definition pingDetails :: "ping_acc \<Rightarrow> string" where
  "pingDetails acc =
     (let names = joinNames (length (pa_failedTestNames acc)) 0 (map fst (pa_failedTestNames acc));
          failed = int (length (pa_failedTests acc)); named = int (length (pa_failedTestNames acc)) in
      if 3 < failed then fmt_d failed @ '' failed tests: '' @ names @ '' and '' @ fmt_d (failed - 3) @ '' more''
      else if failed = 0 then ''No failed tests''
      else if failed = 1 then fmt_d named @ '' failed test: '' @ names
      else fmt_d named @ '' failed tests: '' @ names)"

definition pingResponse :: "string \<Rightarrow> ping_acc \<Rightarrow> PingApiResponse" where
  "pingResponse now acc =
     \<lparr>pr_Message = (if pa_overallStatus acc = 3 then ''Healthy'' else ''UnHealthy''), pr_LastUpdated = now,
      pr_Details = pingDetails acc, pr_Status = pa_overallStatus acc, pr_FailedTests = pa_failedTests acc\<rparr>"

definition UpdatePingResponse :: "rest_env \<Rightarrow> string \<Rightarrow> 's RestApi \<Rightarrow> 's \<Rightarrow> 's RestApi \<times> 's" where
  "UpdatePingResponse env now api s =
     (case FetchAllTestRunStatus (ra_store api) s of
        (Inl e, s) \<Rightarrow> (api, s)
      | (Inr allStatus, s) \<Rightarrow>
          (case FetchAllTestConfigSummary (ra_store api) s of
             (Inl e, s) \<Rightarrow> (api, s)
           | (Inr summaries, s) \<Rightarrow>
               (api\<lparr>ra_PingResponse := pingResponse now (fold (countStatus env summaries) allStatus
                  \<lparr>pa_failedTestNames = [], pa_failedTests = [], pa_overallStatus = 3\<rparr>)\<rparr>, s)))"

section \<open>Routing\<close>

lemma segment_slashFree: "segment a \<Longrightarrow> slashFree a"
  by (auto simp: segment_def slashFree_def list_all_iff segmentChar_def)

text \<open>The path of a plugin: a kind, the identifier, and what is asked for.\<close>

definition pluginPath :: "string \<Rightarrow> string \<Rightarrow> string \<Rightarrow> string" where
  "pluginPath kind i what = ''/api/v1/'' @ kind @ ''/'' @ i @ ''/'' @ what"

lemma split_pluginPath:
  assumes "slashFree kind" "slashFree t" "slashFree ns" "slashFree p" "slashFree pns"
  shows "strings_Split CHR ''/'' (pluginPath kind (ComputePluginId t ns (ComputeAgentId p pns)) what) =
    apiSegs kind @ [t, ns, p, pns] @ strings_Split CHR ''/'' what"
proof -
  have lit: "slashFree ''api''" "slashFree ''v1''" "slashFree []" by (simp_all add: slashFree_def)
  have "pluginPath kind (ComputePluginId t ns (ComputeAgentId p pns)) what =
    [] @ CHR ''/'' # ''api'' @ CHR ''/'' # ''v1'' @ CHR ''/'' # kind @ CHR ''/'' # t @ CHR ''/'' # ns @ CHR ''/'' # p @ CHR ''/'' # pns @ CHR ''/'' # what"
    by (simp add: pluginPath_def ComputePluginId_def ComputeAgentId_def)
  then show ?thesis by (simp only: split_slash(1) assms lit apiSegs_def) simp
qed

lemma route_run:
  assumes "segment t" "segment ns" "segment p" "segment pns"
  shows "registerRoutes (pluginPath ''testrun'' (ComputePluginId t ns (ComputeAgentId p pns)) ''latest'') =
      Some (H_GetTestRun, Some (ComputePluginId t ns (ComputeAgentId p pns)))"
    "registerRoutes (pluginPath ''testrun'' (ComputePluginId t ns (ComputeAgentId p pns)) ''lastFailed'') =
      Some (H_GetTestRun, Some (ComputePluginId t ns (ComputeAgentId p pns)))"
    "registerRoutes (pluginPath ''testrun'' (ComputePluginId t ns (ComputeAgentId p pns)) ''latest/logs'') =
      Some (H_GetTestLogs, Some (ComputePluginId t ns (ComputeAgentId p pns)))"
    "registerRoutes (pluginPath ''testrun'' (ComputePluginId t ns (ComputeAgentId p pns)) ''lastFailed/logs'') =
      Some (H_GetTestLogs, Some (ComputePluginId t ns (ComputeAgentId p pns)))"
    "registerRoutes (pluginPath ''plugin'' (ComputePluginId t ns (ComputeAgentId p pns)) ''health'') =
      Some (H_GetPluginHealth, Some (ComputePluginId t ns (ComputeAgentId p pns)))"
    "registerRoutes (pluginPath ''plugin'' (ComputePluginId t ns (ComputeAgentId p pns)) ''lastUnhealthy'') =
      Some (H_GetPluginHealth, Some (ComputePluginId t ns (ComputeAgentId p pns)))"
proof -
  note sf = assms[THEN segment_slashFree]
  have kinds: "slashFree ''testrun''" "slashFree ''plugin''" by (simp_all add: slashFree_def)
  have what: "strings_Split CHR ''/'' ''latest/logs'' = [''latest'', ''logs'']"
    "strings_Split CHR ''/'' ''lastFailed/logs'' = [''lastFailed'', ''logs'']"
    "strings_Split CHR ''/'' ''latest'' = [''latest'']" "strings_Split CHR ''/'' ''lastFailed'' = [''lastFailed'']"
    "strings_Split CHR ''/'' ''health'' = [''health'']" "strings_Split CHR ''/'' ''lastUnhealthy'' = [''lastUnhealthy'']"
    using split_slash(1)[of "''latest''" "''logs''"] split_slash(1)[of "''lastFailed''" "''logs''"]
      split_slash(2)[of "''logs''"] split_slash(2)[of "''latest''"] split_slash(2)[of "''lastFailed''"]
      split_slash(2)[of "''health''"] split_slash(2)[of "''lastUnhealthy''"]
    by (simp_all add: slashFree_def del: strings_Split.simps)
  have neq: "pluginPath ''testrun'' i x \<notin> {''/ui'', ''/api/v1/ping'', ''/api/v1/agents'', ''/api/v1/testconfigs/summary'',
      ''/api/v1/plugins/status'', ''/api/v1/testruns/status''}"
    "pluginPath ''plugin'' i x \<notin> {''/ui'', ''/api/v1/ping'', ''/api/v1/agents'', ''/api/v1/testconfigs/summary'',
      ''/api/v1/plugins/status'', ''/api/v1/testruns/status''}" for i x
    by (simp_all add: pluginPath_def)
  have seg: "matchId (apiSegs k) 4 post (apiSegs k' @ t # ns # p # pns # post') =
      (if k = k' \<and> post = post' then Some (ComputePluginId t ns (ComputeAgentId p pns)) else None)"
    "matchId (apiSegs k) 2 [] (apiSegs k' @ t # ns # p # pns # post') = None" for k post k' post'
    using assms by (auto simp: matchId_def apiSegs_def Let_def ComputePluginId_def ComputeAgentId_def)
  note rule = registerRoutes_def Let_def split_pluginPath[OF kinds(1) sf] split_pluginPath[OF kinds(2) sf] what
  show "registerRoutes (pluginPath ''testrun'' (ComputePluginId t ns (ComputeAgentId p pns)) ''latest'') =
      Some (H_GetTestRun, Some (ComputePluginId t ns (ComputeAgentId p pns)))"
    using neq(1) by (simp add: rule seg del: strings_Split.simps)
  show "registerRoutes (pluginPath ''testrun'' (ComputePluginId t ns (ComputeAgentId p pns)) ''lastFailed'') =
      Some (H_GetTestRun, Some (ComputePluginId t ns (ComputeAgentId p pns)))"
    using neq(1) by (simp add: rule seg del: strings_Split.simps)
  show "registerRoutes (pluginPath ''testrun'' (ComputePluginId t ns (ComputeAgentId p pns)) ''latest/logs'') =
      Some (H_GetTestLogs, Some (ComputePluginId t ns (ComputeAgentId p pns)))"
    using neq(1) by (simp add: rule seg del: strings_Split.simps)
  show "registerRoutes (pluginPath ''testrun'' (ComputePluginId t ns (ComputeAgentId p pns)) ''lastFailed/logs'') =
      Some (H_GetTestLogs, Some (ComputePluginId t ns (ComputeAgentId p pns)))"
    using neq(1) by (simp add: rule seg del: strings_Split.simps)
  show "registerRoutes (pluginPath ''plugin'' (ComputePluginId t ns (ComputeAgentId p pns)) ''health'') =
      Some (H_GetPluginHealth, Some (ComputePluginId t ns (ComputeAgentId p pns)))"
    using neq(2) by (simp add: rule seg del: strings_Split.simps)
  show "registerRoutes (pluginPath ''plugin'' (ComputePluginId t ns (ComputeAgentId p pns)) ''lastUnhealthy'') =
      Some (H_GetPluginHealth, Some (ComputePluginId t ns (ComputeAgentId p pns)))"
    using neq(2) by (simp add: rule seg del: strings_Split.simps)
qed

lemma HasSuffix_rev: "strings_HasSuffix s q \<longleftrightarrow> prefix (rev q) (rev s)"
  by (auto simp: strings_HasSuffix_iff suffix_to_prefix[symmetric] suffix_def)

section \<open>Responses\<close>

text \<open>The response for a value that is stored or not.\<close>

definition servedAs :: "string option \<Rightarrow> string \<Rightarrow> nat \<times> string \<times> string" where
  "servedAs stored msg =
     (case stored of
        None \<Rightarrow> (404, ''text/plain; charset=utf-8'', msg @ [CHR 0x0A])
      | Some b \<Rightarrow> (200, ''application/json'', b))"

context reliable_redis begin

lemma GetR_exact:
  assumes "redisInv r (v s)" and "f \<in> set stringFmts"
  obtains s' where "v s' = v s"
    "GetR r (f i) s = (case rv_str (v s) (f i) of None \<Rightarrow> (Inl RedisNil, s') | Some b \<Rightarrow> (Inr b, s'))"
proof -
  obtain g s' where g: "GetR r (f i) s = (g, s')" by (cases "GetR r (f i) s")
  with that[of s'] GetR_law(1)[OF g] GetR_total[OF assms, of i] show thesis by (auto split: option.splits)
qed

lemma GetTestRun_served:
  assumes "redisInv r (v s)" and "ra_store api = r"
  shows "\<exists>w s'. GetTestRun api (Some i) rq newWriter s = (w, s') \<and> v s' = v s \<and>
    response w = servedAs (rv_str (v s) ((if strings_HasSuffix (URL_String rq) ''/lastFailed''
      then TestRunLastFailedFmt else TestRunLatestFmt) i)) ''no testrun found''"
proof -
  let ?f = "if strings_HasSuffix (URL_String rq) ''/lastFailed'' then TestRunLastFailedFmt else TestRunLatestFmt"
  have "?f \<in> set stringFmts" by (simp add: key_simps)
  from GetR_exact[OF assms(1) this, of i] obtain s' where s': "v s' = v s"
    "GetR r (?f i) s = (case rv_str (v s) (?f i) of None \<Rightarrow> (Inl RedisNil, s') | Some b \<Rightarrow> (Inr b, s'))" by blast
  have key: "(if strings_HasSuffix (URL_String rq) ''/lastFailed'' then TestRunLastFailedFmt i else TestRunLatestFmt i) = ?f i"
    by simp
  show ?thesis
    unfolding GetTestRun_def option.case Let_def key assms(2) s'(2)
    using s'(1) by (cases "rv_str (v s) (?f i)") (simp_all only: option.case prod.case sum.case, auto simp: servedAs_def writer_defs)
qed

lemma GetPluginHealth_served:
  assumes "redisInv r (v s)" and "ra_store api = r"
  shows "\<exists>w s'. GetPluginHealth api (Some i) rq newWriter s = (w, s') \<and> v s' = v s \<and>
    response w = servedAs (rv_str (v s) ((if strings_HasSuffix (URL_String rq) ''/lastUnhealthy''
      then PluginLastUnhealthyFmt else PluginLatestHealthFmt) i)) ''no plugin health found''"
proof -
  let ?f = "if strings_HasSuffix (URL_String rq) ''/lastUnhealthy'' then PluginLastUnhealthyFmt else PluginLatestHealthFmt"
  have "?f \<in> set stringFmts" by (simp add: key_simps)
  from GetR_exact[OF assms(1) this, of i] obtain s' where s': "v s' = v s"
    "GetR r (?f i) s = (case rv_str (v s) (?f i) of None \<Rightarrow> (Inl RedisNil, s') | Some b \<Rightarrow> (Inr b, s'))" by blast
  have key: "(if strings_HasSuffix (URL_String rq) ''/lastUnhealthy'' then PluginLastUnhealthyFmt i else PluginLatestHealthFmt i) = ?f i"
    by simp
  show ?thesis
    unfolding GetPluginHealth_def option.case Let_def key assms(2) s'(2)
    using s'(1) by (cases "rv_str (v s) (?f i)") (simp_all only: option.case prod.case sum.case, auto simp: servedAs_def writer_defs)
qed

lemma GetTestLogs_served:
  assumes "redisInv r (v s)" and "ra_store api = r"
    and "(if strings_HasSuffix (URL_String rq) ''/lastFailed/logs'' then v_failed else v_latest) (viewOf r (v s)) i = Some t"
  shows "\<exists>w s'. GetTestLogs api (Some i) rq newWriter s = (w, s') \<and>
    response w = (200, ''text/plain'', gidx (tr_Details t) LogKey)"
proof -
  let ?fetch = "if strings_HasSuffix (URL_String rq) ''/lastFailed/logs'' then FetchLastFailedTestRun r i s else FetchLatestTestRun r i s"
  obtain res s' where f: "?fetch = (res, s')" by (cases ?fetch)
  have "res = Inr t"
    using rruns.fetch_latest_run_total[OF assms(1), of i t] rruns.fetch_failed_run_total[OF assms(1), of i t] assms(3) f
    by (simp add: NewRedisSynHeartStore_def split: if_splits)
  with f show ?thesis unfolding GetTestLogs_def option.case Let_def assms(2) by (simp add: writer_defs)
qed

lemma configPart_served:
  assumes "redisInv r (v s)" and "ra_store api = r" and "f \<in> set stringFmts"
  obtains s' where "v s' = v s" "configPart api (f i) w s k = (case rv_str (v s) (f i) of
    None \<Rightarrow> (httpError ''no test config found'' 404 w, s') | Some x \<Rightarrow> k x s')"
proof -
  obtain s' where "v s' = v s"
    "GetR r (f i) s = (case rv_str (v s) (f i) of None \<Rightarrow> (Inl RedisNil, s') | Some b \<Rightarrow> (Inr b, s'))"
    by (rule GetR_exact[OF assms(1,3)])
  with that[of s'] assms(2) show thesis by (auto simp: configPart_def split: option.splits)
qed

lemma GetTestConfig_served:
  assumes "redisInv r (v s)" and "ra_store api = r"
    and "rv_str (v s) (ConfigSynTestJsonFmt i) = Some c" and "rv_str (v s) (ConfigSynTestRawFmt i) = Some raw"
    and "rv_str (v s) (ConfigSynTestStatusFmt i) = Some x" and "re_config env c x raw = Inr b"
  shows "\<exists>w s'. GetTestConfig env api (Some i) newWriter s = (w, s') \<and> v s' = v s \<and> response w = (200, ''application/json'', b)"
proof -
  let ?w = "setContentType ''application/json'' newWriter"
  let ?k3 = "\<lambda>testConfig raw status s. (case re_config env testConfig status raw of
                Inl e \<Rightarrow> httpError ''unable to fetch test run'' 500 ?w
              | Inr b \<Rightarrow> writeBody b ?w, s)"
  let ?k2 = "\<lambda>testConfig raw s. configPart api (ConfigSynTestStatusFmt i) ?w s (?k3 testConfig raw)"
  let ?k1 = "\<lambda>testConfig s. configPart api (ConfigSynTestRawFmt i) ?w s (?k2 testConfig)"
  obtain s1 where s1: "v s1 = v s" "configPart api (ConfigSynTestJsonFmt i) ?w s ?k1 = ?k1 c s1"
    by (rule configPart_served[OF assms(1,2) stringFmts_mem(5), of i ?w ?k1]) (simp add: assms(3))
  have i1: "redisInv r (v s1)" using assms(1) s1(1) by simp
  obtain s2 where s2: "v s2 = v s1" "?k1 c s1 = ?k2 c raw s2"
    by (rule configPart_served[OF i1 assms(2) stringFmts_mem(6), of i ?w "?k2 c"]) (simp add: assms(4) s1(1))
  have i2: "redisInv r (v s2)" using i1 s2(1) by simp
  obtain s3 where s3: "v s3 = v s2" "?k2 c raw s2 = ?k3 c raw x s3"
    by (rule configPart_served[OF i2 assms(2) stringFmts_mem(7), of i ?w "?k3 c raw"]) (simp add: assms(5) s1(1) s2(1))
  have "GetTestConfig env api (Some i) newWriter s = (writeBody b ?w, s3)"
    unfolding GetTestConfig_def option.case Let_def s1(2) s2(2) s3(2) using assms(6) by simp
  with s1(1) s2(1) s3(1) show ?thesis by (simp add: writer_defs)
qed

end

text \<open>
  C31. The API serves what is stored: for a plugin identifier built from names the routes accept,
  and over a server that answers, a request for the latest run, the last failed run, the health or
  the last unhealthy state of the plugin gets exactly the stored bytes as JSON with status 200, and
  status 404 when nothing is stored. No request changes the stored data.
\<close>

theorem stored_data_served:
  assumes "reliable_redis (ra_store api) v" and "redisInv (ra_store api) (v s)"
    and "segment t" "segment ns" "segment p" "segment pns" and "i = ComputePluginId t ns (ComputeAgentId p pns)"
    and "(kind, what, f, msg) \<in>
      {(''testrun'', ''latest'', TestRunLatestFmt, ''no testrun found''),
       (''testrun'', ''lastFailed'', TestRunLastFailedFmt, ''no testrun found''),
       (''plugin'', ''health'', PluginLatestHealthFmt, ''no plugin health found''),
       (''plugin'', ''lastUnhealthy'', PluginLastUnhealthyFmt, ''no plugin health found'')}"
  shows "\<exists>w s'. serve env api \<lparr>rq_Path = pluginPath kind i what, rq_RawQuery = []\<rparr> s = Some (w, s') \<and>
    v s' = v s \<and> response w = servedAs (rv_str (v s) (f i)) msg"
proof -
  note route = route_run[OF assms(3-6), folded assms(7)]
  note run = reliable_redis.GetTestRun_served[OF assms(1,2) refl, of i]
  note health = reliable_redis.GetPluginHealth_served[OF assms(1,2) refl, of i]
  have sfx: "strings_HasSuffix (URL_String \<lparr>rq_Path = pluginPath k i x, rq_RawQuery = []\<rparr>) q \<longleftrightarrow>
      prefix (rev q) (rev x @ CHR ''/'' # rev (''/api/v1/'' @ k @ ''/'' @ i))" for k x q
    by (simp add: HasSuffix_rev URL_String_def pluginPath_def)
  let ?P = "\<lambda>kind what f msg. \<exists>w s'. serve env api \<lparr>rq_Path = pluginPath kind i what, rq_RawQuery = []\<rparr> s = Some (w, s') \<and>
    v s' = v s \<and> response w = servedAs (rv_str (v s) (f i)) msg"
  have "?P ''testrun'' ''latest'' TestRunLatestFmt ''no testrun found''"
    using run[of "\<lparr>rq_Path = pluginPath ''testrun'' i ''latest'', rq_RawQuery = []\<rparr>"] by (simp add: serve_def route(1) sfx)
  moreover have "?P ''testrun'' ''lastFailed'' TestRunLastFailedFmt ''no testrun found''"
    using run[of "\<lparr>rq_Path = pluginPath ''testrun'' i ''lastFailed'', rq_RawQuery = []\<rparr>"] by (simp add: serve_def route(2) sfx)
  moreover have "?P ''plugin'' ''health'' PluginLatestHealthFmt ''no plugin health found''"
    using health[of "\<lparr>rq_Path = pluginPath ''plugin'' i ''health'', rq_RawQuery = []\<rparr>"] by (simp add: serve_def route(5) sfx)
  moreover have "?P ''plugin'' ''lastUnhealthy'' PluginLastUnhealthyFmt ''no plugin health found''"
    using health[of "\<lparr>rq_Path = pluginPath ''plugin'' i ''lastUnhealthy'', rq_RawQuery = []\<rparr>"] by (simp add: serve_def route(6) sfx)
  ultimately show ?thesis using assms(8) by (elim insertE emptyE Pair_inject) (simp_all only:)
qed

definition exampleApi :: "mem RestApi" where
  "exampleApi = \<lparr>ra_config = \<lparr>rc_Address = '':8080'', rc_StorageAddress = [], rc_UIAddress = [], rc_DebugMode = False\<rparr>,
     ra_store = memStore, ra_PingResponse = \<lparr>pr_Message = [], pr_LastUpdated = [], pr_Details = [], pr_Status = 0, pr_FailedTests = []\<rparr>\<rparr>"

definition exampleRest :: rest_env where
  "exampleRest = \<lparr>re_agents = (\<lambda>_. Inr []), re_summaries = (\<lambda>_. Inr []), re_map = (\<lambda>_. Inr []),
     re_config = (\<lambda>c x raw. Inr (enc [c, x, raw])), re_ping = (\<lambda>p. Inr (pr_Message p)),
     re_parseFloat = (\<lambda>x. if x = ''0.00000'' then Inr (False, Fin 0 0) else if x = ''0.30000'' then Inr (False, Fin 3 3)
       else if x = ''1.00000'' then Inr (False, Fin 1 0) else Inr (False, NaN))\<rparr>"

theorem stored_data_served_witness:
  "\<exists>w s'. serve exampleRest exampleApi \<lparr>rq_Path = pluginPath ''testrun'' ''dns/prod/pod-1/heart'' ''latest'', rq_RawQuery = []\<rparr> emptyMem
     = Some (w, s') \<and> fst (response w) = 404"
proof -
  have s: "segment ''dns''" "segment ''prod''" "segment ''pod-1''" "segment ''heart''" by code_simp+
  have i: "''dns/prod/pod-1/heart'' = ComputePluginId ''dns'' ''prod'' (ComputeAgentId ''pod-1'' ''heart'')"
    by (simp add: ComputePluginId_def ComputeAgentId_def)
  have r: "ra_store exampleApi = memStore" by (simp add: exampleApi_def)
  have n: "rv_str (memView emptyMem) k = None" for k by (simp add: memView_def emptyMem_def)
  from stored_data_served[of exampleApi memView emptyMem, unfolded r, OF memory.reliable_redis_axioms emptyMem_inv s i,
      of "''testrun''" "''latest''" TestRunLatestFmt "''no testrun found''" exampleRest]
  show ?thesis by (auto simp: n servedAs_def)
qed

text \<open>
  With a query string the address no longer ends in the name of the resource, and the latest run is
  served where the last failed one was asked for.
\<close>

lemma query_serves_latest_run:
  assumes "reliable_redis (ra_store api) v" and "redisInv (ra_store api) (v s)"
    and "segment t" "segment ns" "segment p" "segment pns" and "i = ComputePluginId t ns (ComputeAgentId p pns)"
  shows "\<exists>w s'. serve env api \<lparr>rq_Path = pluginPath ''testrun'' i ''lastFailed'', rq_RawQuery = ''t=1''\<rparr> s = Some (w, s') \<and>
    response w = servedAs (rv_str (v s) (TestRunLatestFmt i)) ''no testrun found''"
proof -
  note route = route_run(2)[OF assms(3-6), folded assms(7)]
  have "\<not> strings_HasSuffix (URL_String \<lparr>rq_Path = pluginPath ''testrun'' i ''lastFailed'', rq_RawQuery = ''t=1''\<rparr>) ''/lastFailed''"
    by (simp add: HasSuffix_rev URL_String_def)
  with reliable_redis.GetTestRun_served[OF assms(1,2) refl, of i] route show ?thesis by (fastforce simp: serve_def)
qed

text \<open>When the agents cannot be fetched the encoded empty map follows the error message.\<close>

lemma failed_fetch_still_encodes:
  assumes "FetchAllAgentStatus (ra_store api) s = (Inl e, s')" and "re_agents env [] = Inr b"
  shows "response (fst (GetAllAgents env api newWriter s)) =
    (500, ''text/plain; charset=utf-8'', ''unable to fetch all tests'' @ [CHR 0x0A] @ b)"
  using assms by (simp add: GetAllAgents_def writer_defs)

section \<open>The health summary is right\<close>

text \<open>A failing status: the plugin counts, and its pass ratio is below one.\<close>

definition failing :: "rest_env \<Rightarrow> (string \<times> string) set \<Rightarrow> string \<Rightarrow> string \<Rightarrow> float64 \<Rightarrow> bool" where
  "failing env statuses n ns f \<longleftrightarrow> float_lt1 f \<and> (\<exists>p \<in> statuses. statusOf env p = Some (n, ns, f))"

lemma legacy_failing: "float_lt1 f \<Longrightarrow> GetLegacyStatus f \<in> {0, 1, 2}"
  by (cases f rule: float_lt1.cases) (auto simp: GetLegacyStatus_def)

lemma overall_failing: "\<lbrakk>l \<in> {0, 1, 2}; x \<in> {1, 2, 3}\<rbrakk> \<Longrightarrow> overall l x \<in> {1, 2}"
  by (auto simp: overall_def)

definition pingInv :: "rest_env \<Rightarrow> (string \<times> SyntestConfigSummary) list \<Rightarrow> (string \<times> string) set \<Rightarrow> ping_acc \<Rightarrow> bool" where
  "pingInv env summaries statuses acc \<longleftrightarrow>
     pa_overallStatus acc \<in> {1, 2, 3} \<and>
     (pa_overallStatus acc = 3 \<longleftrightarrow> (\<nexists>n ns f. failing env statuses n ns f)) \<and>
     (\<forall>n. map_of (pa_failedTests acc) n \<noteq> None \<longleftrightarrow> (\<exists>ns f. failing env statuses n ns f)) \<and>
     (\<forall>n i. map_of (pa_failedTests acc) n = Some i \<longrightarrow> (\<exists>ns f. failing env statuses n ns f \<and> i = failedInfo summaries n ns f)) \<and>
     length (pa_failedTestNames acc) \<le> 3"

lemma failing_insert:
  "failing env (insert p statuses) n ns f \<longleftrightarrow> failing env statuses n ns f \<or> float_lt1 f \<and> statusOf env p = Some (n, ns, f)"
  by (auto simp: failing_def)

lemma length_update_le: "length (AList.update k x m) \<le> Suc (length m)"
  by (induction m) auto

text \<open>
  A failing status adds its test to the table of failed tests, with the information of one of the
  failing statuses of that name.
\<close>

definition infoFor :: "(string \<times> SyntestConfigSummary) list \<Rightarrow> string \<Rightarrow> string \<Rightarrow> float64 \<Rightarrow> ping_acc \<Rightarrow> FailedTestInfo" where
  "infoFor summaries n ns f acc =
     (case map_of (pa_failedTests acc) n of Some i \<Rightarrow> i | None \<Rightarrow> failedInfo summaries n ns f)"

lemma countStatus_failing:
  assumes "statusOf env p = Some (n, ns, f)" "float_lt1 f"
  shows "pa_failedTests (countStatus env summaries p acc) = AList.update n (infoFor summaries n ns f acc) (pa_failedTests acc)"
    "pa_overallStatus (countStatus env summaries p acc) = overall (GetLegacyStatus f) (pa_overallStatus acc)"
    "failing env (insert p statuses) m ms g \<longleftrightarrow> failing env statuses m ms g \<or> (m = n \<and> ms = ns \<and> g = f)"
  using assms by (auto simp: countStatus_def infoFor_def Let_def failing_insert)

lemma infoFor_failing:
  assumes "pingInv env summaries statuses acc" and p: "statusOf env p = Some (n, ns, f)" "float_lt1 f"
  shows "\<exists>ms g. failing env (insert p statuses) n ms g \<and> infoFor summaries n ns f acc = failedInfo summaries n ms g"
proof (cases "map_of (pa_failedTests acc) n")
  case None
  then have "infoFor summaries n ns f acc = failedInfo summaries n ns f" by (simp add: infoFor_def)
  then show ?thesis using countStatus_failing(3)[OF p, of statuses n ns f] by blast
next
  case (Some j)
  with assms(1) obtain ms g where "failing env statuses n ms g \<and> j = failedInfo summaries n ms g"
    unfolding pingInv_def by blast
  moreover have "infoFor summaries n ns f acc = j" using Some by (simp add: infoFor_def)
  ultimately show ?thesis using countStatus_failing(3)[OF p, of statuses n ms g] by blast
qed

lemma failedTests_insert:
  assumes "pingInv env summaries statuses acc" and p: "statusOf env p = Some (n, ns, f)" "float_lt1 f"
  shows "map_of (pa_failedTests (countStatus env summaries p acc)) m \<noteq> None \<longleftrightarrow> (\<exists>ns f. failing env (insert p statuses) m ns f)"
    "map_of (pa_failedTests (countStatus env summaries p acc)) m = Some j \<Longrightarrow>
      \<exists>ns f. failing env (insert p statuses) m ns f \<and> j = failedInfo summaries m ns f"
proof -
  note new = countStatus_failing(3)[OF p, of statuses]
  have upd: "map_of (pa_failedTests (countStatus env summaries p acc)) m =
      (if m = n then Some (infoFor summaries n ns f acc) else map_of (pa_failedTests acc) m)"
    unfolding countStatus_failing(1)[OF p] map_of_update by simp
  have P: "map_of (pa_failedTests acc) m \<noteq> None \<longleftrightarrow> (\<exists>ns f. failing env statuses m ns f)"
    "map_of (pa_failedTests acc) m = Some j \<Longrightarrow> \<exists>ns f. failing env statuses m ns f \<and> j = failedInfo summaries m ns f"
    using assms(1) unfolding pingInv_def by blast+
  show "map_of (pa_failedTests (countStatus env summaries p acc)) m \<noteq> None \<longleftrightarrow> (\<exists>ns f. failing env (insert p statuses) m ns f)"
    unfolding upd new using P(1) by (cases "m = n") (simp_all del: split_paired_Ex, blast?)
  show "\<exists>ns f. failing env (insert p statuses) m ns f \<and> j = failedInfo summaries m ns f"
    if "map_of (pa_failedTests (countStatus env summaries p acc)) m = Some j"
  proof (cases "m = n")
    case True
    with that upd have "j = infoFor summaries n ns f acc" by simp
    with True infoFor_failing[OF assms] show ?thesis by blast
  next
    case False
    with that upd have "map_of (pa_failedTests acc) m = Some j" by simp
    from P(2)[OF this] new show ?thesis by blast
  qed
qed

lemma countStatus_inv:
  assumes "pingInv env summaries statuses acc"
  shows "pingInv env summaries (insert p statuses) (countStatus env summaries p acc)"
proof (cases "\<exists>n ns f. statusOf env p = Some (n, ns, f) \<and> float_lt1 f")
  case False
  then have same: "failing env (insert p statuses) = failing env statuses" by (auto simp: failing_insert fun_eq_iff)
  have acc: "countStatus env summaries p acc = acc"
    using False by (auto simp: countStatus_def split: option.splits prod.splits)
  show ?thesis using assms unfolding pingInv_def same acc .
next
  case True
  then obtain n ns f where p: "statusOf env p = Some (n, ns, f)" "float_lt1 f" by blast
  let ?acc = "countStatus env summaries p acc"
  have "pa_overallStatus acc \<in> {1, 2, 3}" using assms unfolding pingInv_def by blast
  from overall_failing[OF legacy_failing[OF p(2)] this] have status: "pa_overallStatus ?acc \<in> {1, 2}"
    unfolding countStatus_failing(2)[OF p] .
  have some: "failing env (insert p statuses) n ns f" using countStatus_failing(3)[OF p] by blast
  show ?thesis
    unfolding pingInv_def
  proof (intro conjI allI impI)
    show "pa_overallStatus ?acc \<in> {1, 2, 3}" using status by blast
    have "pa_overallStatus ?acc \<noteq> 3" using status by auto
    with some show "pa_overallStatus ?acc = 3 \<longleftrightarrow> (\<nexists>n ns f. failing env (insert p statuses) n ns f)" by blast
    show "map_of (pa_failedTests ?acc) m \<noteq> None \<longleftrightarrow> (\<exists>ns f. failing env (insert p statuses) m ns f)" for m
      by (rule failedTests_insert(1)[OF assms p])
    show "\<exists>ns f. failing env (insert p statuses) m ns f \<and> j = failedInfo summaries m ns f"
      if "map_of (pa_failedTests ?acc) m = Some j" for m j
      by (rule failedTests_insert(2)[OF assms p that])
    show "length (pa_failedTestNames ?acc) \<le> 3"
      using p assms by (auto simp: countStatus_def Let_def pingInv_def intro: le_trans[OF length_update_le])
  qed
qed

lemma countAll_inv:
  "pingInv env summaries statuses acc \<Longrightarrow>
    pingInv env summaries (set ps \<union> statuses) (fold (countStatus env summaries) ps acc)"
proof (induction ps arbitrary: statuses acc)
  case (Cons p ps)
  from Cons.IH[OF countStatus_inv[OF Cons.prems]] show ?case by (simp add: insert_commute)
qed simp

lemma pingResponse_correct:
  assumes "pingInv env summaries statuses acc"
  shows "pr_Message (pingResponse now acc) = ''Healthy'' \<longleftrightarrow> (\<nexists>n ns f. failing env statuses n ns f)"
    "pr_Message (pingResponse now acc) = ''Healthy'' \<longleftrightarrow> pr_Status (pingResponse now acc) = 3"
    "pr_Status (pingResponse now acc) \<in> {1, 2, 3}"
    "\<forall>n. map_of (pr_FailedTests (pingResponse now acc)) n \<noteq> None \<longleftrightarrow> (\<exists>ns f. failing env statuses n ns f)"
    "\<forall>n i. map_of (pr_FailedTests (pingResponse now acc)) n = Some i \<longrightarrow>
       (\<exists>ns f. failing env statuses n ns f \<and> i = failedInfo summaries n ns f)"
proof -
  have P: "pr_Status (pingResponse now acc) = pa_overallStatus acc" "pr_FailedTests (pingResponse now acc) = pa_failedTests acc"
    "pr_Message (pingResponse now acc) = ''Healthy'' \<longleftrightarrow> pa_overallStatus acc = 3"
    by (simp_all add: pingResponse_def)
  show "pr_Message (pingResponse now acc) = ''Healthy'' \<longleftrightarrow> (\<nexists>n ns f. failing env statuses n ns f)"
    "pr_Message (pingResponse now acc) = ''Healthy'' \<longleftrightarrow> pr_Status (pingResponse now acc) = 3"
    "pr_Status (pingResponse now acc) \<in> {1, 2, 3}"
    "\<forall>n. map_of (pr_FailedTests (pingResponse now acc)) n \<noteq> None \<longleftrightarrow> (\<exists>ns f. failing env statuses n ns f)"
    "\<forall>n i. map_of (pr_FailedTests (pingResponse now acc)) n = Some i \<longrightarrow>
       (\<exists>ns f. failing env statuses n ns f \<and> i = failedInfo summaries n ns f)"
    using assms unfolding pingInv_def P by blast+
qed

context reliable_redis begin

lemma UpdatePing_exact:
  assumes "redisInv r (v s)" and "ra_store api = r"
  obtains m summaries s' where "map_of m = v_runStatus (viewOf r (v s))" "gwf m" "map_of summaries = v_sum (viewOf r (v s))"
    "UpdatePingResponse env now api s = (api\<lparr>ra_PingResponse := pingResponse now
       (fold (countStatus env summaries) m \<lparr>pa_failedTestNames = [], pa_failedTests = [], pa_overallStatus = 3\<rparr>)\<rparr>, s')"
proof -
  obtain m s1 where m: "FetchAllTestRunStatus r s = (Inr m, s1)"
    using HGetAllR_total[OF assms(1) hashKeys_mem(1)] by (auto simp: FetchAllTestRunStatus_def)
  note law1 = fetch_run_status_law[OF assms(1) m]
  obtain ss s2 where ss: "FetchAllTestConfigSummary r s1 = (Inr ss, s2)"
    using rstore.fetch_summaries_total[of s1] law1
    by (cases "FetchAllTestConfigSummary r s1") (auto simp: NewRedisSynHeartStore_def)
  show thesis
  proof (rule that)
    show "map_of m = v_runStatus (viewOf r (v s))" "gwf m" using law1 by auto
    show "map_of ss = v_sum (viewOf r (v s))" using fetch_summaries_law[OF _ ss] law1 by auto
    show "UpdatePingResponse env now api s = (api\<lparr>ra_PingResponse := pingResponse now
       (fold (countStatus env ss) m \<lparr>pa_failedTestNames = [], pa_failedTests = [], pa_overallStatus = 3\<rparr>)\<rparr>, s2)"
      using m ss assms(2) by (simp add: UpdatePingResponse_def)
  qed
qed

end

text \<open>
  The health summary is right: over a server that answers, the summary says Healthy exactly when
  no plugin whose status can be read has a pass ratio below one, its status is then 3 and otherwise
  1 or 2, and the tests it lists as failed are exactly the names of the failing tests, each with the
  namespace, display name and status of one of its failing plugins.
\<close>

theorem ping_correct:
  assumes "reliable_redis (ra_store api) v" and "redisInv (ra_store api) (v s)"
    and "statuses = {(i, x). v_runStatus (viewOf (ra_store api) (v s)) i = Some x}"
  shows "\<exists>ping s' summaries. UpdatePingResponse env now api s = (api\<lparr>ra_PingResponse := ping\<rparr>, s') \<and>
    map_of summaries = v_sum (viewOf (ra_store api) (v s)) \<and>
    (pr_Message ping = ''Healthy'' \<longleftrightarrow> (\<nexists>n ns f. failing env statuses n ns f)) \<and>
    (pr_Message ping = ''Healthy'' \<longleftrightarrow> pr_Status ping = 3) \<and> pr_Status ping \<in> {1, 2, 3} \<and>
    (\<forall>n. map_of (pr_FailedTests ping) n \<noteq> None \<longleftrightarrow> (\<exists>ns f. failing env statuses n ns f)) \<and>
    (\<forall>n i. map_of (pr_FailedTests ping) n = Some i \<longrightarrow> (\<exists>ns f. failing env statuses n ns f \<and> i = failedInfo summaries n ns f))"
proof -
  let ?r = "ra_store api" and ?acc0 = "\<lparr>pa_failedTestNames = [], pa_failedTests = [], pa_overallStatus = 3\<rparr>"
  obtain m summaries s' where u: "map_of m = v_runStatus (viewOf ?r (v s))" "gwf m" "map_of summaries = v_sum (viewOf ?r (v s))"
    "UpdatePingResponse env now api s = (api\<lparr>ra_PingResponse := pingResponse now (fold (countStatus env summaries) m ?acc0)\<rparr>, s')"
    by (rule reliable_redis.UpdatePing_exact[OF assms(1,2) refl, of env now])
  have "pingInv env summaries {} ?acc0" by (simp add: pingInv_def failing_def)
  then have inv: "pingInv env summaries (set m \<union> {}) (fold (countStatus env summaries) m ?acc0)" by (rule countAll_inv)
  have "set m = statuses" using u(1,2) assms(3) by (auto simp: map_of_mem)
  with inv have "pingInv env summaries statuses (fold (countStatus env summaries) m ?acc0)" by (simp only: Un_empty_right)
  from pingResponse_correct[OF this, of now] u(3,4) show ?thesis by blast
qed

theorem ping_correct_witness:
  "\<exists>ping s'. UpdatePingResponse exampleRest ''now'' exampleApi emptyMem = (exampleApi\<lparr>ra_PingResponse := ping\<rparr>, s') \<and>
     pr_Message ping = ''Healthy''"
proof -
  have r: "ra_store exampleApi = memStore" by (simp add: exampleApi_def)
  have n: "{(i, x). v_runStatus (viewOf memStore (memView emptyMem)) i = Some x} = {}"
    by (simp add: viewOf_def memView_def memHash_def emptyMem_def)
  have "\<nexists>n ns f. failing exampleRest {} n ns f" by (simp add: failing_def)
  with ping_correct[of exampleApi memView emptyMem, unfolded r, OF memory.reliable_redis_axioms emptyMem_inv n[symmetric],
      of exampleRest "''now''"]
  show ?thesis by blast
qed

text \<open>
  The overall status depends on the order in which the map is visited: a pass ratio between zero and
  a half counts as unknown, and an unknown status that comes after a failed one raises the overall
  status from 1 to 2 again.
\<close>

lemma overall_order_dependent:
  "overall (GetLegacyStatus (False, Fin 3 3)) (overall (GetLegacyStatus (False, Fin 0 0)) 3) = 2"
  "overall (GetLegacyStatus (False, Fin 0 0)) (overall (GetLegacyStatus (False, Fin 3 3)) 3) = 1"
  by (simp_all add: overall_def GetLegacyStatus_def)

text \<open>A plugin without any marks has the pass ratio NaN and does not count as failing.\<close>

lemma nan_not_failing: "\<not> float_lt1 (neg, NaN)" "GetLegacyStatus (neg, NaN) = 0"
  by (simp_all add: GetLegacyStatus_def)

end
