(* ===== verification/RestServer.thy ===== *)
theory RestServer
  imports RestApi
begin

text \<open>
  The process of the REST API (\<open>NewRestApi\<close> and \<open>main\<close> in restapi/main.go): reading the
  configuration, and the server together with the ticker that refreshes the health summary. The
  lock of the summary makes a refresh and a request for it one step each, so an execution is a
  sequence of ticks and requests.
\<close>

section \<open>The code\<close>

definition NewRestApi :: "(string \<Rightarrow> err + string) \<Rightarrow> (string \<Rightarrow> RestApiConfig \<times> err option) \<Rightarrow> (string \<Rightarrow> 's RedisSynHeartStore)
    \<Rightarrow> string \<Rightarrow> err + 's RestApi" where
  "NewRestApi readFile parseYML connect configPath =
     (case readFile configPath of
        Inl e \<Rightarrow> Inl (ErrWrap ''error reading file'' e)
      | Inr b \<Rightarrow>
          (case parseYML b of
             (c, Some e) \<Rightarrow> Inl (ErrWrap ''error parsing config'' e)
           | (c, None) \<Rightarrow>
               Inr \<lparr>ra_config = c, ra_store = connect (rc_StorageAddress c),
                    ra_PingResponse = \<lparr>pr_Message = [], pr_LastUpdated = [], pr_Details = [], pr_Status = 0, pr_FailedTests = []\<rparr>\<rparr>))"

datatype rest_event = PingTick string | Request request

text \<open>The responses, in order; None stands for the redirect to the user interface.\<close>

fun serveAll :: "rest_env \<Rightarrow> rest_event list \<Rightarrow> 's RestApi \<Rightarrow> 's \<Rightarrow> writer option list \<times> 's RestApi \<times> 's" where
  "serveAll env [] api s = ([], api, s)"
| "serveAll env (PingTick now # es) api s = (case UpdatePingResponse env now api s of (api, s) \<Rightarrow> serveAll env es api s)"
| "serveAll env (Request rq # es) api s =
     (case serve env api rq s of
        None \<Rightarrow> apfst ((#) None) (serveAll env es api s)
      | Some (w, s) \<Rightarrow> apfst ((#) (Some w)) (serveAll env es api s))"

datatype rest_exit = NoConfigPath | ConfigFails err | Serving

definition restMain :: "(string \<Rightarrow> err + string) \<Rightarrow> (string \<Rightarrow> RestApiConfig \<times> err option) \<Rightarrow> (string \<Rightarrow> 's RedisSynHeartStore)
    \<Rightarrow> rest_env \<Rightarrow> string list \<Rightarrow> rest_event list \<Rightarrow> 's \<Rightarrow> rest_exit \<times> writer option list \<times> 's" where
  "restMain readFile parseYML connect env args es s =
     (case args of
        _ # configPath # _ \<Rightarrow>
          (case NewRestApi readFile parseYML connect configPath of
             Inl e \<Rightarrow> (ConfigFails e, [], s)
           | Inr api \<Rightarrow> (case serveAll env es api s of (ws, _, s) \<Rightarrow> (Serving, ws, s)))
      | _ \<Rightarrow> (NoConfigPath, [], s))"

section \<open>Requests only read\<close>

lemma serveAll_append:
  "serveAll env (es @ fs) api s =
     (case serveAll env es api s of (ws, api, s) \<Rightarrow> apfst ((@) ws) (serveAll env fs api s))"
  by (induction env es api s rule: serveAll.induct)
    (auto simp: apfst_def map_prod_def split: prod.splits option.splits)

context redis_service begin

lemma fetches_read:
  "FetchAllAgentStatus r s = (res1, s') \<Longrightarrow> v s' = v s" "FetchAllTestConfigSummary r s = (res2, s') \<Longrightarrow> v s' = v s"
  "FetchAllTestRunStatus r s = (res3, s') \<Longrightarrow> v s' = v s" "FetchAllPluginStatus r s = (res3, s') \<Longrightarrow> v s' = v s"
  "FetchLatestTestRun r i s = (res4, s') \<Longrightarrow> v s' = v s" "FetchLastFailedTestRun r i s = (res4, s') \<Longrightarrow> v s' = v s"
  subgoal by (cases "HGetAllR r AgentsAll s"; cases "fst (HGetAllR r AgentsAll s)") (auto simp: FetchAllAgentStatus_def dest: HGetAllR_law(1))
  subgoal by (cases "HGetAllR r ConfigSynTestsSummary s"; cases "fst (HGetAllR r ConfigSynTestsSummary s)")
      (auto simp: FetchAllTestConfigSummary_def dest: HGetAllR_law(1))
  subgoal by (auto simp: FetchAllTestRunStatus_def dest: HGetAllR_law(1))
  subgoal by (auto simp: FetchAllPluginStatus_def dest: HGetAllR_law(1))
  subgoal unfolding FetchLatestTestRun_def by (rule fetched_law(1))
  subgoal unfolding FetchLastFailedTestRun_def by (rule fetched_law(1))
  done

lemma configPart_reads:
  assumes "configPart api key w s k = (w', s')" and "ra_store api = r"
    and "\<And>x s1 w' s'. k x s1 = (w', s') \<Longrightarrow> v s' = v s1"
  shows "v s' = v s"
  using assms(1) GetR_law(1)[of key s] assms(2,3)
  by (cases "GetR r key s") (auto simp: configPart_def split: sum.splits if_splits)

lemma serve_reads:
  assumes "serve env api rq s = Some (w, s')" and "ra_store api = r"
  shows "v s' = v s"
proof -
  note g = GetR_law(1) and f = fetches_read
  have 1: "GetAllAgents env api w0 s = (w, s') \<Longrightarrow> v s' = v s" for w0
    using assms(2) f(1) by (auto simp: GetAllAgents_def split: prod.splits sum.splits)
  have 2: "GetAllTests env api w0 s = (w, s') \<Longrightarrow> v s' = v s" for w0
    using assms(2) f(2) by (auto simp: GetAllTests_def split: prod.splits sum.splits)
  have 3: "GetAllTestStatus env api w0 s = (w, s') \<Longrightarrow> v s' = v s" for w0
    using assms(2) f(3) by (auto simp: GetAllTestStatus_def Let_def split: prod.splits sum.splits)
  have 4: "GetAllPluginStatus env api w0 s = (w, s') \<Longrightarrow> v s' = v s" for w0
    using assms(2) f(4) by (auto simp: GetAllPluginStatus_def Let_def split: prod.splits sum.splits)
  have 5: "GetPluginHealth api i rq w0 s = (w, s') \<Longrightarrow> v s' = v s" for i w0
    using assms(2) g by (auto simp: GetPluginHealth_def Let_def simp del: strings_HasSuffix_iff split: prod.splits sum.splits option.splits if_splits)
  have 6: "GetTestRun api i rq w0 s = (w, s') \<Longrightarrow> v s' = v s" for i w0
    using assms(2) g by (auto simp: GetTestRun_def Let_def simp del: strings_HasSuffix_iff split: prod.splits sum.splits option.splits if_splits)
  have 7: "GetTestLogs api i rq w0 s = (w, s') \<Longrightarrow> v s' = v s" for i w0
    using assms(2) f(5,6) by (auto simp: GetTestLogs_def Let_def simp del: strings_HasSuffix_iff split: prod.splits sum.splits option.splits if_splits)
  have 8: "GetTestConfig env api i w0 s = (w, s') \<Longrightarrow> v s' = v s" for i w0
    by (cases i) (auto simp: GetTestConfig_def Let_def intro: configPart_reads[OF _ assms(2)] elim!: configPart_reads[OF _ assms(2)])
  show ?thesis
    using assms(1) 1 2 3 4 5 6 7 8
    by (cases "registerRoutes (rq_Path rq)") (auto simp: serve_def split: handler.splits)
qed

lemma UpdatePing_reads:
  assumes "UpdatePingResponse env now api s = (api', s')" and "ra_store api = r"
  shows "v s' = v s" "ra_store api' = r"
  using assms fetches_read(2,3) by (auto simp: UpdatePingResponse_def split: prod.splits sum.splits)

lemma serveAll_reads:
  assumes "serveAll env es api s = (ws, api', s')" and "ra_store api = r"
  shows "v s' = v s \<and> ra_store api' = r"
  using assms
proof (induction env es api s arbitrary: ws rule: serveAll.induct)
  case (2 env now es api s)
  obtain api1 s1 where u: "UpdatePingResponse env now api s = (api1, s1)" by (cases "UpdatePingResponse env now api s")
  from 2(1)[OF u[symmetric]] 2(2) u UpdatePing_reads[OF u 2(3)] show ?case by simp
next
  case (3 env rq es api s)
  show ?case
  proof (cases "serve env api rq s")
    case None
    then show ?thesis using 3(1)[OF None] 3(3,4) by (auto simp: apfst_def map_prod_def split: prod.splits)
  next
    case (Some p)
    obtain w s1 where p: "p = (w, s1)" by (cases p)
    show ?thesis using 3(2)[OF Some p[symmetric]] 3(3,4) Some p serve_reads[of env api rq s w s1]
      by (auto simp: apfst_def map_prod_def split: prod.splits)
  qed
qed auto

end

text \<open>
  C32. The API never writes: whatever the requests and ticks are, and whichever commands fail, the
  stored data after them is the stored data before.
\<close>

theorem api_read_only:
  assumes "redis_service (connect (rc_StorageAddress c)) v" and "NewRestApi readFile parseYML connect path = Inr api"
    and "parseYML b = (c, None)" and "readFile path = Inr b"
    and "restMain readFile parseYML connect env [prog, path] es s = (how, ws, s')"
  shows "how = Serving \<and> v s' = v s"
proof -
  obtain ws' api' s1 where a: "serveAll env es api s = (ws', api', s1)" by (cases "serveAll env es api s")
  have "ra_store api = connect (rc_StorageAddress c)" using assms(2-4) by (auto simp: NewRestApi_def)
  with redis_service.serveAll_reads[OF assms(1) a] a assms(2,5) show ?thesis by (auto simp: restMain_def)
qed

definition exampleConfig :: RestApiConfig where
  "exampleConfig = \<lparr>rc_Address = '':8080'', rc_StorageAddress = [], rc_UIAddress = [], rc_DebugMode = False\<rparr>"

theorem api_read_only_witness:
  "\<exists>ws s'. restMain (\<lambda>_. Inr []) (\<lambda>_. (exampleConfig, None)) (\<lambda>_. memStore) exampleRest [''restapi'', ''config'']
     [PingTick ''now'', Request \<lparr>rq_Path = ''/api/v1/agents'', rq_RawQuery = []\<rparr>] emptyMem = (Serving, ws, s') \<and> memView s' = memView emptyMem"
proof -
  let ?m = "restMain (\<lambda>_. Inr []) (\<lambda>_. (exampleConfig, None)) (\<lambda>_. memStore) exampleRest [''restapi'', ''config'']
     [PingTick ''now'', Request \<lparr>rq_Path = ''/api/v1/agents'', rq_RawQuery = []\<rparr>] emptyMem"
  obtain how ws s' where m: "?m = (how, ws, s')" by (cases ?m)
  obtain api where api: "NewRestApi (\<lambda>_. Inr []) (\<lambda>_. (exampleConfig, None)) (\<lambda>_. memStore) ''config'' = Inr api"
    by (simp add: NewRestApi_def)
  from api_read_only[OF _ api refl refl m] memory.redis_service_axioms m show ?thesis by simp
qed

section \<open>The summary is current\<close>

lemma serveAll_requests:
  assumes "serveAll env (map Request rqs) api s = (ws, api', s')"
  shows "api' = api"
  using assms
  by (induction rqs arbitrary: s ws) (auto simp: apfst_def map_prod_def split: prod.splits option.splits)

lemma serve_ping:
  assumes "re_ping env (ra_PingResponse api) = Inr b"
  shows "\<exists>w. serve env api \<lparr>rq_Path = ''/api/v1/ping'', rq_RawQuery = []\<rparr> s = Some (w, s) \<and> response w = (200, ''application/json'', b)"
proof -
  have "registerRoutes ''/api/v1/ping'' = Some (H_GetPing, None)" by (simp add: registerRoutes_def Let_def)
  with assms show ?thesis by (simp add: serve_def GetPing_def writer_defs)
qed

text \<open>
  C33. The health endpoint reports the stored state of the last refresh: over a server that answers,
  after any requests and refreshes, a refresh, and any further requests, the answer to a request for
  the summary is the encoding of a summary that says Healthy exactly when no stored status is
  below one, and whose failed tests are exactly the names of the failing ones.
\<close>

theorem ping_served_current:
  assumes "reliable_redis (ra_store api) v" and "redisInv (ra_store api) (v s)"
    and "statuses = {(i, x). v_runStatus (viewOf (ra_store api) (v s)) i = Some x}"
    and "\<forall>p. \<exists>b. re_ping env p = Inr b"
  shows "\<exists>ws w api' s' ping b.
    serveAll env (es @ [PingTick now] @ map Request rqs @ [Request \<lparr>rq_Path = ''/api/v1/ping'', rq_RawQuery = []\<rparr>]) api s
      = (ws @ [Some w], api', s') \<and>
    response w = (200, ''application/json'', b) \<and> re_ping env ping = Inr b \<and> pr_LastUpdated ping = now \<and>
    (pr_Message ping = ''Healthy'' \<longleftrightarrow> (\<nexists>n ns f. failing env statuses n ns f)) \<and>
    (\<forall>n. map_of (pr_FailedTests ping) n \<noteq> None \<longleftrightarrow> (\<exists>ns f. failing env statuses n ns f))"
proof -
  let ?r = "ra_store api" and ?acc0 = "\<lparr>pa_failedTestNames = [], pa_failedTests = [], pa_overallStatus = 3\<rparr>"
  have rs: "redis_service ?r v" using assms(1) by (rule reliable_redis.axioms)
  obtain ws1 api1 s1 where 1: "serveAll env es api s = (ws1, api1, s1)" by (cases "serveAll env es api s")
  have v1: "v s1 = v s" "ra_store api1 = ?r" using redis_service.serveAll_reads[OF rs 1] by auto
  then have i1: "redisInv ?r (v s1)" using assms(2) by simp
  obtain m summaries s2 where u: "map_of m = v_runStatus (viewOf ?r (v s))" "gwf m"
    "UpdatePingResponse env now api1 s1 = (api1\<lparr>ra_PingResponse := pingResponse now (fold (countStatus env summaries) m ?acc0)\<rparr>, s2)"
    using reliable_redis.UpdatePing_exact[OF assms(1) i1 v1(2), of env now] v1(1) by metis
  let ?ping = "pingResponse now (fold (countStatus env summaries) m ?acc0)"
  let ?api2 = "api1\<lparr>ra_PingResponse := ?ping\<rparr>"
  obtain ws3 api3 s3 where 3: "serveAll env (map Request rqs) ?api2 s2 = (ws3, api3, s3)" by (cases "serveAll env (map Request rqs) ?api2 s2")
  have api3: "api3 = ?api2" by (rule serveAll_requests[OF 3])
  obtain b where b: "re_ping env ?ping = Inr b" using assms(4) by blast
  obtain w where w: "serve env ?api2 \<lparr>rq_Path = ''/api/v1/ping'', rq_RawQuery = []\<rparr> s3 = Some (w, s3)"
    "response w = (200, ''application/json'', b)"
    using serve_ping[of env ?api2 b s3] b by auto
  have run: "serveAll env (es @ [PingTick now] @ map Request rqs @ [Request \<lparr>rq_Path = ''/api/v1/ping'', rq_RawQuery = []\<rparr>]) api s
      = ((ws1 @ ws3) @ [Some w], ?api2, s3)"
    using 1 u(3) 3 api3 w(1) by (simp add: serveAll_append)
  have inv: "pingInv env summaries statuses (fold (countStatus env summaries) m ?acc0)"
  proof -
    have "pingInv env summaries {} ?acc0" by (simp add: pingInv_def failing_def)
    then have "pingInv env summaries (set m \<union> {}) (fold (countStatus env summaries) m ?acc0)" by (rule countAll_inv)
    moreover have "set m = statuses" using u(1,2) assms(3) by (auto simp: map_of_mem)
    ultimately show ?thesis by (simp only: Un_empty_right)
  qed
  have now: "pr_LastUpdated ?ping = now" by (simp add: pingResponse_def)
  show ?thesis
    by (intro exI[of _ "ws1 @ ws3"] exI[of _ w] exI[of _ ?api2] exI[of _ s3] exI[of _ ?ping] exI[of _ b] conjI)
      (rule run w(2) b now pingResponse_correct(1,4)[OF inv])+
qed

theorem ping_served_current_witness:
  "\<exists>ws w api' s' b. serveAll exampleRest ([] @ [PingTick ''now''] @ map Request [] @ [Request \<lparr>rq_Path = ''/api/v1/ping'', rq_RawQuery = []\<rparr>])
     exampleApi emptyMem = (ws @ [Some w], api', s') \<and> response w = (200, ''application/json'', b)"
proof -
  have r: "ra_store exampleApi = memStore" by (simp add: exampleApi_def)
  have "\<forall>p. \<exists>b. re_ping exampleRest p = Inr b" by (simp add: exampleRest_def)
  from ping_served_current[of exampleApi memView emptyMem, unfolded r, OF memory.reliable_redis_axioms emptyMem_inv refl this,
      of "[]" "''now''" "[]"]
  show ?thesis by blast
qed

end
