(* ===== verification/Metrics.thy ===== *)
theory Metrics
  imports Models Float64
begin

text \<open>
  The Prometheus metrics a test attaches to its result (common/models.go and common/helpers.go).
  The YAML encoder is an argument.
\<close>

record PrometheusGauge =
  pg_Name :: string
  pg_Help :: string
  pg_Value :: float64
  pg_Labels :: gomap

type_synonym PrometheusMetrics = "PrometheusGauge list"

text \<open>
  The result is passed by value, but its map of details is shared with the caller, so the caller
  sees the new entry. Every plugin passes a result whose map is not nil.
\<close>

definition AddPrometheusMetricsToResults ::
  "(PrometheusMetrics \<Rightarrow> err + string) \<Rightarrow> PrometheusMetrics \<Rightarrow> TestResult \<Rightarrow> err option \<times> TestResult" where
  "AddPrometheusMetricsToResults marshal promMetric testResult =
     (case marshal promMetric of
        Inl e \<Rightarrow> (Some (ErrWrap ''error converting prometheus metric to yaml'' e), testResult)
      | Inr promYaml \<Rightarrow>
          (None, testResult\<lparr>tres_Details := AList.update PrometheusKey promYaml (tres_Details testResult)\<rparr>))"

lemma AddPrometheusMetrics_marks [simp]:
  "tres_Marks (snd (AddPrometheusMetricsToResults marshal m tr)) = tres_Marks tr"
  "tres_MaxMarks (snd (AddPrometheusMetricsToResults marshal m tr)) = tres_MaxMarks tr"
  by (simp_all add: AddPrometheusMetricsToResults_def split: sum.split)

section \<open>Logs in the details\<close>

text \<open>
  The logger that collects the messages of a test in the details of its result
  (\<open>TestDetailsLogger\<close>). None stands for a nil map, to which writing panics.
\<close>

definition TestDetailsLogger_Log :: "string \<Rightarrow> gomap option \<Rightarrow> gomap option" where
  "TestDetailsLogger_Log msg details =
     map_option (\<lambda>d. AList.update LogKey (gidx d LogKey @ msg @ [CHR 0x0A]) d) details"

text \<open>The log is the sequence of the messages, one per line, and the other details stay.\<close>

lemma details_logged:
  "\<exists>d'. fold TestDetailsLogger_Log msgs (Some d) = Some d' \<and>
    gidx d' LogKey = gidx d LogKey @ concat (map (\<lambda>m. m @ [CHR 0x0A]) msgs) \<and>
    (\<forall>k. k \<noteq> LogKey \<longrightarrow> map_of d' k = map_of d k)"
proof (induction msgs arbitrary: d)
  case (Cons m msgs)
  let ?d = "AList.update LogKey (gidx d LogKey @ m @ [CHR 0x0A]) d"
  have "gidx ?d LogKey = gidx d LogKey @ m @ [CHR 0x0A]" "\<forall>k. k \<noteq> LogKey \<longrightarrow> map_of ?d k = map_of d k"
    by (simp_all add: gidx_def update_conv')
  with Cons.IH[of ?d] show ?case by (auto simp: TestDetailsLogger_Log_def)
qed simp

lemma nil_details_panic: "TestDetailsLogger_Log msg None = None"
  by (simp add: TestDetailsLogger_Log_def)

end
