(* ===== verification/Prometheus.thy ===== *)
theory Prometheus
  imports Metrics "HOL-Library.Char_ord"
begin

text \<open>
  The Prometheus exporter of the agent (agent/pluginmanager/prometheus.go): gauges for the marks,
  the run time and the custom metrics of each run. The gauge vectors of the Prometheus client, the
  templates of the labels, YAML, \<open>time.Parse\<close> and the push gateway are records of functions;
  \<open>gauge_client\<close> states what the client documents of gauge vectors. A panic is the outcome
  None.
\<close>

section \<open>The Prometheus client\<close>

text \<open>
  Creating a registered vector for a name, a help text and label names (None: it panics), looking
  up the gauge of a set of labels (an error, or nil), setting it, and resetting the vector.
\<close>

record 'g gauge_lib =
  gl_New :: "string \<Rightarrow> string \<Rightarrow> string list \<Rightarrow> 'g option"
  gl_GetMetricWith :: "'g \<Rightarrow> gomap \<Rightarrow> err option"
  gl_Set :: "'g \<Rightarrow> gomap \<Rightarrow> float64 \<Rightarrow> 'g"
  gl_Reset :: "'g \<Rightarrow> 'g"

locale gauge_client =
  fixes lib :: "'g gauge_lib" and labelNames :: "'g \<Rightarrow> string set"
    and val :: "'g \<Rightarrow> (string \<rightharpoonup> string) \<Rightarrow> float64 option" and utf8 :: "string \<Rightarrow> bool"
  assumes new_vec: "gl_New lib name help ks = Some g \<Longrightarrow> labelNames g = set ks \<and> val g = Map.empty"
    and get_metric: "gl_GetMetricWith lib g labels = None \<longleftrightarrow>
      dom (map_of labels) = labelNames g \<and> Ball (ran (map_of labels)) utf8"
    and set_metric: "gl_GetMetricWith lib g labels = None \<Longrightarrow>
      labelNames (gl_Set lib g labels x) = labelNames g \<and> val (gl_Set lib g labels x) = (val g)(map_of labels \<mapsto> x)"
    and reset_vec: "labelNames (gl_Reset lib g) = labelNames g \<and> val (gl_Reset lib g) = Map.empty"

record prom_env =
  pn_parse :: "string \<Rightarrow> err option"
  pn_execute :: "string \<Rightarrow> AgentInfo \<Rightarrow> SynTestConfig \<Rightarrow> string"
  pn_parseTime :: "string \<Rightarrow> err + time"
  pn_yaml :: "string \<Rightarrow> err + PrometheusMetrics"
  pn_push :: "err option"

section \<open>The code\<close>

record 'g PrometheusExporter =
  px_config :: PrometheusConfig
  px_srv :: bool
  px_gauges :: "(string \<times> 'g) list"
  px_runTimeInfo :: AgentInfo

definition MarksGauge :: string where "MarksGauge = ''syntheticheart_marks_total''"
definition MaxMarksGauge :: string where "MaxMarksGauge = ''syntheticheart_max_marks_total''"
definition TimeGauge :: string where "TimeGauge = ''syntheticheart_runtime_ns''"
definition CustomGauge :: "string \<Rightarrow> string" where "CustomGauge n = ''syntheticheart_'' @ n"

definition NewPrometheusExporter :: "AgentConfig \<Rightarrow> 'g PrometheusExporter" where
  "NewPrometheusExporter agentConfig =
     \<lparr>px_config = ac_PrometheusConfig agentConfig, px_srv = (\<not> pc_Push (ac_PrometheusConfig agentConfig)),
      px_gauges = [], px_runTimeInfo = ac_RunTimeInfo agentConfig\<rparr>"

text \<open>The regular expressions for names: \<open>[^a-zA-Z_][^a-zA-Z0-9_]*\<close> and \<open>^([a-zA-Z_][a-zA-Z0-9_]*)$\<close>.\<close>

definition isAlphaU :: "char \<Rightarrow> bool" where
  "isAlphaU c \<longleftrightarrow> (CHR ''a'' \<le> c \<and> c \<le> CHR ''z'') \<or> (CHR ''A'' \<le> c \<and> c \<le> CHR ''Z'') \<or> c = CHR ''_''"

definition isAlnumU :: "char \<Rightarrow> bool" where
  "isAlnumU c \<longleftrightarrow> isAlphaU c \<or> (CHR ''0'' \<le> c \<and> c \<le> CHR ''9'')"

function cleanMetricName :: "string \<Rightarrow> string" where
  "cleanMetricName [] = []"
| "cleanMetricName (c # cs) =
     (if isAlphaU c then c # cleanMetricName cs
      else CHR ''_'' # cleanMetricName (dropWhile (\<lambda>x. \<not> isAlnumU x) cs))"
  by pat_completeness auto
termination
  by (relation "measure length") (auto simp: less_Suc_eq_le length_dropWhile_le)

definition validMetricLabel :: "string \<Rightarrow> bool" where
  "validMetricLabel s \<longleftrightarrow> s \<noteq> [] \<and> isAlphaU (hd s) \<and> list_all isAlnumU (tl s)"

text \<open>The rendered labels, and whether an error ended the loop.\<close>

fun renderLoop :: "prom_env \<Rightarrow> AgentInfo \<Rightarrow> SynTestConfig \<Rightarrow> gomap \<Rightarrow> gomap \<Rightarrow> gomap \<times> err option" where
  "renderLoop env info c [] rendered = (rendered, None)"
| "renderLoop env info c ((k, v) # rest) rendered =
     (case pn_parse env v of
        Some e \<Rightarrow> (rendered, Some (ErrWrap ''error parsing label template'' e))
      | None \<Rightarrow>
          (let rendered = AList.update k (pn_execute env v info c) rendered in
           if validMetricLabel k then renderLoop env info c rest rendered
           else (rendered, Some (ErrNew (''label '' @ k @ '' does not match the prometheus regex [a-zA-Z_][a-zA-Z0-9_]*'')))))"

definition renderLabels :: "prom_env \<Rightarrow> 'g PrometheusExporter \<Rightarrow> SynTestConfig \<Rightarrow> gomap \<times> err option" where
  "renderLabels env p testConfig = renderLoop env (px_runTimeInfo p) testConfig (pc_Labels (px_config p)) []"

definition setOrCreateGauge :: "'g gauge_lib \<Rightarrow> string \<Rightarrow> string \<Rightarrow> float64 \<Rightarrow> gomap \<Rightarrow> 'g PrometheusExporter \<Rightarrow> 'g PrometheusExporter option" where
  "setOrCreateGauge lib name help value labels p =
     (case (case map_of (px_gauges p) name of Some g \<Rightarrow> Some g | None \<Rightarrow> gl_New lib name help (map fst labels)) of
        None \<Rightarrow> None
      | Some g \<Rightarrow>
          (case gl_GetMetricWith lib g labels of
             Some e \<Rightarrow> None
           | None \<Rightarrow> Some (p\<lparr>px_gauges := AList.update name (gl_Set lib g labels value) (px_gauges p)\<rparr>)))"

text \<open>The labels of a run: an error of the templates is logged and the labels so far are used.\<close>

definition runLabels :: "prom_env \<Rightarrow> 'g PrometheusExporter \<Rightarrow> TestRun \<Rightarrow> gomap" where
  "runLabels env p testRun =
     AList.update ''test_namespace'' (stc_Namespace (tr_TestConfig testRun))
       (AList.update ''test_name'' (stc_Name (tr_TestConfig testRun)) (fst (renderLabels env p (tr_TestConfig testRun))))"

definition floatOf :: "nat \<Rightarrow> float64" where
  "floatOf n = (False, Fin (f64_of_uint n) 0)"

definition addDefaultMetrics :: "'g gauge_lib \<Rightarrow> prom_env \<Rightarrow> TestRun \<Rightarrow> 'g PrometheusExporter \<Rightarrow> (err option \<times> 'g PrometheusExporter) option" where
  "addDefaultMetrics lib env testRun p =
     (let labels = runLabels env p testRun in
      case setOrCreateGauge lib MarksGauge ''The marks obtained in the test'' (floatOf (tres_Marks (tr_TestResult testRun))) labels p of
        None \<Rightarrow> None
      | Some p \<Rightarrow>
     (case setOrCreateGauge lib MaxMarksGauge ''The max marks in the test'' (floatOf (tres_MaxMarks (tr_TestResult testRun))) labels p of
        None \<Rightarrow> None
      | Some p \<Rightarrow>
     (case pn_parseTime env (tr_StartTime testRun) of
        Inl e \<Rightarrow> Some (Some e, p)
      | Inr testStartTime \<Rightarrow>
     (case pn_parseTime env (tr_EndTime testRun) of
        Inl e \<Rightarrow> Some (Some e, p)
      | Inr testEndTime \<Rightarrow>
          map_option (Pair None)
            (setOrCreateGauge lib TimeGauge ''The runtime of the test in nano seconds''
              (f64_of_int (testEndTime - testStartTime)) labels p)))))"

fun customLoop :: "'g gauge_lib \<Rightarrow> gomap \<Rightarrow> PrometheusGauge list \<Rightarrow> 'g PrometheusExporter \<Rightarrow> 'g PrometheusExporter option" where
  "customLoop lib labels [] p = Some p"
| "customLoop lib labels (gauge # rest) p =
     (case setOrCreateGauge lib (cleanMetricName (CustomGauge (pg_Name gauge))) (pg_Help gauge) (pg_Value gauge)
             (fold (\<lambda>(k, v). AList.update k v) labels (pg_Labels gauge)) p of
        None \<Rightarrow> None
      | Some p \<Rightarrow> customLoop lib labels rest p)"

definition addCustomMetrics :: "'g gauge_lib \<Rightarrow> prom_env \<Rightarrow> string \<Rightarrow> TestRun \<Rightarrow> 'g PrometheusExporter \<Rightarrow> (err option \<times> 'g PrometheusExporter) option" where
  "addCustomMetrics lib env promMetricsStr res p =
     (case pn_yaml env promMetricsStr of
        Inl e \<Rightarrow> Some (Some e, p)
      | Inr gauges \<Rightarrow> map_option (Pair None) (customLoop lib (runLabels env p res) gauges p))"

definition ExportTestRunMetrics :: "'g gauge_lib \<Rightarrow> prom_env \<Rightarrow> TestRun \<Rightarrow> 'g PrometheusExporter \<Rightarrow> (err option \<times> 'g PrometheusExporter) option" where
  "ExportTestRunMetrics lib env res p =
     (case addDefaultMetrics lib env res p of
        None \<Rightarrow> None
      | Some (Some e, p) \<Rightarrow> Some (Some (ErrWrap ''error adding default metrics'' e), p)
      | Some (None, p) \<Rightarrow>
          (let push = (\<lambda>p. if pc_Push (px_config p) then (errors_Wrap (pn_push env) ''error pushing metrics to push server'', p) else (None, p)) in
           case map_of (tres_Details (tr_TestResult res)) PrometheusKey of
             None \<Rightarrow> Some (push p)
           | Some promResults \<Rightarrow>
               (case addCustomMetrics lib env promResults res p of
                  None \<Rightarrow> None
                | Some (Some e, p) \<Rightarrow> Some (Some (ErrWrap ''error adding custom metrics'' e), p)
                | Some (None, p) \<Rightarrow> Some (push p))))"

definition Cleanup :: "'g gauge_lib \<Rightarrow> 'g PrometheusExporter \<Rightarrow> 'g PrometheusExporter" where
  "Cleanup lib p = p\<lparr>px_gauges := map (\<lambda>(n, g). (n, gl_Reset lib g)) (px_gauges p)\<rparr>"

text \<open>Closing the server panics when there is none.\<close>

definition stopPrometheusClient :: "'g PrometheusExporter \<Rightarrow> unit option" where
  "stopPrometheusClient p = (if px_srv p then Some () else None)"

datatype prom_event = PromRun TestRun | PromConfigChange | PromDone

text \<open>Whether the loop goes on, and the exporter; errors of an export are logged.\<close>

fun PrometheusExporter_Run :: "'g gauge_lib \<Rightarrow> prom_env \<Rightarrow> prom_event list \<Rightarrow> 'g PrometheusExporter \<Rightarrow> (bool \<times> 'g PrometheusExporter) option" where
  "PrometheusExporter_Run lib env [] p = Some (True, p)"
| "PrometheusExporter_Run lib env (PromRun res # es) p =
     (case ExportTestRunMetrics lib env res p of
        None \<Rightarrow> None
      | Some (_, p) \<Rightarrow> PrometheusExporter_Run lib env es p)"
| "PrometheusExporter_Run lib env (PromConfigChange # es) p = PrometheusExporter_Run lib env es (Cleanup lib p)"
| "PrometheusExporter_Run lib env (PromDone # es) p = map_option (\<lambda>_. (False, p)) (stopPrometheusClient p)"

section \<open>Names\<close>



text \<open>Digits are allowed in metric names but are replaced too, so different names become equal.\<close>

lemma clean_name_merges: "cleanMetricName ''http_2xx'' = cleanMetricName ''http_5xx''"
  by (simp add: isAlphaU_def isAlnumU_def)

section \<open>Labels\<close>

definition labelsOk :: "prom_env \<Rightarrow> gomap \<Rightarrow> bool" where
  "labelsOk env ls \<longleftrightarrow> (\<forall>(k, x) \<in> set ls. pn_parse env x = None \<and> validMetricLabel k)"

definition labelDom :: "'g PrometheusExporter \<Rightarrow> string set" where
  "labelDom p = fst ` set (pc_Labels (px_config p)) \<union> {''test_name'', ''test_namespace''}"

lemma renderLoop_ok:
  "labelsOk env ls \<Longrightarrow> snd (renderLoop env info c ls m) = None \<and>
     dom (map_of (fst (renderLoop env info c ls m))) = dom (map_of m) \<union> fst ` set ls"
  by (induction env info c ls m rule: renderLoop.induct) (auto simp: labelsOk_def Let_def)

lemma runLabels_dom:
  "labelsOk env (pc_Labels (px_config p)) \<Longrightarrow> dom (map_of (runLabels env p t)) = labelDom p"
  using renderLoop_ok[of env "pc_Labels (px_config p)" "px_runTimeInfo p" "tr_TestConfig t" "[]"]
  by (auto simp: runLabels_def renderLabels_def labelDom_def)

text \<open>A label that does not match the expression is reported as ignored, but it stays among the labels.\<close>

lemma invalid_label_kept:
  "\<lbrakk>pn_parse env x = None; \<not> validMetricLabel k\<rbrakk> \<Longrightarrow>
    map_of (fst (renderLoop env info c ((k, x) # rest) m)) k = Some (pn_execute env x info c)"
  by simp

section \<open>Gauges\<close>

definition gaugeVal :: "('g \<Rightarrow> (string \<rightharpoonup> string) \<Rightarrow> float64 option) \<Rightarrow> 'g PrometheusExporter \<Rightarrow> string
    \<Rightarrow> (string \<rightharpoonup> string) \<Rightarrow> float64 option" where
  "gaugeVal val p name l = (case map_of (px_gauges p) name of None \<Rightarrow> None | Some g \<Rightarrow> val g l)"

abbreviation defaultGauges :: "string set" where
  "defaultGauges \<equiv> {MarksGauge, MaxMarksGauge, TimeGauge}"

lemma defaultGauges_differ [simp]:
  "MarksGauge \<noteq> MaxMarksGauge" "MarksGauge \<noteq> TimeGauge" "MaxMarksGauge \<noteq> TimeGauge"
  "MaxMarksGauge \<noteq> MarksGauge" "TimeGauge \<noteq> MarksGauge" "TimeGauge \<noteq> MaxMarksGauge"
  by (simp_all add: MarksGauge_def MaxMarksGauge_def TimeGauge_def)

text \<open>The gauges of the default metrics have the labels of the configuration.\<close>

definition gaugesOk :: "('g \<Rightarrow> string set) \<Rightarrow> string set \<Rightarrow> 'g PrometheusExporter \<Rightarrow> bool" where
  "gaugesOk labelNames d p \<longleftrightarrow> (\<forall>n \<in> defaultGauges. \<forall>g. map_of (px_gauges p) n = Some g \<longrightarrow> labelNames g = d)"

text \<open>A gauge that exists with other labels: the lookup fails, and setting the nil gauge panics.\<close>

lemma mismatched_labels_panic:
  assumes "gauge_client lib labelNames val utf8" and "map_of (px_gauges p) name = Some g"
    and "dom (map_of labels) \<noteq> labelNames g"
  shows "setOrCreateGauge lib name help x labels p = None"
  using gauge_client.get_metric[OF assms(1), of g labels] assms(2,3)
  by (cases "gl_GetMetricWith lib g labels") (simp_all add: setOrCreateGauge_def)

context gauge_client begin

lemma set_gauge_exact:
  assumes "gaugesOk labelNames (dom (map_of labels)) p" and "n \<in> defaultGauges" and "Ball (ran (map_of labels)) utf8"
    and "gl_New lib n help (map fst labels) \<noteq> None"
  obtains p' where "setOrCreateGauge lib n help x labels p = Some p'" "px_config p' = px_config p"
    "px_runTimeInfo p' = px_runTimeInfo p" "gaugesOk labelNames (dom (map_of labels)) p'"
    "gaugeVal val p' n = (gaugeVal val p n)(map_of labels \<mapsto> x)" "\<forall>m. m \<noteq> n \<longrightarrow> gaugeVal val p' m = gaugeVal val p m"
proof -
  obtain g where g: "(case map_of (px_gauges p) n of Some g \<Rightarrow> Some g | None \<Rightarrow> gl_New lib n help (map fst labels)) = Some g"
    "labelNames g = dom (map_of labels)" "val g = gaugeVal val p n"
  proof (cases "map_of (px_gauges p) n")
    case None
    with assms(4) obtain g where "gl_New lib n help (map fst labels) = Some g" by blast
    with None new_vec[OF this] that[of g] show thesis by (auto simp: gaugeVal_def fun_eq_iff dom_map_of_conv_image_fst)
  next
    case (Some g)
    with that[of g] assms(1,2) show thesis by (auto simp: gaugesOk_def gaugeVal_def fun_eq_iff)
  qed
  have get: "gl_GetMetricWith lib g labels = None" using get_metric g(2) assms(3) by simp
  show thesis
  proof (rule that)
    show "setOrCreateGauge lib n help x labels p = Some (p\<lparr>px_gauges := AList.update n (gl_Set lib g labels x) (px_gauges p)\<rparr>)"
      using g(1) get by (simp add: setOrCreateGauge_def)
  qed (use assms(1) set_metric[OF get, of x] g in \<open>auto simp: gaugesOk_def gaugeVal_def fun_eq_iff\<close>)
qed

lemma default_metrics_exact:
  assumes "gaugesOk labelNames (labelDom p) p" and "labelsOk env (pc_Labels (px_config p))"
    and "\<And>n help ks. n \<in> defaultGauges \<Longrightarrow> gl_New lib n help ks \<noteq> None"
    and "pn_parseTime env (tr_StartTime t) = Inr t0" "pn_parseTime env (tr_EndTime t) = Inr t1"
    and "Ball (ran (map_of (runLabels env p t))) utf8"
  obtains p' where "addDefaultMetrics lib env t p = Some (None, p')" "px_config p' = px_config p"
    "px_runTimeInfo p' = px_runTimeInfo p" "gaugesOk labelNames (labelDom p') p'"
    "gaugeVal val p' MarksGauge = (gaugeVal val p MarksGauge)(map_of (runLabels env p t) \<mapsto> floatOf (tres_Marks (tr_TestResult t)))"
    "gaugeVal val p' MaxMarksGauge = (gaugeVal val p MaxMarksGauge)(map_of (runLabels env p t) \<mapsto> floatOf (tres_MaxMarks (tr_TestResult t)))"
    "gaugeVal val p' TimeGauge = (gaugeVal val p TimeGauge)(map_of (runLabels env p t) \<mapsto> f64_of_int (t1 - t0))"
    "\<forall>m. m \<notin> defaultGauges \<longrightarrow> gaugeVal val p' m = gaugeVal val p m"
proof -
  let ?l = "runLabels env p t"
  note d = runLabels_dom[OF assms(2), of t]
  have ok: "gaugesOk labelNames (dom (map_of ?l)) p" using assms(1) d by simp
  obtain p1 where 1: "setOrCreateGauge lib MarksGauge ''The marks obtained in the test'' (floatOf (tres_Marks (tr_TestResult t))) ?l p = Some p1"
    "px_config p1 = px_config p" "px_runTimeInfo p1 = px_runTimeInfo p" "gaugesOk labelNames (dom (map_of ?l)) p1"
    "gaugeVal val p1 MarksGauge = (gaugeVal val p MarksGauge)(map_of ?l \<mapsto> floatOf (tres_Marks (tr_TestResult t)))"
    "\<forall>m. m \<noteq> MarksGauge \<longrightarrow> gaugeVal val p1 m = gaugeVal val p m"
    by (rule set_gauge_exact[OF ok, of MarksGauge "''The marks obtained in the test''" "floatOf (tres_Marks (tr_TestResult t))"])
      (use assms(3,6) in auto)
  obtain p2 where 2: "setOrCreateGauge lib MaxMarksGauge ''The max marks in the test'' (floatOf (tres_MaxMarks (tr_TestResult t))) ?l p1 = Some p2"
    "px_config p2 = px_config p1" "px_runTimeInfo p2 = px_runTimeInfo p1" "gaugesOk labelNames (dom (map_of ?l)) p2"
    "gaugeVal val p2 MaxMarksGauge = (gaugeVal val p1 MaxMarksGauge)(map_of ?l \<mapsto> floatOf (tres_MaxMarks (tr_TestResult t)))"
    "\<forall>m. m \<noteq> MaxMarksGauge \<longrightarrow> gaugeVal val p2 m = gaugeVal val p1 m"
    by (rule set_gauge_exact[OF 1(4), of MaxMarksGauge "''The max marks in the test''" "floatOf (tres_MaxMarks (tr_TestResult t))"])
      (use assms(3,6) in auto)
  obtain p3 where 3: "setOrCreateGauge lib TimeGauge ''The runtime of the test in nano seconds'' (f64_of_int (t1 - t0)) ?l p2 = Some p3"
    "px_config p3 = px_config p2" "px_runTimeInfo p3 = px_runTimeInfo p2" "gaugesOk labelNames (dom (map_of ?l)) p3"
    "gaugeVal val p3 TimeGauge = (gaugeVal val p2 TimeGauge)(map_of ?l \<mapsto> f64_of_int (t1 - t0))"
    "\<forall>m. m \<noteq> TimeGauge \<longrightarrow> gaugeVal val p3 m = gaugeVal val p2 m"
    by (rule set_gauge_exact[OF 2(4), of TimeGauge "''The runtime of the test in nano seconds''" "f64_of_int (t1 - t0)"])
      (use assms(3,6) in auto)
  have "labelDom p3 = labelDom p" using 1(2) 2(2) 3(2) by (simp add: labelDom_def)
  moreover have "addDefaultMetrics lib env t p = Some (None, p3)"
    using 1(1) 2(1) 3(1) assms(4,5) by (simp add: addDefaultMetrics_def Let_def)
  ultimately show thesis using that[of p3] 1 2 3 d by simp
qed

lemma Cleanup_gauges:
  "gaugesOk labelNames d p \<Longrightarrow> gaugesOk labelNames d (Cleanup lib p)" "gaugeVal val (Cleanup lib p) n = Map.empty"
  using reset_vec by (auto simp: Cleanup_def gaugesOk_def gaugeVal_def map_of_map fun_eq_iff split: option.splits)

end

text \<open>
  The abstract exporter: for every set of labels, the last run with these labels since the last
  change of the configuration.
\<close>

fun shown :: "(TestRun \<Rightarrow> 'l) \<Rightarrow> prom_event list \<Rightarrow> ('l \<rightharpoonup> TestRun) \<Rightarrow> ('l \<rightharpoonup> TestRun)" where
  "shown lab [] m = m"
| "shown lab (PromRun t # es) m = shown lab es (m(lab t \<mapsto> t))"
| "shown lab (PromConfigChange # es) m = shown lab es Map.empty"
| "shown lab (PromDone # es) m = m"

definition showsRuns :: "('g \<Rightarrow> (string \<rightharpoonup> string) \<Rightarrow> float64 option) \<Rightarrow> prom_env \<Rightarrow> ((string \<rightharpoonup> string) \<rightharpoonup> TestRun)
    \<Rightarrow> 'g PrometheusExporter \<Rightarrow> bool" where
  "showsRuns val env m p \<longleftrightarrow>
     (\<forall>l. gaugeVal val p MarksGauge l = map_option (\<lambda>t. floatOf (tres_Marks (tr_TestResult t))) (m l)) \<and>
     (\<forall>l. gaugeVal val p MaxMarksGauge l = map_option (\<lambda>t. floatOf (tres_MaxMarks (tr_TestResult t))) (m l))"

text \<open>Events the exporter handles without leaving: runs without custom metrics whose times can be read.\<close>

fun plainEvent :: "prom_env \<Rightarrow> prom_event \<Rightarrow> bool" where
  "plainEvent env (PromRun t) \<longleftrightarrow> map_of (tres_Details (tr_TestResult t)) PrometheusKey = None \<and>
     (\<exists>t0. pn_parseTime env (tr_StartTime t) = Inr t0) \<and> (\<exists>t1. pn_parseTime env (tr_EndTime t) = Inr t1)"
| "plainEvent env PromConfigChange \<longleftrightarrow> True"
| "plainEvent env PromDone \<longleftrightarrow> False"

text \<open>The default gauges can be registered.\<close>

definition creatable :: "'g gauge_lib \<Rightarrow> bool" where
  "creatable lib \<longleftrightarrow> (\<forall>n \<in> defaultGauges. \<forall>help ks. gl_New lib n help ks \<noteq> None)"

context gauge_client begin

lemma run_shows:
  assumes "creatable lib"
    and "labelsOk env (pc_Labels (px_config p))" and "gaugesOk labelNames (labelDom p) p" and "showsRuns val env m p"
    and "list_all (plainEvent env) es" and "\<forall>t. PromRun t \<in> set es \<longrightarrow> Ball (ran (map_of (runLabels env p t))) utf8"
  shows "\<exists>p'. PrometheusExporter_Run lib env es p = Some (True, p') \<and>
    showsRuns val env (shown (\<lambda>t. map_of (runLabels env p t)) es m) p'"
  using assms(2-)
proof (induction es arbitrary: p m)
  case (Cons e es)
  show ?case
  proof (cases e)
    case (PromRun t)
    with Cons.prems(4) obtain t0 t1 where t: "pn_parseTime env (tr_StartTime t) = Inr t0" "pn_parseTime env (tr_EndTime t) = Inr t1"
      "map_of (tres_Details (tr_TestResult t)) PrometheusKey = None" by auto
    obtain p' where p': "addDefaultMetrics lib env t p = Some (None, p')" "px_config p' = px_config p"
      "px_runTimeInfo p' = px_runTimeInfo p" "gaugesOk labelNames (labelDom p') p'"
      "gaugeVal val p' MarksGauge = (gaugeVal val p MarksGauge)(map_of (runLabels env p t) \<mapsto> floatOf (tres_Marks (tr_TestResult t)))"
      "gaugeVal val p' MaxMarksGauge = (gaugeVal val p MaxMarksGauge)(map_of (runLabels env p t) \<mapsto> floatOf (tres_MaxMarks (tr_TestResult t)))"
      by (rule default_metrics_exact[OF Cons.prems(2,1) _ t(1,2)])
        (use assms(1) Cons.prems(5) PromRun in \<open>auto simp: creatable_def\<close>)
    have same: "runLabels env p' = runLabels env p" using p'(2,3) by (simp add: fun_eq_iff runLabels_def renderLabels_def)
    have "showsRuns val env (m(map_of (runLabels env p t) \<mapsto> t)) p'"
      using Cons.prems(3) p'(5,6) by (simp add: showsRuns_def)
    from Cons.IH[OF _ p'(4) this] Cons.prems(1,4,5) p'(2) same
    have "\<exists>q. PrometheusExporter_Run lib env es p' = Some (True, q) \<and>
      showsRuns val env (shown (\<lambda>t. map_of (runLabels env p t)) es (m(map_of (runLabels env p t) \<mapsto> t))) q" by (simp add: fun_upd_def)
    moreover obtain x where "ExportTestRunMetrics lib env t p = Some (x, p')"
      using p'(1) t(3) by (cases "pc_Push (px_config p')") (auto simp: ExportTestRunMetrics_def Let_def)
    ultimately show ?thesis using PromRun by simp
  next
    case PromConfigChange
    let ?p = "Cleanup lib p"
    have c: "px_config ?p = px_config p" "px_runTimeInfo ?p = px_runTimeInfo p" by (simp_all add: Cleanup_def)
    then have same: "runLabels env ?p = runLabels env p" "labelDom ?p = labelDom p"
      by (simp_all add: fun_eq_iff runLabels_def renderLabels_def labelDom_def)
    have "showsRuns val env Map.empty ?p" by (simp add: showsRuns_def Cleanup_gauges)
    from Cons.IH[OF _ _ this] Cons.prems(1,2,4,5) c same Cleanup_gauges(1) PromConfigChange show ?thesis by simp
  next
    case PromDone
    with Cons.prems(4) show ?thesis by simp
  qed
qed simp

end


text \<open>A Prometheus client that keeps the label names and the values of a vector.\<close>

type_synonym vec = "string set \<times> ((string \<rightharpoonup> string) \<rightharpoonup> float64)"

definition vecLib :: "vec gauge_lib" where
  "vecLib = \<lparr>gl_New = (\<lambda>_ _ ks. Some (set ks, Map.empty)),
     gl_GetMetricWith = (\<lambda>g l. if dom (map_of l) = fst g then None else Some (ErrNew ''inconsistent label cardinality'')),
     gl_Set = (\<lambda>g l x. (fst g, (snd g)(map_of l \<mapsto> x))), gl_Reset = (\<lambda>g. (fst g, Map.empty))\<rparr>"

interpretation vecs: gauge_client vecLib fst snd "\<lambda>_. True"
  by unfold_locales (auto simp: vecLib_def split: if_splits)

definition examplePromEnv :: prom_env where
  "examplePromEnv = \<lparr>pn_parse = (\<lambda>_. None), pn_execute = (\<lambda>x _ _. x), pn_parseTime = (\<lambda>_. Inr 0), pn_yaml = (\<lambda>_. Inr []), pn_push = None\<rparr>"

definition promRun :: TestRun where
  "promRun = TestRun ''run-1'' ''pod-1/heart'' ''t0'' ''t1'' zeroSynTestConfig
     (Trigger TriggerTypeTimer None []) \<lparr>tres_Marks = 1, tres_MaxMarks = 2, tres_Details = []\<rparr> []"


text \<open>An exporter that pushes has no server, and panics when it is told to stop.\<close>

lemma push_mode_panics_on_exit:
  "pc_Push (ac_PrometheusConfig c) \<Longrightarrow> PrometheusExporter_Run lib env [PromDone] (NewPrometheusExporter c) = None"
  by (simp add: NewPrometheusExporter_def stopPrometheusClient_def)

end
