(* ===== verification/CommandPlugins.thy ===== *)
theory CommandPlugins
  imports Metrics TestRoutine
begin

text \<open>
  The test plugins that run an external command or library: curl and ping
  (agent/plugins/syntests/curl and ping), with the helper that runs a command under a context
  (agent/utils/run.go). The operating system, YAML, \<open>time.ParseDuration\<close>,
  \<open>strconv.ParseFloat\<close> and the ICMP library are arguments. An index out of range is the
  outcome None.
\<close>

section \<open>Running a command\<close>

text \<open>How a process ends: without an error, with an exit status, or by a failed wait.\<close>

datatype wait_result = WaitNil | WaitExit err | WaitFails err

text \<open>
  What the operating system does: the error of starting, the end of the process if it comes before
  the end of the context, its output, the errors of the two signals other than a process that is
  already gone, and whether it ends in time after the first one.
\<close>

record cmd_env =
  ce_start :: "err option"
  ce_ends :: "wait_result option"
  ce_stdout :: string
  ce_stderr :: string
  ce_ctxErr :: err
  ce_term :: "err option"
  ce_endsAfterTerm :: bool
  ce_kill :: "err option"

fun waitResult :: "string \<Rightarrow> wait_result \<Rightarrow> err option" where
  "waitResult stderr WaitNil = None"
| "waitResult stderr (WaitExit e) = Some (ErrSuffix e stderr)"
| "waitResult stderr (WaitFails e) = Some e"

definition RunWithContext :: "cmd_env \<Rightarrow> string \<times> err option" where
  "RunWithContext env =
     (case ce_start env of
        Some e \<Rightarrow> ([], Some e)
      | None \<Rightarrow>
          (case ce_ends env of
             Some w \<Rightarrow> (ce_stdout env, waitResult (ce_stderr env) w)
           | None \<Rightarrow>
               (case ce_term env of
                  Some e \<Rightarrow> (ce_stdout env, Some (ErrSuffix (ce_ctxErr env) (''sending SIGTERM to process group: '' @ err_Error e)))
                | None \<Rightarrow>
                    if ce_endsAfterTerm env then (ce_stdout env, Some (ce_ctxErr env))
                    else (case ce_kill env of
                            Some e \<Rightarrow> (ce_stdout env, Some (ErrSuffix (ce_ctxErr env) (''sending SIGKILL to process group: '' @ err_Error e)))
                          | None \<Rightarrow> (ce_stdout env, Some (ce_ctxErr env))))))"

section \<open>curl\<close>

record OutputOption =
  oo_Name :: string
  oo_PrometheusMetric :: bool
  oo_PrometheusLabel :: bool

record CurlTestConfig =
  cu_Url :: string
  cu_OutputOptions :: "OutputOption list"

record CurlTest =
  ct_config :: CurlTestConfig
  ct_curlTimeout :: duration

definition CurlTest_Initialise ::
  "(string \<Rightarrow> CurlTestConfig \<times> err option) \<Rightarrow> (string \<Rightarrow> err + duration) \<Rightarrow> SynTestConfig \<Rightarrow> CurlTest \<times> err option" where
  "CurlTest_Initialise parseYML parseDuration synTestConfig =
     (case parseYML (stc_Config synTestConfig) of
        (c, Some e) \<Rightarrow> (\<lparr>ct_config = c, ct_curlTimeout = 0\<rparr>, Some e)
      | (c, None) \<Rightarrow>
          (\<lparr>ct_config = c, ct_curlTimeout = parseOr parseDuration (to_Run (stc_Timeouts synTestConfig)) DefaultRunTimeout\<rparr>, None))"

definition outputOptionsStr :: "CurlTestConfig \<Rightarrow> string" where
  "outputOptionsStr c = [CHR 0x27] @ concat (map (\<lambda>opt. ''%{'' @ oo_Name opt @ ''} '') (cu_OutputOptions c)) @ [CHR 0x27]"

definition curlArgs :: "CurlTestConfig \<Rightarrow> string list" where
  "curlArgs c = [''curl'', ''-v'', ''--output'', ''/dev/null'', ''--silent'', ''--write-out'', outputOptionsStr c, cu_Url c]"

text \<open>\<open>s[1 : len(s)-1]\<close>\<close>

definition trimEnds :: "string \<Rightarrow> string option" where
  "trimEnds s = (if length s < 2 then None else Some (butlast (tl s)))"

fun metricGauges :: "(string \<Rightarrow> err + float64) \<Rightarrow> gomap \<Rightarrow> OutputOption list \<Rightarrow> PrometheusMetrics \<Rightarrow> err + PrometheusMetrics" where
  "metricGauges parseFloat outputVals [] gauges = Inr gauges"
| "metricGauges parseFloat outputVals (opt # os) gauges =
     (if \<not> oo_PrometheusMetric opt then metricGauges parseFloat outputVals os gauges
      else case parseFloat (gidx outputVals (oo_Name opt)) of
        Inl e \<Rightarrow> Inl (ErrWrap ''error converting metric to float'' e)
      | Inr v \<Rightarrow> metricGauges parseFloat outputVals os
          (gauges @ [\<lparr>pg_Name = ''curl_'' @ oo_Name opt, pg_Help = ''Curl metric for '' @ oo_Name opt, pg_Value = v, pg_Labels = []\<rparr>]))"

definition labelGauges :: "CurlTestConfig \<Rightarrow> gomap \<Rightarrow> PrometheusMetrics \<Rightarrow> PrometheusMetrics" where
  "labelGauges c outputVals gauges =
     fold (\<lambda>opt gs. map (\<lambda>g. g\<lparr>pg_Labels := AList.update ''url'' (cu_Url c)
                               (AList.update (oo_Name opt) (gidx outputVals (oo_Name opt)) (pg_Labels g))\<rparr>) gs)
       (filter oo_PrometheusLabel (cu_OutputOptions c)) gauges"

definition addPrometheusMetrics ::
  "(PrometheusMetrics \<Rightarrow> err + string) \<Rightarrow> (string \<Rightarrow> err + float64) \<Rightarrow> CurlTestConfig \<Rightarrow> gomap \<Rightarrow> TestResult \<Rightarrow> TestResult \<times> err option" where
  "addPrometheusMetrics marshal parseFloat c outputVals testResult =
     (case metricGauges parseFloat outputVals (cu_OutputOptions c) [] of
        Inl e \<Rightarrow> (testResult, Some e)
      | Inr gauges \<Rightarrow>
          ((snd (AddPrometheusMetricsToResults marshal (labelGauges c outputVals gauges) testResult))
             \<lparr>tres_Marks := 1, tres_MaxMarks := 1\<rparr>, None))"

definition CurlTest_PerformTest ::
  "(PrometheusMetrics \<Rightarrow> err + string) \<Rightarrow> (string \<Rightarrow> err + float64) \<Rightarrow> (string list \<Rightarrow> duration \<Rightarrow> cmd_env) \<Rightarrow> CurlTest
    \<Rightarrow> (TestResult \<times> err option) option" where
  "CurlTest_PerformTest marshal parseFloat os t =
     (let testResult = \<lparr>tres_Marks = 0, tres_MaxMarks = 1, tres_Details = []\<rparr>;
          options = cu_OutputOptions (ct_config t) in
      case RunWithContext (os (curlArgs (ct_config t)) (ct_curlTimeout t)) of
        (_, Some e) \<Rightarrow> Some (\<lparr>tres_Marks = 0, tres_MaxMarks = 0, tres_Details = []\<rparr>, Some (ErrWrap ''error executing curl'' e))
      | (output, None) \<Rightarrow>
          (case trimEnds (last (strings_Split CHR 0x0A output)) of
             None \<Rightarrow> None
           | Some relevantLine \<Rightarrow>
               (let values = strings_Split CHR '' '' relevantLine in
                if length values < length options
                then Some (testResult, Some (ErrNew ''the number of output returned by curl do not match the query''))
                else Some (addPrometheusMetrics marshal parseFloat (ct_config t)
                  (fold (\<lambda>(opt, v). AList.update (oo_Name opt) v) (zip options values) []) testResult))))"

section \<open>ping\<close>

record PingTestConfig =
  pt_Domain :: string
  pt_Pings :: int
  pt_Interval :: string
  pt_Privileged :: bool

record PingTest =
  pt_config :: PingTestConfig
  pt_timeout :: duration
  pt_interval :: duration

definition PingTest_Initialise ::
  "(string \<Rightarrow> PingTestConfig \<times> err option) \<Rightarrow> (string \<Rightarrow> err + duration) \<Rightarrow> SynTestConfig \<Rightarrow> PingTest \<times> err option" where
  "PingTest_Initialise parseYML parseDuration synTestConfig =
     (let (c, err) = parseYML (stc_Config synTestConfig); t = \<lparr>pt_config = c, pt_timeout = 0, pt_interval = 0\<rparr> in
      if err \<noteq> None then (t, errors_Wrap err ''error parsing config'')
      else if pt_Pings c \<le> 0 then (t, errors_Wrap err ''error in config, pings must be > 0'')
      else case parseDuration (pt_Interval c) of
        Inl e \<Rightarrow> (t, Some (ErrWrap ''error parsing interval'' e))
      | Inr interval \<Rightarrow>
          (case parseDuration (to_Run (stc_Timeouts synTestConfig)) of
             Inl e \<Rightarrow> (t\<lparr>pt_interval := interval\<rparr>,
                Some (ErrWrap ''error parsing timeout in the test config, how did this get through agent?'' e))
           | Inr timeout \<Rightarrow> (t\<lparr>pt_interval := interval, pt_timeout := timeout\<rparr>, None)))"

text \<open>
  The pinger: given the domain, the privilege, the time limit, the number and the interval it fails
  to be created, or runs and calls \<open>OnFinish\<close> with the number of packets received, if at all.
\<close>

definition PingTest_PerformTest ::
  "(string \<Rightarrow> bool \<Rightarrow> duration \<Rightarrow> int \<Rightarrow> duration \<Rightarrow> err + int option) \<Rightarrow> PingTest \<Rightarrow> TestResult \<times> err option" where
  "PingTest_PerformTest pinger t =
     (let c = pt_config t;
          testResult = \<lparr>tres_Marks = 0, tres_MaxMarks = nat (pt_Pings c mod 2 ^ 64), tres_Details = []\<rparr> in
      case pinger (pt_Domain c) (pt_Privileged c) (pt_timeout t - second) (pt_Pings c) (pt_interval t) of
        Inl e \<Rightarrow> (testResult, Some (ErrWrap ''error creating the pinger'' e))
      | Inr None \<Rightarrow> (testResult, None)
      | Inr (Some packetsRecv) \<Rightarrow> (testResult\<lparr>tres_Marks := nat (packetsRecv mod 2 ^ 64)\<rparr>, None))"

section \<open>Time limits\<close>

text \<open>
  C37. A command that outlives its context is reported as such: whatever happens to the signals, the
  error is or wraps the error of the context, and the curl test then fails without marks and with an
  error that wraps it too.
\<close>

theorem command_deadline_reported:
  assumes "os (curlArgs (ct_config t)) (ct_curlTimeout t) = env" and "ce_start env = None" and "ce_ends env = None"
  shows "\<exists>e r e'. snd (RunWithContext env) = Some e \<and> errors_Is e (ce_ctxErr env) \<and>
    CurlTest_PerformTest marshal parseFloat os t = Some (r, Some e') \<and> tres_Marks r = 0 \<and> errors_Is e' (ce_ctxErr env)"
proof -
  obtain e where e: "RunWithContext env = (ce_stdout env, Some e)" "errors_Is e (ce_ctxErr env)"
    using assms(2,3) by (cases "ce_term env"; cases "ce_kill env"; cases "ce_endsAfterTerm env") (auto simp: RunWithContext_def)
  with assms(1) show ?thesis by (auto simp: CurlTest_PerformTest_def Let_def)
qed

definition exampleCmd :: cmd_env where
  "exampleCmd = \<lparr>ce_start = None, ce_ends = None, ce_stdout = [], ce_stderr = [], ce_ctxErr = CtxDeadlineExceeded,
     ce_term = None, ce_endsAfterTerm = False, ce_kill = None\<rparr>"

definition exampleCurl :: CurlTest where
  "exampleCurl = \<lparr>ct_config = \<lparr>cu_Url = ''http://a'', cu_OutputOptions =
     [\<lparr>oo_Name = ''http_code'', oo_PrometheusMetric = False, oo_PrometheusLabel = True\<rparr>,
      \<lparr>oo_Name = ''time_total'', oo_PrometheusMetric = True, oo_PrometheusLabel = False\<rparr>]\<rparr>, ct_curlTimeout = second\<rparr>"

theorem command_deadline_reported_witness:
  "\<exists>r e. CurlTest_PerformTest (\<lambda>_. Inr []) (\<lambda>_. Inr (False, NaN)) (\<lambda>_ _. exampleCmd) exampleCurl = Some (r, Some e) \<and>
     errors_Is e CtxDeadlineExceeded"
  using command_deadline_reported[of "\<lambda>_ _. exampleCmd" exampleCurl exampleCmd "\<lambda>_. Inr []" "\<lambda>_. Inr (False, NaN)"]
  by (auto simp: exampleCmd_def)

section \<open>The output of curl\<close>

text \<open>What curl writes for the values of the options: in quotes, each followed by a space.\<close>

definition written :: "string list \<Rightarrow> string" where
  "written vs = CHR 0x27 # concat (map (\<lambda>v. v @ '' '') vs) @ [CHR 0x27]"

definition plainValue :: "string \<Rightarrow> bool" where
  "plainValue v \<longleftrightarrow> CHR '' '' \<notin> set v \<and> CHR 0x0A \<notin> set v"

lemma split_written:
  "list_all plainValue vs \<Longrightarrow> strings_Split CHR '' '' (concat (map (\<lambda>v. v @ '' '') vs)) = vs @ [[]]"
  by (induction vs) (auto simp: plainValue_def strings_Split_append)

lemma written_line:
  assumes "list_all plainValue vs"
  shows "trimEnds (last (strings_Split CHR 0x0A (written vs))) = Some (concat (map (\<lambda>v. v @ '' '') vs))"
proof -
  have "CHR 0x0A \<notin> set (written vs)" using assms by (auto simp: written_def plainValue_def list_all_iff)
  then have "strings_Split CHR 0x0A (written vs) = [written vs]" by (rule strings_Split_plain)
  then show ?thesis by (simp add: trimEnds_def written_def butlast_append)
qed

definition outputMap :: "OutputOption list \<Rightarrow> string list \<Rightarrow> gomap" where
  "outputMap options values = fold (\<lambda>(opt, v). AList.update (oo_Name opt) v) (zip options values) []"

lemma fold_update_other:
  "k \<notin> (\<lambda>p. oo_Name (fst p)) ` set ps \<Longrightarrow> map_of (fold (\<lambda>(opt, v). AList.update (oo_Name opt) v) ps m) k = map_of m k"
  by (induction ps arbitrary: m) auto

lemma outputMap_val:
  assumes "distinct (map oo_Name options)" and "(opt, x) \<in> set (zip options values)"
  shows "gidx (outputMap options values) (oo_Name opt) = x"
proof -
  have "map_of (fold (\<lambda>(opt, v). AList.update (oo_Name opt) v) ps m) (oo_Name opt) = Some x"
    if "distinct (map (\<lambda>p. oo_Name (fst p)) ps)" "(opt, x) \<in> set ps" for ps m
    using that by (induction ps arbitrary: m) (auto simp: fold_update_other)
  moreover have "distinct (map (\<lambda>p. oo_Name (fst p)) (zip options values))"
    using assms(1) by (metis (no_types, lifting) distinct_take list.map_comp map_fst_zip_take comp_apply map_cong take_map)
  ultimately show ?thesis using assms(2) by (simp add: outputMap_def gidx_def)
qed

lemma metricGauges_exact:
  assumes "\<And>opt. opt \<in> set os \<Longrightarrow> oo_PrometheusMetric opt \<Longrightarrow> parseFloat (gidx m (oo_Name opt)) = Inr (val opt)"
  shows "metricGauges parseFloat m os gs = Inr (gs @ map (\<lambda>opt. \<lparr>pg_Name = ''curl_'' @ oo_Name opt,
      pg_Help = ''Curl metric for '' @ oo_Name opt, pg_Value = val opt, pg_Labels = []\<rparr>) (filter oo_PrometheusMetric os))"
  using assms by (induction os arbitrary: gs) auto

lemma labelGauges_exact:
  "map (\<lambda>g. (pg_Name g, pg_Value g)) (labelGauges c m gs) = map (\<lambda>g. (pg_Name g, pg_Value g)) gs"
  "\<lbrakk>g \<in> set (labelGauges c m gs); opt \<in> set (cu_OutputOptions c); oo_PrometheusLabel opt; oo_Name opt \<noteq> ''url''\<rbrakk>
    \<Longrightarrow> map_of (pg_Labels g) (oo_Name opt) = Some (gidx m (oo_Name opt))"
proof -
  let ?f = "\<lambda>opt gs. map (\<lambda>g. g\<lparr>pg_Labels := AList.update ''url'' (cu_Url c)
    (AList.update (oo_Name opt) (gidx m (oo_Name opt)) (pg_Labels g))\<rparr>) gs"
  have "map (\<lambda>g. (pg_Name g, pg_Value g)) (fold ?f ls gs) = map (\<lambda>g. (pg_Name g, pg_Value g)) gs" for ls
    by (induction ls arbitrary: gs) (auto simp: comp_def)
  then show "map (\<lambda>g. (pg_Name g, pg_Value g)) (labelGauges c m gs) = map (\<lambda>g. (pg_Name g, pg_Value g)) gs"
    by (simp add: labelGauges_def)
  have lab: "map_of (pg_Labels g) k = Some (gidx m k)" if "g \<in> set (fold ?f ls gs)" "k \<in> oo_Name ` set ls" "k \<noteq> ''url''" for ls k g
    using that
  proof (induction ls arbitrary: g rule: rev_induct)
    case (snoc l ls)
    then obtain h where h: "h \<in> set (fold ?f ls gs)" "g = h\<lparr>pg_Labels := AList.update ''url'' (cu_Url c)
        (AList.update (oo_Name l) (gidx m (oo_Name l)) (pg_Labels h))\<rparr>" by auto
    with snoc.IH[OF h(1)] snoc.prems(2,3) show ?case by auto
  qed simp
  show "\<lbrakk>g \<in> set (labelGauges c m gs); opt \<in> set (cu_OutputOptions c); oo_PrometheusLabel opt; oo_Name opt \<noteq> ''url''\<rbrakk>
    \<Longrightarrow> map_of (pg_Labels g) (oo_Name opt) = Some (gidx m (oo_Name opt))"
    by (rule lab[of g "filter oo_PrometheusLabel (cu_OutputOptions c)"]) (auto simp: labelGauges_def)
qed

text \<open>
  C36. The output of curl is read back: when curl succeeds and writes the values of the options, none
  of which has a space or a line break, and the values of the metric options are numbers, the test
  passes with full marks, and it attaches one gauge for each metric option, in order and with the
  value written for that option; every gauge carries the values of the label options as labels.
\<close>

theorem curl_output_read:
  assumes "RunWithContext (os (curlArgs c) timeout) = (written vs, None)"
    and "length vs = length (cu_OutputOptions c)" and "list_all plainValue vs" and "distinct (map oo_Name (cu_OutputOptions c))"
    and "\<And>opt x. (opt, x) \<in> set (zip (cu_OutputOptions c) vs) \<Longrightarrow> oo_PrometheusMetric opt \<Longrightarrow> parseFloat x = Inr (val opt)"
    and "\<And>gs. marshal gs = Inr (yaml gs)"
  shows "\<exists>r gauges. CurlTest_PerformTest marshal parseFloat os \<lparr>ct_config = c, ct_curlTimeout = timeout\<rparr> = Some (r, None) \<and>
    tres_Marks r = 1 \<and> tres_MaxMarks r = 1 \<and> map_of (tres_Details r) PrometheusKey = Some (yaml gauges) \<and>
    map (\<lambda>g. (pg_Name g, pg_Value g)) gauges =
      map (\<lambda>opt. (''curl_'' @ oo_Name opt, val opt)) (filter oo_PrometheusMetric (cu_OutputOptions c)) \<and>
    (\<forall>g \<in> set gauges. \<forall>(opt, x) \<in> set (zip (cu_OutputOptions c) vs).
       oo_PrometheusLabel opt \<and> oo_Name opt \<noteq> ''url'' \<longrightarrow> map_of (pg_Labels g) (oo_Name opt) = Some x)"
proof -
  let ?os = "cu_OutputOptions c" and ?cells = "vs @ [[]]"
  have zip: "zip ?os ?cells = zip ?os vs" using assms(2) by (simp add: zip_append2)
  define m where "m = outputMap ?os vs"
  have mval: "gidx m (oo_Name opt) = x" if "(opt, x) \<in> set (zip ?os vs)" for opt x
    unfolding m_def by (rule outputMap_val[OF assms(4) that])
  have "\<exists>x. (opt, x) \<in> set (zip ?os vs)" if "opt \<in> set ?os" for opt
    using that assms(2) by (metis fst_conv in_set_impl_in_set_zip1)
  then have "parseFloat (gidx m (oo_Name opt)) = Inr (val opt)" if "opt \<in> set ?os" "oo_PrometheusMetric opt" for opt
    using that assms(5) mval by metis
  note gauges = metricGauges_exact[of ?os parseFloat m val "[]", OF this]
  define gs where "gs = labelGauges c m (map (\<lambda>opt. \<lparr>pg_Name = ''curl_'' @ oo_Name opt,
      pg_Help = ''Curl metric for '' @ oo_Name opt, pg_Value = val opt, pg_Labels = []\<rparr>) (filter oo_PrometheusMetric ?os))"
  define r where "r = (snd (AddPrometheusMetricsToResults marshal gs \<lparr>tres_Marks = 0, tres_MaxMarks = 1, tres_Details = []\<rparr>))
    \<lparr>tres_Marks := 1, tres_MaxMarks := 1\<rparr>"
  have "CurlTest_PerformTest marshal parseFloat os \<lparr>ct_config = c, ct_curlTimeout = timeout\<rparr> = Some (r, None)"
    using assms(1,2) written_line[OF assms(3)] split_written[OF assms(3)] zip gauges
    by (simp add: CurlTest_PerformTest_def Let_def addPrometheusMetrics_def r_def gs_def m_def outputMap_def)
  moreover have "map_of (tres_Details r) PrometheusKey = Some (yaml gs)" "tres_Marks r = 1" "tres_MaxMarks r = 1"
    using assms(6) by (simp_all add: r_def AddPrometheusMetricsToResults_def)
  moreover have "map (\<lambda>g. (pg_Name g, pg_Value g)) gs = map (\<lambda>opt. (''curl_'' @ oo_Name opt, val opt)) (filter oo_PrometheusMetric ?os)"
    by (simp add: gs_def labelGauges_exact(1))
  moreover have "map_of (pg_Labels g) (oo_Name opt) = Some x"
    if "g \<in> set gs" "(opt, x) \<in> set (zip ?os vs)" "oo_PrometheusLabel opt" "oo_Name opt \<noteq> ''url''" for g opt x
    using labelGauges_exact(2)[OF that(1)[unfolded gs_def] set_zip_leftD[OF that(2)] that(3,4)] mval[OF that(2)] by simp
  ultimately show ?thesis by (intro exI[of _ r] exI[of _ gs] conjI) (auto split: prod.splits)
qed

theorem curl_output_read_witness:
  "\<exists>r. CurlTest_PerformTest (\<lambda>_. Inr ''yaml'') (\<lambda>_. Inr (False, Fin 1 1))
     (\<lambda>_ _. exampleCmd\<lparr>ce_ends := Some WaitNil, ce_stdout := written [''200'', ''0.5'']\<rparr>) exampleCurl = Some (r, None) \<and> tres_Marks r = 1"
proof -
  let ?os = "\<lambda>_ _. exampleCmd\<lparr>ce_ends := Some WaitNil, ce_stdout := written [''200'', ''0.5'']\<rparr>"
  let ?c = "ct_config exampleCurl"
  have "RunWithContext (?os (curlArgs ?c) second) = (written [''200'', ''0.5''], None)"
    by (simp add: RunWithContext_def exampleCmd_def)
  moreover have "length [''200'', ''0.5''] = length (cu_OutputOptions ?c)" "list_all plainValue [''200'', ''0.5'']"
    "distinct (map oo_Name (cu_OutputOptions ?c))"
    by (simp_all add: exampleCurl_def plainValue_def)
  ultimately show ?thesis
    using curl_output_read[of ?os ?c second "[''200'', ''0.5'']" "\<lambda>_. Inr (False, Fin 1 1)" "\<lambda>_. (False, Fin 1 1)"
        "\<lambda>_. Inr ''yaml''" "\<lambda>_. ''yaml''"]
    by (auto simp: exampleCurl_def)
qed

section \<open>ping\<close>

text \<open>
  A configuration without pings is accepted: the error that is wrapped is nil at that point, so
  nothing is returned, and the interval and the time limit stay zero.
\<close>

lemma ping_accepts_no_pings:
  "\<lbrakk>parseYML (stc_Config sc) = (c, None); pt_Pings c \<le> 0\<rbrakk> \<Longrightarrow>
    PingTest_Initialise parseYML parseDuration sc = (\<lparr>pt_config = c, pt_timeout = 0, pt_interval = 0\<rparr>, None)"
  by (simp add: PingTest_Initialise_def)

text \<open>An interval that is left out is not a duration and fails the initialisation.\<close>

lemma ping_needs_interval:
  "\<lbrakk>parseYML (stc_Config sc) = (c, None); 0 < pt_Pings c; pt_Interval c = []; parseDuration [] = Inl e\<rbrakk> \<Longrightarrow>
    snd (PingTest_Initialise parseYML parseDuration sc) = Some (ErrWrap ''error parsing interval'' e)"
  by (simp add: PingTest_Initialise_def)

end
