(* ===== verification/WorkerPool.thy ===== *)
theory WorkerPool
  imports Prelude "HOL-Library.Multiset"
begin

text \<open>
  The worker pool of common/utils/workerPool.go. Channels are queues with a capacity; a worker is a
  goroutine that waits for a job, works on it, or waits to send its result. Which worker moves next
  is not determined, so an execution is a sequence of steps of a relation. What the work function
  returns for a job is not determined either (it asks the network): it is a relation between a job
  and the log, value and error it may produce. The pools of the program have a buffer of at
  least one; a channel without a buffer is not modelled.
\<close>

section \<open>The pool\<close>

record ('j, 'v) JobResult =
  jr_Logs :: string
  jr_Error :: "err option"
  jr_Job :: 'j
  jr_ReturnValues :: 'v

datatype ('j, 'v) worker = Waiting | Working 'j | Sending "('j, 'v) JobResult" | Exited

record ('j, 'v) WorkerPool =
  wp_workers :: nat
  wp_buffer :: nat
  wp_jobChan :: "'j list"
  wp_ResultChan :: "('j, 'v) JobResult list"
  wp_closed :: bool
  wp_routines :: "('j, 'v) worker list"

definition NewWorkerPool :: "nat \<Rightarrow> nat \<Rightarrow> ('j, 'v) WorkerPool" where
  "NewWorkerPool workers jobBuffer =
     \<lparr>wp_workers = workers, wp_buffer = jobBuffer, wp_jobChan = [], wp_ResultChan = [], wp_closed = False,
      wp_routines = []\<rparr>"

definition Start :: "('j, 'v) WorkerPool \<Rightarrow> ('j, 'v) WorkerPool" where
  "Start wp = wp\<lparr>wp_routines := wp_routines wp @ replicate (wp_workers wp) Waiting\<rparr>"

text \<open>None: the send blocks.\<close>

definition AddJob :: "'j \<Rightarrow> ('j, 'v) WorkerPool \<Rightarrow> ('j, 'v) WorkerPool option" where
  "AddJob job wp =
     (if length (wp_jobChan wp) < wp_buffer wp then Some (wp\<lparr>wp_jobChan := wp_jobChan wp @ [job]\<rparr>) else None)"

definition Stop :: "('j, 'v) WorkerPool \<Rightarrow> ('j, 'v) WorkerPool" where
  "Stop wp = wp\<lparr>wp_closed := True\<rparr>"

section \<open>A worker\<close>

definition setRoutine :: "nat \<Rightarrow> ('j, 'v) worker \<Rightarrow> ('j, 'v) WorkerPool \<Rightarrow> ('j, 'v) WorkerPool" where
  "setRoutine i w wp = wp\<lparr>wp_routines := (wp_routines wp)[i := w]\<rparr>"

text \<open>
  \<open>workerStep work done wp i wp'\<close>: worker \<open>i\<close> makes a step of its loop. A receive from the
  closed, empty channel gives nil and ends the worker, as does the end of the context.
\<close>

inductive workerStep :: "('j \<Rightarrow> string \<times> 'v \<times> err option \<Rightarrow> bool) \<Rightarrow> bool \<Rightarrow> ('j, 'v) WorkerPool \<Rightarrow> nat
    \<Rightarrow> ('j, 'v) WorkerPool \<Rightarrow> bool" for work ctxDone wp i where
  take: "\<lbrakk>i < length (wp_routines wp); wp_routines wp ! i = Waiting; wp_jobChan wp = job # jobs\<rbrakk> \<Longrightarrow>
     workerStep work ctxDone wp i (setRoutine i (Working job) (wp\<lparr>wp_jobChan := jobs\<rparr>))"
| work: "\<lbrakk>i < length (wp_routines wp); wp_routines wp ! i = Working job; work job (logs, val, e)\<rbrakk> \<Longrightarrow>
     workerStep work ctxDone wp i
       (setRoutine i (Sending \<lparr>jr_Logs = logs, jr_Error = e, jr_Job = job, jr_ReturnValues = val\<rparr>) wp)"
| send: "\<lbrakk>i < length (wp_routines wp); wp_routines wp ! i = Sending r; length (wp_ResultChan wp) < wp_buffer wp\<rbrakk> \<Longrightarrow>
     workerStep work ctxDone wp i (setRoutine i Waiting (wp\<lparr>wp_ResultChan := wp_ResultChan wp @ [r]\<rparr>))"
| closed: "\<lbrakk>i < length (wp_routines wp); wp_routines wp ! i = Waiting; wp_closed wp; wp_jobChan wp = []\<rbrakk> \<Longrightarrow>
     workerStep work ctxDone wp i (setRoutine i Exited wp)"
| cancelled: "\<lbrakk>i < length (wp_routines wp); wp_routines wp ! i = Waiting; ctxDone\<rbrakk> \<Longrightarrow>
     workerStep work ctxDone wp i (setRoutine i Exited wp)"

section \<open>A client that adds jobs and collects their results\<close>

text \<open>
  The plugins all use a pool the same way: with a buffer for all jobs, they start the workers, add
  every job, and then receive as many results as there are jobs. \<open>cl_todo\<close> are the jobs still to
  be added and \<open>cl_got\<close> the results received; the context is the background context.
\<close>

record ('j, 'v) client =
  cl_todo :: "'j list"
  cl_need :: nat
  cl_got :: "('j, 'v) JobResult list"
  cl_pool :: "('j, 'v) WorkerPool"

definition startClient :: "nat \<Rightarrow> 'j list \<Rightarrow> ('j, 'v) client" where
  "startClient workers jobs =
     \<lparr>cl_todo = jobs, cl_need = length jobs, cl_got = [], cl_pool = Start (NewWorkerPool workers (length jobs))\<rparr>"

inductive clientStep :: "('j \<Rightarrow> string \<times> 'v \<times> err option \<Rightarrow> bool) \<Rightarrow> ('j, 'v) client \<Rightarrow> ('j, 'v) client \<Rightarrow> bool"
  for workf c where
  add: "\<lbrakk>cl_todo c = job # jobs; AddJob job (cl_pool c) = Some wp\<rbrakk> \<Longrightarrow>
     clientStep workf c (c\<lparr>cl_todo := jobs, cl_pool := wp\<rparr>)"
| receive: "\<lbrakk>cl_todo c = []; length (cl_got c) < cl_need c; wp_ResultChan (cl_pool c) = r # rs\<rbrakk> \<Longrightarrow>
     clientStep workf c (c\<lparr>cl_got := cl_got c @ [r], cl_pool := (cl_pool c)\<lparr>wp_ResultChan := rs\<rparr>\<rparr>)"
| worker: "workerStep workf False (cl_pool c) i wp \<Longrightarrow> clientStep workf c (c\<lparr>cl_pool := wp\<rparr>)"

text \<open>The results received when no step is left.\<close>

definition collected :: "('j \<Rightarrow> string \<times> 'v \<times> err option \<Rightarrow> bool) \<Rightarrow> nat \<Rightarrow> 'j list \<Rightarrow> ('j, 'v) JobResult list \<Rightarrow> bool" where
  "collected workf workers jobs rs \<longleftrightarrow>
     (\<exists>c. (clientStep workf)\<^sup>*\<^sup>* (startClient workers jobs) c \<and> (\<nexists>c'. clientStep workf c c') \<and> cl_got c = rs)"

section \<open>No job is lost and none is done twice\<close>

lemma sum_list_update:
  "i < length xs \<Longrightarrow> sum_list (map f (xs[i := w])) + f (xs ! i) = sum_list (map f xs) + (f w :: 'a :: comm_monoid_add)"
  by (induction xs arbitrary: i) (auto simp: ac_simps split: nat.split)

fun jobOf :: "('j, 'v) worker \<Rightarrow> 'j multiset" where
  "jobOf (Working j) = {#j#}"
| "jobOf (Sending r) = {#jr_Job r#}"
| "jobOf _ = {#}"

definition inPool :: "('j, 'v) WorkerPool \<Rightarrow> 'j multiset" where
  "inPool wp = mset (wp_jobChan wp) + sum_list (map jobOf (wp_routines wp)) + mset (map jr_Job (wp_ResultChan wp))"

text \<open>A result that the work function may have produced for its job.\<close>

definition produced :: "('j \<Rightarrow> string \<times> 'v \<times> err option \<Rightarrow> bool) \<Rightarrow> ('j, 'v) JobResult \<Rightarrow> bool" where
  "produced workf r \<longleftrightarrow> workf (jr_Job r) (jr_Logs r, jr_ReturnValues r, jr_Error r)"

definition poolInv :: "('j \<Rightarrow> string \<times> 'v \<times> err option \<Rightarrow> bool) \<Rightarrow> nat \<Rightarrow> 'j list \<Rightarrow> ('j, 'v) client \<Rightarrow> bool" where
  "poolInv workf workers jobs c \<longleftrightarrow>
     mset (cl_todo c) + inPool (cl_pool c) + mset (map jr_Job (cl_got c)) = mset jobs \<and>
     cl_need c = length jobs \<and> wp_buffer (cl_pool c) = length jobs \<and> \<not> wp_closed (cl_pool c) \<and>
     length (wp_routines (cl_pool c)) = workers \<and> Exited \<notin> set (wp_routines (cl_pool c)) \<and>
     (\<forall>r. r \<in> set (cl_got c) \<or> r \<in> set (wp_ResultChan (cl_pool c)) \<or> Sending r \<in> set (wp_routines (cl_pool c)) \<longrightarrow>
        produced workf r)"

lemma sum_list_replicate_empty [simp]: "sum_list (replicate n {#}) = {#}"
  by (induction n) auto

lemma poolInv_start: "poolInv workf workers jobs (startClient workers jobs)"
  by (auto simp: poolInv_def startClient_def Start_def NewWorkerPool_def inPool_def
      dest: in_set_replicate[THEN iffD1])

lemma setRoutine_simps [simp]:
  "wp_jobChan (setRoutine i w wp) = wp_jobChan wp" "wp_ResultChan (setRoutine i w wp) = wp_ResultChan wp"
  "wp_buffer (setRoutine i w wp) = wp_buffer wp" "wp_closed (setRoutine i w wp) = wp_closed wp"
  "wp_routines (setRoutine i w wp) = (wp_routines wp)[i := w]"
  by (simp_all add: setRoutine_def)

lemma set_update_cases: "x \<in> set (xs[i := w]) \<Longrightarrow> x = w \<or> x \<in> set xs"
  using set_update_subset_insert by fastforce

lemma workerStep_jobs:
  assumes "workerStep workf ctxDone wp i wp'" and "Exited \<notin> set (wp_routines wp')"
  shows "inPool wp' = inPool wp"
  using assms(1)
proof cases
  case (take job jobs)
  with sum_list_update[OF take(2), of jobOf "Working job"] show ?thesis by (simp add: inPool_def)
next
  case (work job logs val e)
  with sum_list_update[OF work(2), of jobOf
      "Sending \<lparr>jr_Logs = logs, jr_Error = e, jr_Job = job, jr_ReturnValues = val\<rparr>"] show ?thesis by (simp add: inPool_def)
next
  case (send r)
  with sum_list_update[OF send(2), of jobOf Waiting] show ?thesis by (simp add: inPool_def)
qed (use assms(2) in \<open>auto simp: set_update_memI\<close>)

lemma clientStep_inv:
  assumes "clientStep workf c c'" and inv: "poolInv workf workers jobs c"
  shows "poolInv workf workers jobs c'"
  using assms(1)
proof cases
  case (add job js wp)
  then have wp: "wp = (cl_pool c)\<lparr>wp_jobChan := wp_jobChan (cl_pool c) @ [job]\<rparr>"
    by (auto simp: AddJob_def split: if_splits)
  show ?thesis using inv add(2) by (simp add: add(1) wp poolInv_def inPool_def)
next
  case (receive r rs)
  show ?thesis using inv receive(4) by (auto simp: receive(1) poolInv_def inPool_def)
next
  case (worker i wp)
  from worker(2) inv have ex: "Exited \<notin> set (wp_routines wp)"
    by cases (auto simp: poolInv_def dest: set_update_cases)
  have prod: "produced workf r" if "r \<in> set (wp_ResultChan wp) \<or> Sending r \<in> set (wp_routines wp)" for r
    using worker(2)
  proof cases
    case (take job jobs)
    with that inv show ?thesis by (auto simp: poolInv_def dest: set_update_cases)
  next
    case (work job logs val e)
    with that inv show ?thesis by (auto simp: poolInv_def produced_def dest!: set_update_cases)
  next
    case (send r')
    with that inv nth_mem[OF send(2)] show ?thesis by (auto simp: poolInv_def dest!: set_update_cases)
  qed (use ex in \<open>auto simp: set_update_memI\<close>)
  have "wp_buffer wp = wp_buffer (cl_pool c)" "wp_closed wp = wp_closed (cl_pool c)"
    "length (wp_routines wp) = length (wp_routines (cl_pool c))"
    using worker(2) by (cases; simp)+
  with inv ex prod workerStep_jobs[OF worker(2) ex] show ?thesis
    by (auto simp: worker(1) poolInv_def)
qed

section \<open>The pool never gets stuck before all results are in\<close>

lemma sum_list_jobs_nonempty: "w \<in> set ws \<Longrightarrow> jobOf w \<subseteq># sum_list (map jobOf ws)"
  by (induction ws) (auto intro: subset_mset.order_trans)

lemma pool_cases:
  assumes "poolInv workf workers jobs c" and "p = cl_pool c"
  obtains (result) r rs where "wp_ResultChan p = r # rs"
    | (working) i j where "i < length (wp_routines p)" "wp_routines p ! i = Working j"
    | (sending) i r where "wp_ResultChan p = []" "i < length (wp_routines p)" "wp_routines p ! i = Sending r"
    | (waiting) "wp_ResultChan p = []" "\<And>w. w \<in> set (wp_routines p) \<Longrightarrow> w = Waiting"
proof (cases "wp_ResultChan p")
  case Nil
  show thesis
  proof (cases "\<forall>w \<in> set (wp_routines p). w = Waiting")
    case False
    then obtain i where i: "i < length (wp_routines p)" "wp_routines p ! i \<noteq> Waiting" by (metis in_set_conv_nth)
    have "wp_routines p ! i \<noteq> Exited" using assms i(1) nth_mem by (fastforce simp: poolInv_def)
    with i Nil that show thesis by (cases "wp_routines p ! i") auto
  qed (use Nil that(4) in blast)
qed (use that(1) in blast)

lemma working_job:
  assumes "poolInv workf workers jobs c" and "i < length (wp_routines (cl_pool c))" "wp_routines (cl_pool c) ! i = Working j"
  shows "j \<in> set jobs"
proof -
  have "j \<in># inPool (cl_pool c)"
    using mset_subset_eqD[OF sum_list_jobs_nonempty[OF nth_mem[OF assms(2)]], of j] assms(3) by (simp add: inPool_def)
  moreover have "set jobs = set_mset (mset (cl_todo c) + inPool (cl_pool c) + mset (map jr_Job (cl_got c)))"
    using assms(1) by (metis poolInv_def set_mset_mset)
  ultimately show ?thesis by simp
qed

lemma pool_progress:
  assumes inv: "poolInv workf workers jobs c" and "0 < workers" and total: "\<And>j. j \<in> set jobs \<Longrightarrow> \<exists>out. workf j out"
    and less: "length (cl_got c) < length jobs"
  shows "\<exists>c'. clientStep workf c c'"
proof -
  let ?p = "cl_pool c"
  have sizes: "length (cl_todo c) + size (inPool ?p) + length (cl_got c) = length jobs"
    using arg_cong[of _ _ size, OF conjunct1[OF inv[unfolded poolInv_def]]] by simp
  have buf: "wp_buffer ?p = length jobs" "cl_need c = length jobs" "length (wp_routines ?p) = workers"
    using inv by (auto simp: poolInv_def)
  show ?thesis
  proof (cases "cl_todo c")
    case (Cons job js)
    then have "length (wp_jobChan ?p) < wp_buffer ?p" using sizes buf by (simp add: inPool_def)
    then have "AddJob job ?p = Some (?p\<lparr>wp_jobChan := wp_jobChan ?p @ [job]\<rparr>)" by (simp add: AddJob_def)
    with Cons show ?thesis by (blast intro: clientStep.add)
  next
    case todo: Nil
    from inv refl[of ?p] show ?thesis
    proof (cases rule: pool_cases)
      case (result r rs)
      with clientStep.receive[OF todo, of r rs workf] less buf show ?thesis by auto
    next
      case (working i j)
      from total[OF working_job[OF inv working]] obtain logs val e where "workf j (logs, val, e)" by (metis prod_cases3)
      from workerStep.work[of i ?p j workf, OF working this] show ?thesis by (blast intro: clientStep.worker)
    next
      case (sending i r)
      have "length (wp_ResultChan ?p) < wp_buffer ?p" using sending(1) less buf by auto
      from workerStep.send[of i ?p r workf False, OF sending(2,3) this] show ?thesis by (blast intro: clientStep.worker)
    next
      case waiting
      then have ws: "wp_routines ?p = replicate workers Waiting" using buf(3) by (metis replicate_eqI)
      then have "inPool ?p = mset (wp_jobChan ?p)" using waiting(1) by (simp add: inPool_def)
      then have "wp_jobChan ?p \<noteq> []" using sizes todo less by auto
      then obtain j js where "wp_jobChan ?p = j # js" by (cases "wp_jobChan ?p") auto
      from workerStep.take[of 0 ?p j js workf False, OF _ _ this] ws \<open>0 < workers\<close> show ?thesis
        by (auto intro: clientStep.worker)
    qed
  qed
qed

section \<open>Every execution is short\<close>

fun weight :: "('j, 'v) worker \<Rightarrow> nat" where
  "weight (Working j) = 3"
| "weight (Sending r) = 2"
| "weight _ = 0"

definition stepsLeft :: "('j, 'v) client \<Rightarrow> nat" where
  "stepsLeft c = 5 * length (cl_todo c) + 4 * length (wp_jobChan (cl_pool c)) +
     sum_list (map weight (wp_routines (cl_pool c))) + length (wp_ResultChan (cl_pool c))"

lemma clientStep_decreases:
  assumes "clientStep workf c c'" and "poolInv workf workers jobs c"
  shows "stepsLeft c' < stepsLeft c"
  using assms(1)
proof cases
  case (worker i wp)
  have "4 * length (wp_jobChan wp) + sum_list (map weight (wp_routines wp)) + length (wp_ResultChan wp) <
    4 * length (wp_jobChan (cl_pool c)) + sum_list (map weight (wp_routines (cl_pool c))) + length (wp_ResultChan (cl_pool c))"
    using worker(2)
  proof cases
    case (take job js)
    with sum_list_update[OF take(2), of weight "Working job"] show ?thesis by simp
  next
    case (work job logs val e)
    with sum_list_update[OF work(2), of weight
        "Sending \<lparr>jr_Logs = logs, jr_Error = e, jr_Job = job, jr_ReturnValues = val\<rparr>"] show ?thesis by simp
  next
    case (send r)
    with sum_list_update[OF send(2), of weight Waiting] show ?thesis by simp
  qed (use assms(2) in \<open>auto simp: poolInv_def\<close>)
  then show ?thesis by (simp add: worker(1) stepsLeft_def)
qed (auto simp: stepsLeft_def AddJob_def split: if_splits)

lemma steps_inv:
  "(clientStep workf ^^ n) (startClient workers jobs) c \<Longrightarrow>
     poolInv workf workers jobs c \<and> n + stepsLeft c \<le> 5 * length jobs"
proof (induction n arbitrary: c)
  case 0
  have "sum_list (replicate workers (0 :: nat)) = 0" by (induction workers) auto
  moreover have c: "c = startClient workers jobs" using 0 by simp
  ultimately have "stepsLeft c = 5 * length jobs"
    by (simp add: stepsLeft_def startClient_def Start_def NewWorkerPool_def)
  with c show ?case by (simp add: poolInv_start)
next
  case (Suc n)
  then obtain b where b: "(clientStep workf ^^ n) (startClient workers jobs) b" "clientStep workf b c" by auto
  from Suc.IH[OF b(1)] clientStep_inv[OF b(2)] clientStep_decreases[OF b(2)] show ?case by fastforce
qed

lemma collected_complete:
  assumes "0 < workers" "\<And>j. j \<in> set jobs \<Longrightarrow> \<exists>out. workf j out" "collected workf workers jobs rs"
  shows "mset (map jr_Job rs) = mset jobs" "\<forall>r \<in> set rs. produced workf r"
proof -
  from assms(3) obtain c n where c: "(clientStep workf ^^ n) (startClient workers jobs) c"
    "\<nexists>c'. clientStep workf c c'" "cl_got c = rs"
    by (auto simp: collected_def rtranclp_power)
  have inv: "poolInv workf workers jobs c" using steps_inv[OF c(1)] by simp
  have eq: "mset (cl_todo c) + inPool (cl_pool c) + mset (map jr_Job (cl_got c)) = mset jobs"
    using inv by (simp add: poolInv_def)
  have "\<not> length (cl_got c) < length jobs" using pool_progress[OF inv assms(1,2)] c(2) by blast
  moreover have "length (cl_todo c) + size (inPool (cl_pool c)) + length (cl_got c) = length jobs"
    using arg_cong[of _ _ size, OF eq] by simp
  ultimately have "size (mset (cl_todo c) + inPool (cl_pool c)) = 0" unfolding size_union size_mset by linarith
  then have "mset (cl_todo c) + inPool (cl_pool c) = {#}" by (simp only: size_eq_0_iff_empty)
  with eq c(3) show "mset (map jr_Job rs) = mset jobs" by simp
  show "\<forall>r \<in> set rs. produced workf r" using inv c(3) by (auto simp: poolInv_def)
qed

lemma collected_exists: "\<exists>rs. collected workf workers jobs rs"
proof -
  have "\<exists>d. (clientStep workf)\<^sup>*\<^sup>* c d \<and> (\<nexists>c'. clientStep workf d c')"
    if "poolInv workf workers jobs c" for c
    using that
  proof (induction "stepsLeft c" arbitrary: c rule: less_induct)
    case less
    show ?case
    proof (cases "\<exists>c'. clientStep workf c c'")
      case True
      then obtain c' where c': "clientStep workf c c'" by blast
      from less(1)[OF clientStep_decreases[OF c' less(2)] clientStep_inv[OF c' less(2)]] c' show ?thesis
        by (blast intro: converse_rtranclp_into_rtranclp)
    qed blast
  qed
  from this[OF poolInv_start] show ?thesis by (auto simp: collected_def)
qed

text \<open>
  C24. The worker pool loses nothing and always finishes: whatever the number of workers and
  whatever the scheduler does, an execution of a client with n jobs has at most 5 n steps, and one
  that cannot go on has received exactly one result for every job, each one that the work
  function produced for that job.
\<close>

theorem pool_runs_complete:
  assumes "0 < workers" and "\<And>j. j \<in> set jobs \<Longrightarrow> \<exists>out. workf j out"
    and "(clientStep workf ^^ n) (startClient workers jobs) c"
  shows "n \<le> 5 * length jobs \<and>
    ((\<exists>c'. clientStep workf c c') \<or>
     mset (map jr_Job (cl_got c)) = mset jobs \<and> (\<forall>r \<in> set (cl_got c). produced workf r))"
proof -
  have "collected workf workers jobs (cl_got c)" if "\<nexists>c'. clientStep workf c c'"
    using that assms(3) by (auto simp: collected_def rtranclp_power)
  with collected_complete[OF assms(1,2)] steps_inv[OF assms(3)] show ?thesis by fastforce
qed

theorem pool_runs_complete_witness:
  "\<exists>c'. clientStep (\<lambda>j out. out = ([], j + 1, None)) (startClient 2 [1 :: nat, 2]) c'"
  using pool_runs_complete[of 2 "[1 :: nat, 2]" "\<lambda>j out. out = ([], j + 1, None)" 0 "startClient 2 [1, 2]"]
  by (auto simp: startClient_def)

end
