(* ===== verification/PoolPlugins.thy ===== *)
theory PoolPlugins
  imports WorkerPool Metrics
begin

text \<open>
  The plugins that test many targets in parallel with a worker pool: dns, netDial and httpPing
  (agent/plugins/syntests). Each has its work function and the loop of \<open>PerformTest\<close> that
  receives the results. What the network answers is an argument of the work functions; what the
  result channel delivers is the list argument of \<open>PerformTest\<close>, any list that an
  execution of the pool can deliver. The YAML library, \<open>time.ParseDuration\<close> and the regular
  expressions are arguments. Counters are Go's 64-bit integers.
\<close>

section \<open>Collecting marks\<close>

definition addMarks :: "nat \<Rightarrow> int \<Rightarrow> nat" where
  "addMarks marks v = (marks + nat (v mod 2 ^ 64)) mod 2 ^ 64"

text \<open>
  The contract of a work function whose results are scored: a job has a best score, and every
  possible outcome scores between zero and that.
\<close>

locale scored_work =
  fixes workf :: "'j \<Rightarrow> string \<times> 'v \<times> err option \<Rightarrow> bool" and score :: "('j, 'v) JobResult \<Rightarrow> nat"
    and best :: "'j \<Rightarrow> nat"
  assumes work_total: "\<exists>out. workf j out"
    and score_le: "produced workf r \<Longrightarrow> score r \<le> best (jr_Job r)"
begin

lemma total_le:
  "\<forall>r \<in> set rs. produced workf r \<Longrightarrow> sum_list (map score rs) \<le> sum_list (map (\<lambda>r. best (jr_Job r)) rs)"
  by (induction rs) (auto intro: add_mono score_le)

lemma total_full:
  "\<forall>r \<in> set rs. produced workf r \<Longrightarrow>
     sum_list (map score rs) = sum_list (map (\<lambda>r. best (jr_Job r)) rs) \<longleftrightarrow> (\<forall>r \<in> set rs. score r = best (jr_Job r))"
proof (induction rs)
  case (Cons r rs)
  then have "score r \<le> best (jr_Job r)" "sum_list (map score rs) \<le> sum_list (map (\<lambda>r. best (jr_Job r)) rs)"
    using score_le total_le by auto
  with Cons show ?case by auto
qed simp

lemma jobs_best:
  assumes "mset (map jr_Job rs) = mset jobs"
  shows "sum_list (map (\<lambda>r. best (jr_Job r)) rs) = sum_list (map best jobs)"
proof -
  have "sum_list (map best (map jr_Job rs)) = sum_list (map best jobs)"
    using assms by (metis mset_map sum_mset_sum_list)
  then show ?thesis by (simp add: comp_def)
qed

lemma collected_score:
  assumes "0 < workers" "collected workf workers jobs rs"
  shows "sum_list (map score rs) \<le> sum_list (map best jobs) \<and> length rs = length jobs \<and>
    (sum_list (map score rs) = sum_list (map best jobs) \<longleftrightarrow> (\<forall>r \<in> set rs. score r = best (jr_Job r)))"
proof -
  note c = collected_complete[OF assms(1) work_total assms(2)]
  show ?thesis
    using total_le[OF c(2)] total_full[OF c(2)] jobs_best[OF c(1)] arg_cong[of _ _ size, OF c(1)] by simp
qed

end

section \<open>dns\<close>

record DNSTestConfig =
  dns_Domains :: "string list"
  dns_Workers :: int
  dns_Repeats :: int

record DnsTestJob =
  dj_Domain :: string
  dj_Repeats :: int

definition DNSTest_Initialise :: "(string \<Rightarrow> DNSTestConfig \<times> err option) \<Rightarrow> SynTestConfig \<Rightarrow> DNSTestConfig \<times> err option" where
  "DNSTest_Initialise parseYML synTestConfig =
     (let (c, e) = parseYML (stc_Config synTestConfig);
          c1 = (if dns_Workers c \<le> 0 then c\<lparr>dns_Workers := 3\<rparr> else c);
          c2 = (if dns_Repeats c1 \<le> 0 then c1\<lparr>dns_Repeats := 1\<rparr> else c1)
      in (c2, e))"

fun dnsLoop :: "(nat \<Rightarrow> err + string list) \<Rightarrow> nat \<Rightarrow> nat \<Rightarrow> int \<Rightarrow> int" where
  "dnsLoop lookupIP 0 i marks = marks"
| "dnsLoop lookupIP (Suc k) i marks =
     dnsLoop lookupIP k (i + 1) (case lookupIP i of Inl e \<Rightarrow> marks | Inr ips \<Rightarrow> marks + 1)"

definition dnsTest :: "(nat \<Rightarrow> err + string list) \<Rightarrow> DnsTestJob \<Rightarrow> int \<times> err option" where
  "dnsTest lookupIP job = (dnsLoop lookupIP (nat (dj_Repeats job)) 0 0, None)"

definition dnsGauge :: "string \<Rightarrow> int \<Rightarrow> int \<Rightarrow> PrometheusGauge" where
  "dnsGauge domain successCount maxRetries =
     \<lparr>pg_Name = ''dns_repeat_count'',
      pg_Help = ''Number of Successful resolutions (out of '' @ fmt_d maxRetries @ '')'',
      pg_Value = f64_of_int successCount, pg_Labels = [(''domain'', domain)]\<rparr>"

fun dnsCollect :: "int \<Rightarrow> (DnsTestJob, int) JobResult list \<Rightarrow> TestResult \<Rightarrow> PrometheusMetrics \<Rightarrow> TestResult \<times> PrometheusMetrics" where
  "dnsCollect repeats [] testResult gauges = (testResult, gauges)"
| "dnsCollect repeats (res # rs) testResult gauges =
     dnsCollect repeats rs
       (if jr_Error res = None
        then testResult\<lparr>tres_Marks := addMarks (tres_Marks testResult) (jr_ReturnValues res)\<rparr> else testResult)
       (gauges @ [dnsGauge (dj_Domain (jr_Job res)) (jr_ReturnValues res) repeats])"

definition dnsJobs :: "DNSTestConfig \<Rightarrow> DnsTestJob list" where
  "dnsJobs c = map (\<lambda>d. \<lparr>dj_Domain = d, dj_Repeats = dns_Repeats c\<rparr>) (dns_Domains c)"

definition DNSTest_PerformTest ::
  "(PrometheusMetrics \<Rightarrow> err + string) \<Rightarrow> DNSTestConfig \<Rightarrow> (DnsTestJob, int) JobResult list \<Rightarrow> TestResult \<times> err option" where
  "DNSTest_PerformTest marshal c results =
     (if dns_Domains c = [] then (FailedTestResult, Some (ErrNew ''no domains to test''))
      else
        (let testResult = \<lparr>tres_Marks = 0,
               tres_MaxMarks = nat (int (length (dns_Domains c)) * dns_Repeats c mod 2 ^ 64), tres_Details = []\<rparr>;
             (testResult, gauges) = dnsCollect (dns_Repeats c) results testResult [];
             (e, testResult) = AddPrometheusMetricsToResults marshal gauges testResult
         in (testResult, e)))"

section \<open>netDial\<close>

record Address =
  ad_Network :: string
  ad_Address :: string
  ad_Timeout :: int

record NetDialTestConfig =
  nd_Addresses :: "Address list"
  nd_Workers :: int

definition NetDialTest_Initialise ::
  "(string \<Rightarrow> NetDialTestConfig \<times> err option) \<Rightarrow> SynTestConfig \<Rightarrow> err + NetDialTestConfig" where
  "NetDialTest_Initialise parseYML synTestConfig =
     (case parseYML (stc_Config synTestConfig) of
        (c, Some e) \<Rightarrow> Inl (ErrWrap ''error parsing config'' e)
      | (c, None) \<Rightarrow> Inr (if nd_Workers c \<le> 0 then c\<lparr>nd_Workers := 3\<rparr> else c))"

text \<open>\<open>dial network address timeout\<close>: how long the connection took, in nanoseconds.\<close>

definition netDialTest :: "(string \<Rightarrow> string \<Rightarrow> int \<Rightarrow> err + duration) \<Rightarrow> Address \<Rightarrow> duration \<times> err option" where
  "netDialTest dial job =
     (let job = (if ad_Timeout job = 0 then job\<lparr>ad_Timeout := 3\<rparr> else job) in
      case dial (ad_Network job) (ad_Address job) (ad_Timeout job * second) of
        Inl e \<Rightarrow> (0, Some (ErrWrap (''could not connect to '' @ ad_Address job) e))
      | Inr d \<Rightarrow> (d, None))"

definition netDialGauges :: "(Address, duration) JobResult \<Rightarrow> PrometheusMetrics" where
  "netDialGauges res =
     (let labels = [(''net'', ad_Network (jr_Job res)), (''addr'', ad_Address (jr_Job res))] in
      [\<lparr>pg_Name = ''net_dial'', pg_Help = ''Whether Net dial was successful'',
        pg_Value = f64_of_int (if jr_Error res = None then 1 else 0), pg_Labels = labels\<rparr>,
       \<lparr>pg_Name = ''net_dial_duration_ns'', pg_Help = ''Duration of the net.Dial() call'',
        pg_Value = f64_of_int (jr_ReturnValues res), pg_Labels = labels\<rparr>])"

fun netDialCollect :: "(Address, duration) JobResult list \<Rightarrow> TestResult \<Rightarrow> PrometheusMetrics \<Rightarrow> TestResult \<times> PrometheusMetrics" where
  "netDialCollect [] testResult gauges = (testResult, gauges)"
| "netDialCollect (res # rs) testResult gauges =
     netDialCollect rs
       (if jr_Error res = None then testResult\<lparr>tres_Marks := addMarks (tres_Marks testResult) 1\<rparr> else testResult)
       (gauges @ netDialGauges res)"

definition NetDialTest_PerformTest ::
  "(PrometheusMetrics \<Rightarrow> err + string) \<Rightarrow> NetDialTestConfig \<Rightarrow> (Address, duration) JobResult list \<Rightarrow> TestResult \<times> err option" where
  "NetDialTest_PerformTest marshal c results =
     (if nd_Addresses c = [] then (\<lparr>tres_Marks = 1, tres_MaxMarks = 1, tres_Details = []\<rparr>, None)
      else
        (let testResult = \<lparr>tres_Marks = 0, tres_MaxMarks = length (nd_Addresses c) mod 2 ^ 64, tres_Details = []\<rparr>;
             (testResult, gauges) = netDialCollect results testResult [];
             (e, testResult) = AddPrometheusMetricsToResults marshal gauges testResult
         in (testResult, e)))"

section \<open>httpPing\<close>

record HttpPingTestConfig =
  hp_Address :: string
  hp_ExpectedCodeRegex :: string
  hp_MaxRetries :: int
  hp_MaxTimeoutRetry :: int
  hp_RepeatWithoutFail :: int
  hp_WaitBetweenRepeat :: string
  hp_timeout :: duration

record HttpPingTest =
  hpt_configs :: "HttpPingTestConfig list"
  hpt_timeout :: duration

definition ParallelWorkers :: nat where "ParallelWorkers = 5"
definition DefaultWaitBetweenRepeats :: string where "DefaultWaitBetweenRepeats = ''5s''"

text \<open>Integer division of Go: the quotient is truncated towards zero.\<close>

definition goDiv :: "int \<Rightarrow> int \<Rightarrow> int" where
  "goDiv a b = (if a < 0 then - ((- a) div b) else a div b)"

definition httpPingTimeout :: "duration \<Rightarrow> nat \<Rightarrow> duration" where
  "httpPingTimeout testTimeout n = goDiv testTimeout (int (max (n div ParallelWorkers) 1)) - second"

fun checkConfigs :: "HttpPingTestConfig list \<Rightarrow> err + HttpPingTestConfig list" where
  "checkConfigs [] = Inr []"
| "checkConfigs (c # cs) =
     (if (hp_MaxRetries c > 0 \<or> hp_MaxTimeoutRetry c > 0) \<and> hp_RepeatWithoutFail c > 0
      then Inl (ErrNew ''retries/timeoutRetries and repeatsWithoutFail cannot be larger than 0 at the same time'')
      else case checkConfigs cs of
        Inl e \<Rightarrow> Inl e
      | Inr cs \<Rightarrow> Inr ((if hp_WaitBetweenRepeat c = [] then c\<lparr>hp_WaitBetweenRepeat := DefaultWaitBetweenRepeats\<rparr> else c) # cs))"

definition HttpPingTest_Initialise ::
  "(string \<Rightarrow> HttpPingTestConfig list \<times> err option) \<Rightarrow> (string \<Rightarrow> HttpPingTestConfig \<times> err option)
    \<Rightarrow> (string \<Rightarrow> err + duration) \<Rightarrow> SynTestConfig \<Rightarrow> err + HttpPingTest" where
  "HttpPingTest_Initialise parseList parseOne parseDuration synTestConfig =
     (let config = stc_Config synTestConfig;
          (configs, e) = parseList config;
          parsed = (if e \<noteq> None \<or> configs = [] then
                      (case parseOne config of (c, Some e) \<Rightarrow> Inl e | (c, None) \<Rightarrow> Inr (configs @ [c]))
                    else Inr configs)
      in case parsed of
           Inl e \<Rightarrow> Inl e
         | Inr configs \<Rightarrow>
             (case parseDuration (to_Run (stc_Timeouts synTestConfig)) of
                Inl e \<Rightarrow> Inl e
              | Inr testTimeout \<Rightarrow>
                  (case checkConfigs configs of
                     Inl e \<Rightarrow> Inl e
                   | Inr configs \<Rightarrow>
                       Inr \<lparr>hpt_configs = configs, hpt_timeout = httpPingTimeout testTimeout (length configs)\<rparr>)))"

text \<open>
  One request: an error of the client, an error while reading the body, or a status code and the
  latency in nanoseconds. \<open>he_ctxErr\<close> is the error of the context when it is read for an attempt:
  before the attempt in the loop of retries, after it in the loop of repeats.
\<close>

datatype http_outcome = DoError err | BodyError err | HttpResponse nat duration

record http_env =
  he_parseDuration :: "string \<Rightarrow> err + duration"
  he_NewRequest :: "string \<Rightarrow> err option"
  he_matchString :: "string \<Rightarrow> string \<Rightarrow> err + bool"
  he_outcome :: "nat \<Rightarrow> http_outcome"
  he_ctxErr :: "nat \<Rightarrow> err option"

definition runHttpPing :: "http_env \<Rightarrow> string \<Rightarrow> nat \<Rightarrow> bool \<times> duration \<times> err option" where
  "runHttpPing env expectedCodeRegex i =
     (case he_outcome env i of
        DoError e \<Rightarrow> (False, 0, Some e)
      | BodyError e \<Rightarrow> (False, 0, Some e)
      | HttpResponse code elapsed \<Rightarrow>
          (case he_matchString env expectedCodeRegex (itoa code) of
             Inl e \<Rightarrow> (False, elapsed, Some e)
           | Inr match \<Rightarrow> (match, elapsed, None)))"

definition milliseconds :: "duration \<Rightarrow> int" where "milliseconds d = goDiv d 1000000"

text \<open>The loop of repeats: None when every repeat succeeded, otherwise the early return.\<close>

fun repeatLoop :: "http_env \<Rightarrow> string \<Rightarrow> nat \<Rightarrow> nat \<Rightarrow> int \<Rightarrow> int \<times> err option option" where
  "repeatLoop env regex 0 i elapsed = (elapsed, None)"
| "repeatLoop env regex (Suc k) i elapsed =
     (case runHttpPing env regex i of (match, d, e) \<Rightarrow>
        if he_ctxErr env i \<noteq> None then (milliseconds d, Some (he_ctxErr env i))
        else if e \<noteq> None then (milliseconds d, Some e)
        else if \<not> match then (milliseconds d, Some None)
        else repeatLoop env regex k (i + 1) (milliseconds d))"

definition deadlineExceeded :: "err option \<Rightarrow> bool" where
  "deadlineExceeded e \<longleftrightarrow> (case e of None \<Rightarrow> False | Some e \<Rightarrow> err_Error e = err_Error CtxDeadlineExceeded)"

text \<open>The loop of retries; the first number is how many attempts \<open>maxRetries\<close> still allows.\<close>

fun retryLoop :: "http_env \<Rightarrow> string \<Rightarrow> int \<Rightarrow> nat \<Rightarrow> nat \<Rightarrow> bool \<times> int \<times> err option \<Rightarrow> bool \<times> int \<times> err option" where
  "retryLoop env regex maxTimeoutRetries 0 i res = res"
| "retryLoop env regex maxTimeoutRetries (Suc k) i res =
     (if \<not> (he_ctxErr env i = None \<or> deadlineExceeded (he_ctxErr env i)) then res
      else if int i > maxTimeoutRetries \<and> deadlineExceeded (he_ctxErr env i) then res
      else case runHttpPing env regex i of (match, d, e) \<Rightarrow>
        if e = None then (match, milliseconds d, e)
        else retryLoop env regex maxTimeoutRetries k (i + 1) (match, milliseconds d, e))"

text \<open>The map of the result holds the marks and the elapsed time.\<close>

definition httpPingTest :: "http_env \<Rightarrow> HttpPingTestConfig \<Rightarrow> (int \<times> int) \<times> err option" where
  "httpPingTest env d =
     (case he_parseDuration env (hp_WaitBetweenRepeat d) of
        Inl e \<Rightarrow> ((0, 0), Some (ErrWrap ''error parsing repeated success test interval'' e))
      | Inr repeatWaitTime \<Rightarrow>
          (case he_NewRequest env (hp_Address d) of
             Some e \<Rightarrow> ((0, 0), Some e)
           | None \<Rightarrow>
               if hp_RepeatWithoutFail d > 0 then
                 (case repeatLoop env (hp_ExpectedCodeRegex d) (nat (hp_RepeatWithoutFail d)) 1 0 of
                    (elapsed, Some e) \<Rightarrow> ((0, elapsed), e)
                  | (elapsed, None) \<Rightarrow> ((1, elapsed), None))
               else
                 (case retryLoop env (hp_ExpectedCodeRegex d) (hp_MaxTimeoutRetry d) (nat (hp_MaxRetries d + 1)) 0 (False, 0, None) of
                    (match, elapsed, Some e) \<Rightarrow> ((0, elapsed), Some e)
                  | (match, elapsed, None) \<Rightarrow> ((if match then 1 else 0, elapsed), None))))"

definition httpGauge :: "int \<Rightarrow> PrometheusGauge" where
  "httpGauge latency = \<lparr>pg_Name = ''http_ping_latency'', pg_Help = ''show httpPing request latency'',
     pg_Value = f64_of_int latency, pg_Labels = []\<rparr>"

fun httpPingCollect :: "(HttpPingTestConfig, int \<times> int) JobResult list \<Rightarrow> TestResult \<Rightarrow> PrometheusMetrics \<Rightarrow> TestResult \<times> PrometheusMetrics" where
  "httpPingCollect [] testResult gauges = (testResult, gauges)"
| "httpPingCollect (res # rs) testResult gauges =
     httpPingCollect rs
       (if jr_Error res = None
        then testResult\<lparr>tres_Marks := addMarks (tres_Marks testResult) (fst (jr_ReturnValues res))\<rparr> else testResult)
       (gauges @ [httpGauge (snd (jr_ReturnValues res))])"

definition httpPingJobs :: "HttpPingTest \<Rightarrow> HttpPingTestConfig list" where
  "httpPingJobs t = map (\<lambda>c. c\<lparr>hp_timeout := hpt_timeout t\<rparr>) (hpt_configs t)"

definition HttpPingTest_PerformTest ::
  "(PrometheusMetrics \<Rightarrow> err + string) \<Rightarrow> HttpPingTest \<Rightarrow> (HttpPingTestConfig, int \<times> int) JobResult list \<Rightarrow> TestResult \<times> err option" where
  "HttpPingTest_PerformTest marshal t results =
     (if hpt_configs t = [] then (FailedTestResult, Some (ErrNew ''no endpoints to test''))
      else
        (let testResult = \<lparr>tres_Marks = 0, tres_MaxMarks = length (hpt_configs t) mod 2 ^ 64, tres_Details = []\<rparr>;
             (testResult, gauges) = httpPingCollect results testResult [];
             (e, testResult) = AddPrometheusMetricsToResults marshal gauges testResult
         in (testResult, e)))"

section \<open>Marks of the dns plugin\<close>

lemma dnsLoop_bounds: "m \<le> dnsLoop lookupIP k i m \<and> dnsLoop lookupIP k i m \<le> m + int k"
proof (induction k arbitrary: i m)
  case (Suc k)
  show ?case using Suc[of m "i + 1"] Suc[of "m + 1" "i + 1"] by (auto split: sum.split)
qed simp

definition dnsWork :: "DnsTestJob \<Rightarrow> string \<times> int \<times> err option \<Rightarrow> bool" where
  "dnsWork job out \<longleftrightarrow> (\<exists>lookupIP. snd out = dnsTest lookupIP job)"

lemma dnsWork_bounds:
  assumes "produced dnsWork r"
  shows "0 \<le> jr_ReturnValues r \<and> jr_ReturnValues r \<le> int (nat (dj_Repeats (jr_Job r))) \<and> jr_Error r = None"
proof -
  from assms obtain lookupIP where "jr_ReturnValues r = dnsLoop lookupIP (nat (dj_Repeats (jr_Job r))) 0 0" "jr_Error r = None"
    by (auto simp: produced_def dnsWork_def dnsTest_def)
  with dnsLoop_bounds[of 0 lookupIP "nat (dj_Repeats (jr_Job r))" 0] show ?thesis by simp
qed

interpretation dns: scored_work dnsWork "\<lambda>r. nat (jr_ReturnValues r)" "\<lambda>j. nat (dj_Repeats j)"
proof
  show "\<exists>out. dnsWork j out" for j unfolding dnsWork_def by (metis snd_conv)
  show "nat (jr_ReturnValues r) \<le> nat (dj_Repeats (jr_Job r))" if "produced dnsWork r" for r
    using dnsWork_bounds[OF that] by linarith
qed

lemma addMarks_nat: "0 \<le> v \<Longrightarrow> addMarks m v = (m + nat v) mod 2 ^ 64"
  by (simp add: addMarks_def nat_mod_distrib mod_simps)

lemma dnsCollect_marks:
  "\<lbrakk>\<forall>r \<in> set rs. produced dnsWork r; tres_Marks tr < 2 ^ 64\<rbrakk> \<Longrightarrow>
     tres_Marks (fst (dnsCollect k rs tr g)) = (tres_Marks tr + sum_list (map (\<lambda>r. nat (jr_ReturnValues r)) rs)) mod 2 ^ 64 \<and>
     tres_MaxMarks (fst (dnsCollect k rs tr g)) = tres_MaxMarks tr"
proof (induction rs arbitrary: tr g)
  case (Cons r rs)
  have "jr_Error r = None" "0 \<le> jr_ReturnValues r" using Cons.prems dnsWork_bounds[of r] by auto
  with Cons show ?case by (simp add: addMarks_nat mod_simps add.assoc)
qed simp

lemma dnsJobs_best: "0 < dns_Repeats c \<Longrightarrow>
    sum_list (map (\<lambda>j. nat (dj_Repeats j)) (dnsJobs c)) = length (dns_Domains c) * nat (dns_Repeats c)"
  by (simp add: dnsJobs_def comp_def sum_list_triv)

lemma DNSTest_Initialise_defaults: "0 < dns_Workers (fst (DNSTest_Initialise parseYML sc)) \<and> 0 < dns_Repeats (fst (DNSTest_Initialise parseYML sc))"
  by (auto simp: DNSTest_Initialise_def Let_def split: prod.split)

lemma dns_marks:
  assumes "DNSTest_Initialise parseYML sc = (c, None)" and "dns_Domains c \<noteq> []"
    and "int (length (dns_Domains c)) * dns_Repeats c < 2 ^ 64"
    and "collected dnsWork (nat (dns_Workers c)) (dnsJobs c) rs"
  shows "tres_MaxMarks (fst (DNSTest_PerformTest marshal c rs)) = length (dns_Domains c) * nat (dns_Repeats c) \<and>
    tres_Marks (fst (DNSTest_PerformTest marshal c rs)) = sum_list (map (\<lambda>r. nat (jr_ReturnValues r)) rs) \<and>
    tres_Marks (fst (DNSTest_PerformTest marshal c rs)) \<le> tres_MaxMarks (fst (DNSTest_PerformTest marshal c rs)) \<and>
    (tres_Marks (fst (DNSTest_PerformTest marshal c rs)) = tres_MaxMarks (fst (DNSTest_PerformTest marshal c rs)) \<longleftrightarrow>
      (\<forall>r \<in> set rs. jr_ReturnValues r = dns_Repeats c)) \<and>
    mset (map (\<lambda>r. dj_Domain (jr_Job r)) rs) = mset (dns_Domains c)"
proof -
  let ?tr = "\<lparr>tres_Marks = 0, tres_MaxMarks = nat (int (length (dns_Domains c)) * dns_Repeats c mod 2 ^ 64), tres_Details = []\<rparr>"
  let ?sum = "sum_list (map (\<lambda>r. nat (jr_ReturnValues r)) rs)"
  have pos: "0 < dns_Workers c" "0 < dns_Repeats c" using DNSTest_Initialise_defaults[of parseYML sc] assms(1) by auto
  then have w: "0 < nat (dns_Workers c)" by simp
  note col = dns.collected_score[OF w assms(4), unfolded dnsJobs_best[OF pos(2)]]
  note all = collected_complete[OF w dns.work_total assms(4)]
  have max: "nat (int (length (dns_Domains c)) * dns_Repeats c mod 2 ^ 64) = length (dns_Domains c) * nat (dns_Repeats c)"
    using assms(3) pos by (simp add: nat_mult_distrib)
  have "int (length (dns_Domains c) * nat (dns_Repeats c)) < int (2 ^ 64)" using assms(3) pos by simp
  then have lt: "length (dns_Domains c) * nat (dns_Repeats c) < 2 ^ 64" by (simp only: of_nat_less_iff)
  obtain tr g where d: "dnsCollect (dns_Repeats c) rs ?tr [] = (tr, g)" by (cases "dnsCollect (dns_Repeats c) rs ?tr []")
  have m: "tres_Marks tr = ?sum" "tres_MaxMarks tr = length (dns_Domains c) * nat (dns_Repeats c)"
    using dnsCollect_marks[OF all(2), of ?tr "dns_Repeats c" "[]"] d conjunct1[OF col] lt max by simp_all
  have tr: "tres_Marks (fst (DNSTest_PerformTest marshal c rs)) = tres_Marks tr"
    "tres_MaxMarks (fst (DNSTest_PerformTest marshal c rs)) = tres_MaxMarks tr"
    using assms(2) d by (simp_all add: DNSTest_PerformTest_def Let_def split_beta)
  have rep: "dj_Repeats (jr_Job r) = dns_Repeats c" if "r \<in> set rs" for r
  proof -
    have "jr_Job r \<in> set (dnsJobs c)" using that mset_eq_setD[OF all(1)] by auto
    then show ?thesis by (auto simp: dnsJobs_def)
  qed
  have "mset (map dj_Domain (map jr_Job rs)) = mset (map dj_Domain (dnsJobs c))" using all(1) by (simp only: mset_map)
  then have dom: "mset (map (\<lambda>r. dj_Domain (jr_Job r)) rs) = mset (dns_Domains c)" by (simp add: dnsJobs_def comp_def)
  have "(\<forall>r \<in> set rs. nat (jr_ReturnValues r) = nat (dj_Repeats (jr_Job r))) \<longleftrightarrow> (\<forall>r \<in> set rs. jr_ReturnValues r = dns_Repeats c)"
    using rep dnsWork_bounds all(2) pos(2) by (metis eq_nat_nat_iff less_imp_le)
  with col m tr dom show ?thesis by simp
qed

text \<open>
  The parallel dns test computes what testing the domains one after the other would: for
  every configuration that was initialised and every schedule of the workers, the marks are the
  number of successful resolutions, they never exceed the maximal marks, and they are full exactly
  when every domain was resolved every time. Every domain is tested once.
\<close>

theorem dns_marks_exact:
  assumes "DNSTest_Initialise parseYML sc = (c, None)" and "dns_Domains c \<noteq> []"
    and "int (length (dns_Domains c)) * dns_Repeats c < 2 ^ 64"
    and "collected dnsWork (nat (dns_Workers c)) (dnsJobs c) rs"
  shows "tres_MaxMarks (fst (DNSTest_PerformTest marshal c rs)) = length (dns_Domains c) * nat (dns_Repeats c) \<and>
    tres_Marks (fst (DNSTest_PerformTest marshal c rs)) = sum_list (map (\<lambda>r. nat (jr_ReturnValues r)) rs) \<and>
    tres_Marks (fst (DNSTest_PerformTest marshal c rs)) \<le> tres_MaxMarks (fst (DNSTest_PerformTest marshal c rs)) \<and>
    (tres_Marks (fst (DNSTest_PerformTest marshal c rs)) = tres_MaxMarks (fst (DNSTest_PerformTest marshal c rs)) \<longleftrightarrow>
      (\<forall>r \<in> set rs. jr_ReturnValues r = dns_Repeats c)) \<and>
    mset (map (\<lambda>r. dj_Domain (jr_Job r)) rs) = mset (dns_Domains c)"
  using assms by (rule dns_marks)

theorem dns_marks_exact_witness:
  "\<exists>rs. collected dnsWork 3 (dnsJobs \<lparr>dns_Domains = [''a.example'', ''b.example''], dns_Workers = 3, dns_Repeats = 2\<rparr>) rs \<and>
     tres_MaxMarks (fst (DNSTest_PerformTest (\<lambda>_. Inr []) \<lparr>dns_Domains = [''a.example'', ''b.example''], dns_Workers = 3, dns_Repeats = 2\<rparr> rs)) = 4"
proof -
  let ?c = "\<lparr>dns_Domains = [''a.example'', ''b.example''], dns_Workers = 3, dns_Repeats = 2\<rparr>"
  obtain rs where rs: "collected dnsWork (nat (dns_Workers ?c)) (dnsJobs ?c) rs" using collected_exists by blast
  have "DNSTest_Initialise (\<lambda>_. (?c\<lparr>dns_Workers := 0\<rparr>, None)) zeroSynTestConfig = (?c, None)"
    by (simp add: DNSTest_Initialise_def)
  from dns_marks_exact[OF this _ _ rs, of "\<lambda>_. Inr []"] rs show ?thesis by auto
qed

section \<open>Marks of the netDial plugin\<close>

definition netDialWork :: "Address \<Rightarrow> string \<times> duration \<times> err option \<Rightarrow> bool" where
  "netDialWork job out \<longleftrightarrow> (\<exists>dial. snd out = netDialTest dial job)"

interpretation netDial: scored_work netDialWork "\<lambda>r. if jr_Error r = None then 1 else 0" "\<lambda>_. 1"
proof
  show "\<exists>out. netDialWork j out" for j unfolding netDialWork_def by (metis snd_conv)
qed simp

lemma netDialCollect_marks:
  "tres_Marks tr < 2 ^ 64 \<Longrightarrow>
     tres_Marks (fst (netDialCollect rs tr g)) = (tres_Marks tr + (\<Sum>r \<leftarrow> rs. if jr_Error r = None then 1 else 0)) mod 2 ^ 64 \<and>
     tres_MaxMarks (fst (netDialCollect rs tr g)) = tres_MaxMarks tr"
  by (induction rs arbitrary: tr g) (auto simp: addMarks_nat mod_simps add.assoc)

lemma netDial_marks_exact:
  assumes "0 < nd_Workers c" and "nd_Addresses c \<noteq> []" and "length (nd_Addresses c) < 2 ^ 64"
    and "collected netDialWork (nat (nd_Workers c)) (nd_Addresses c) rs"
  shows "tres_MaxMarks (fst (NetDialTest_PerformTest marshal c rs)) = length (nd_Addresses c)"
    and "tres_Marks (fst (NetDialTest_PerformTest marshal c rs)) = (\<Sum>r \<leftarrow> rs. if jr_Error r = None then 1 else 0)"
    and "tres_Marks (fst (NetDialTest_PerformTest marshal c rs)) \<le> length (nd_Addresses c)"
    and "tres_Marks (fst (NetDialTest_PerformTest marshal c rs)) = length (nd_Addresses c) \<longleftrightarrow> (\<forall>r \<in> set rs. jr_Error r = None)"
proof -
  let ?tr = "\<lparr>tres_Marks = 0, tres_MaxMarks = length (nd_Addresses c) mod 2 ^ 64, tres_Details = []\<rparr>"
  let ?sum = "\<Sum>r \<leftarrow> rs. if jr_Error r = None then 1 else (0 :: nat)"
  have w: "0 < nat (nd_Workers c)" using assms(1) by simp
  have col: "?sum \<le> length (nd_Addresses c)" "?sum = length (nd_Addresses c) \<longleftrightarrow> (\<forall>r \<in> set rs. jr_Error r = None)"
    using netDial.collected_score[OF w assms(4)] by (auto simp: sum_list_triv)
  obtain tr g where d: "netDialCollect rs ?tr [] = (tr, g)" by (cases "netDialCollect rs ?tr []")
  have m: "tres_Marks tr = ?sum" "tres_MaxMarks tr = length (nd_Addresses c)"
    using netDialCollect_marks[of ?tr rs "[]"] d col(1) assms(3) by simp_all
  have tr: "tres_Marks (fst (NetDialTest_PerformTest marshal c rs)) = tres_Marks tr"
    "tres_MaxMarks (fst (NetDialTest_PerformTest marshal c rs)) = tres_MaxMarks tr"
    using assms(2) d by (simp_all add: NetDialTest_PerformTest_def Let_def split_beta)
  show "tres_MaxMarks (fst (NetDialTest_PerformTest marshal c rs)) = length (nd_Addresses c)"
    "tres_Marks (fst (NetDialTest_PerformTest marshal c rs)) = ?sum"
    "tres_Marks (fst (NetDialTest_PerformTest marshal c rs)) \<le> length (nd_Addresses c)"
    "tres_Marks (fst (NetDialTest_PerformTest marshal c rs)) = length (nd_Addresses c) \<longleftrightarrow> (\<forall>r \<in> set rs. jr_Error r = None)"
    using tr m col by auto
qed

section \<open>The httpPing plugin\<close>

text \<open>An attempt is made when the context is alive, or timed out with timeout retries left.\<close>

definition attempted :: "http_env \<Rightarrow> int \<Rightarrow> nat \<Rightarrow> bool" where
  "attempted env maxTimeoutRetries i \<longleftrightarrow>
     he_ctxErr env i = None \<or> deadlineExceeded (he_ctxErr env i) \<and> int i \<le> maxTimeoutRetries"

lemma deadlineExceeded_None [simp]: "\<not> deadlineExceeded None"
  by (simp add: deadlineExceeded_def)

definition matches :: "http_env \<Rightarrow> string \<Rightarrow> nat \<Rightarrow> bool" where
  "matches env regex i \<longleftrightarrow> (\<exists>d. runHttpPing env regex i = (True, d, None))"

definition fails :: "http_env \<Rightarrow> string \<Rightarrow> nat \<Rightarrow> bool" where
  "fails env regex i \<longleftrightarrow> snd (snd (runHttpPing env regex i)) \<noteq> None"

lemma all_shift: "(\<forall>j < Suc k. P (i + j)) \<longleftrightarrow> P i \<and> (\<forall>j < k. P (i + 1 + j))"
  by (simp add: All_less_Suc2)

lemma first_shift: "(\<exists>n < Suc k. P (i + n) \<and> (\<forall>j < n. Q (i + j))) \<longleftrightarrow>
    P i \<or> Q i \<and> (\<exists>n < k. P (i + 1 + n) \<and> (\<forall>j < n. Q (i + 1 + j)))"
  by (auto simp: Ex_less_Suc2 All_less_Suc2)

lemma repeatLoop_success:
  "snd (repeatLoop env regex k i el) = None \<longleftrightarrow> (\<forall>j < k. he_ctxErr env (i + j) = None \<and> matches env regex (i + j))"
proof (induction k arbitrary: i el)
  case (Suc k)
  obtain m d e where r: "runHttpPing env regex i = (m, d, e)" by (cases "runHttpPing env regex i")
  note shift = all_shift[of k "\<lambda>j. he_ctxErr env j = None \<and> matches env regex j"]
  have "snd (repeatLoop env regex (Suc k) i el) = None \<longleftrightarrow>
      (he_ctxErr env i = None \<and> matches env regex i) \<and> snd (repeatLoop env regex k (i + 1) (milliseconds d)) = None"
    using r by (auto simp: matches_def)
  with Suc shift show ?case by simp
qed simp

lemma retryLoop_success:
  assumes "fst res \<longrightarrow> snd (snd res) \<noteq> None"
  shows "fst (retryLoop env regex t k i res) \<and> snd (snd (retryLoop env regex t k i res)) = None \<longleftrightarrow>
    (\<exists>n < k. (attempted env t (i + n) \<and> matches env regex (i + n)) \<and>
       (\<forall>j < n. attempted env t (i + j) \<and> fails env regex (i + j)))"
  using assms
proof (induction k arbitrary: i res)
  case (Suc k)
  obtain m d e where r: "runHttpPing env regex i = (m, d, e)" by (cases "runHttpPing env regex i")
  have me: "m \<longrightarrow> e = None" using r by (auto simp: runHttpPing_def split: http_outcome.splits sum.splits)
  have shift: "(\<exists>n < Suc k. (attempted env t (i + n) \<and> matches env regex (i + n)) \<and>
         (\<forall>j < n. attempted env t (i + j) \<and> fails env regex (i + j))) \<longleftrightarrow>
      (attempted env t i \<and> matches env regex i) \<or> (attempted env t i \<and> fails env regex i) \<and>
       (\<exists>n < k. (attempted env t (i + 1 + n) \<and> matches env regex (i + 1 + n)) \<and>
         (\<forall>j < n. attempted env t (i + 1 + j) \<and> fails env regex (i + 1 + j)))"
    by (rule first_shift)
  consider (stop) "\<not> attempted env t i" | (ok) "attempted env t i" "e = None" | (err) "attempted env t i" "e \<noteq> None"
    by blast
  then show ?case
  proof cases
    case stop
    then have eq: "retryLoop env regex t (Suc k) i res = res" by (auto simp: attempted_def)
    show ?thesis unfolding eq shift using stop Suc.prems by blast
  next
    case ok
    then have eq: "retryLoop env regex t (Suc k) i res = (m, milliseconds d, None)" using r by (auto simp: attempted_def)
    show ?thesis unfolding eq shift using ok r by (simp add: matches_def fails_def)
  next
    case err
    then have eq: "retryLoop env regex t (Suc k) i res = retryLoop env regex t k (i + 1) (m, milliseconds d, e)"
      using r by (auto simp: attempted_def)
    have "\<not> matches env regex i" "fails env regex i" using err r by (auto simp: matches_def fails_def)
    then show ?thesis unfolding eq shift using err Suc.IH[of "(m, milliseconds d, e)" "i + 1"] by simp
  qed
qed auto

text \<open>
  C25. One http target is scored as its configuration says. With repeats, the mark is given exactly
  when every repeat answers with the expected code before the context ends. Otherwise it is
  given exactly when some attempt within the allowed retries answers with the expected code and
  every attempt before it failed with an error; an answer with another code is not retried.
\<close>

theorem http_ping_scored:
  assumes "he_parseDuration env (hp_WaitBetweenRepeat d) = Inr w" and "he_NewRequest env (hp_Address d) = None"
  shows "fst (fst (httpPingTest env d)) = 1 \<longleftrightarrow>
    (if 0 < hp_RepeatWithoutFail d
     then \<forall>j < nat (hp_RepeatWithoutFail d).
            he_ctxErr env (1 + j) = None \<and> matches env (hp_ExpectedCodeRegex d) (1 + j)
     else \<exists>n < nat (hp_MaxRetries d + 1).
            (attempted env (hp_MaxTimeoutRetry d) n \<and> matches env (hp_ExpectedCodeRegex d) n) \<and>
            (\<forall>j < n. attempted env (hp_MaxTimeoutRetry d) j \<and> fails env (hp_ExpectedCodeRegex d) j))"
proof (cases "0 < hp_RepeatWithoutFail d")
  case True
  obtain el e where r: "repeatLoop env (hp_ExpectedCodeRegex d) (nat (hp_RepeatWithoutFail d)) 1 0 = (el, e)"
    by (cases "repeatLoop env (hp_ExpectedCodeRegex d) (nat (hp_RepeatWithoutFail d)) 1 0")
  have "fst (fst (httpPingTest env d)) = 1 \<longleftrightarrow> e = None"
    using assms True r by (cases e) (simp_all add: httpPingTest_def)
  with repeatLoop_success[of env "hp_ExpectedCodeRegex d" "nat (hp_RepeatWithoutFail d)" 1 0] r True show ?thesis by simp
next
  case False
  obtain m el e where r: "retryLoop env (hp_ExpectedCodeRegex d) (hp_MaxTimeoutRetry d) (nat (hp_MaxRetries d + 1)) 0
      (False, 0, None) = (m, el, e)"
    by (cases "retryLoop env (hp_ExpectedCodeRegex d) (hp_MaxTimeoutRetry d) (nat (hp_MaxRetries d + 1)) 0 (False, 0, None)")
  have "fst (fst (httpPingTest env d)) = 1 \<longleftrightarrow> m \<and> e = None"
    using assms False r by (cases e) (simp_all add: httpPingTest_def)
  with retryLoop_success[of "(False, 0, None)" env "hp_ExpectedCodeRegex d" "hp_MaxTimeoutRetry d" "nat (hp_MaxRetries d + 1)" 0]
    r False show ?thesis by simp
qed

definition exampleHttpEnv :: http_env where
  "exampleHttpEnv = \<lparr>he_parseDuration = (\<lambda>_. Inr (5 * second)), he_NewRequest = (\<lambda>_. None),
     he_matchString = (\<lambda>regex code. Inr (regex = code)),
     he_outcome = (\<lambda>i. if i = 0 then DoError (NetErr ''refused'') else HttpResponse 200 1000000), he_ctxErr = (\<lambda>_. None)\<rparr>"

definition exampleHttpJob :: HttpPingTestConfig where
  "exampleHttpJob = \<lparr>hp_Address = ''http://example'', hp_ExpectedCodeRegex = ''200'', hp_MaxRetries = 1, hp_MaxTimeoutRetry = 0,
     hp_RepeatWithoutFail = 0, hp_WaitBetweenRepeat = ''5s'', hp_timeout = 9 * second\<rparr>"

theorem http_ping_scored_witness: "fst (fst (httpPingTest exampleHttpEnv exampleHttpJob)) = 1"
proof -
  have "itoa 200 = ''200''" by code_simp
  then have "matches exampleHttpEnv ''200'' 1" "fails exampleHttpEnv ''200'' 0"
    by (simp_all add: matches_def fails_def runHttpPing_def exampleHttpEnv_def)
  then have "\<exists>n < 2. (attempted exampleHttpEnv 0 n \<and> matches exampleHttpEnv ''200'' n) \<and>
      (\<forall>j < n. attempted exampleHttpEnv 0 j \<and> fails exampleHttpEnv ''200'' j)"
    by (intro exI[of _ 1]) (simp add: attempted_def exampleHttpEnv_def)
  with http_ping_scored[of exampleHttpEnv exampleHttpJob "5 * second"] show ?thesis
    by (simp add: exampleHttpEnv_def exampleHttpJob_def)
qed

subsection \<open>Marks\<close>

definition httpPingWork :: "HttpPingTestConfig \<Rightarrow> string \<times> (int \<times> int) \<times> err option \<Rightarrow> bool" where
  "httpPingWork job out \<longleftrightarrow> (\<exists>env. snd out = httpPingTest env job)"

lemma httpPingTest_mark: "fst (fst (httpPingTest env d)) = 0 \<or> fst (fst (httpPingTest env d)) = 1"
  by (auto simp: httpPingTest_def split: sum.split option.split prod.split)

lemma httpPingWork_mark:
  assumes "produced httpPingWork r"
  shows "fst (jr_ReturnValues r) = 0 \<or> fst (jr_ReturnValues r) = 1"
proof -
  from assms obtain env where "(jr_ReturnValues r, jr_Error r) = httpPingTest env (jr_Job r)"
    by (auto simp: produced_def httpPingWork_def)
  then have "jr_ReturnValues r = fst (httpPingTest env (jr_Job r))" by (metis fst_conv)
  with httpPingTest_mark show ?thesis by simp
qed

interpretation httpPing: scored_work httpPingWork "\<lambda>r. if jr_Error r = None then nat (fst (jr_ReturnValues r)) else 0" "\<lambda>_. 1"
proof
  show "\<exists>out. httpPingWork j out" for j unfolding httpPingWork_def by (metis snd_conv)
  show "(if jr_Error r = None then nat (fst (jr_ReturnValues r)) else 0) \<le> 1" if "produced httpPingWork r" for r
    using httpPingWork_mark[OF that] by auto
qed

lemma httpPingCollect_marks:
  "\<lbrakk>\<forall>r \<in> set rs. produced httpPingWork r; tres_Marks tr < 2 ^ 64\<rbrakk> \<Longrightarrow>
     tres_Marks (fst (httpPingCollect rs tr g)) =
       (tres_Marks tr + (\<Sum>r \<leftarrow> rs. if jr_Error r = None then nat (fst (jr_ReturnValues r)) else 0)) mod 2 ^ 64 \<and>
     tres_MaxMarks (fst (httpPingCollect rs tr g)) = tres_MaxMarks tr"
proof (induction rs arbitrary: tr g)
  case (Cons r rs)
  have "0 \<le> fst (jr_ReturnValues r)" using Cons.prems httpPingWork_mark[of r] by auto
  with Cons show ?case by (auto simp: addMarks_nat mod_simps add.assoc)
qed simp

lemma httpPing_marks_exact:
  assumes "hpt_configs t \<noteq> []" and "length (hpt_configs t) < 2 ^ 64"
    and "collected httpPingWork ParallelWorkers (httpPingJobs t) rs"
  shows "tres_MaxMarks (fst (HttpPingTest_PerformTest marshal t rs)) = length (hpt_configs t)"
    and "tres_Marks (fst (HttpPingTest_PerformTest marshal t rs)) \<le> length (hpt_configs t)"
    and "tres_Marks (fst (HttpPingTest_PerformTest marshal t rs)) = length (hpt_configs t) \<longleftrightarrow>
      (\<forall>r \<in> set rs. jr_Error r = None \<and> fst (jr_ReturnValues r) = 1)"
proof -
  let ?tr = "\<lparr>tres_Marks = 0, tres_MaxMarks = length (hpt_configs t) mod 2 ^ 64, tres_Details = []\<rparr>"
  let ?sum = "\<Sum>r \<leftarrow> rs. if jr_Error r = None then nat (fst (jr_ReturnValues r)) else (0 :: nat)"
  have w: "0 < ParallelWorkers" by (simp add: ParallelWorkers_def)
  have len: "length (httpPingJobs t) = length (hpt_configs t)" by (simp add: httpPingJobs_def)
  note all = collected_complete(2)[OF w httpPing.work_total assms(3)]
  have "?sum \<le> length (hpt_configs t)" and full: "?sum = length (hpt_configs t) \<longleftrightarrow>
      (\<forall>r \<in> set rs. (if jr_Error r = None then nat (fst (jr_ReturnValues r)) else 0) = 1)"
    using httpPing.collected_score[OF w assms(3)] len by (auto simp: sum_list_triv)
  moreover have "(if jr_Error r = None then nat (fst (jr_ReturnValues r)) else 0) = 1 \<longleftrightarrow>
      jr_Error r = None \<and> fst (jr_ReturnValues r) = 1" for r :: "(HttpPingTestConfig, int \<times> int) JobResult"
    by auto
  moreover obtain tr g where d: "httpPingCollect rs ?tr [] = (tr, g)" by (cases "httpPingCollect rs ?tr []")
  moreover have "tres_Marks (fst (HttpPingTest_PerformTest marshal t rs)) = tres_Marks tr"
    "tres_MaxMarks (fst (HttpPingTest_PerformTest marshal t rs)) = tres_MaxMarks tr"
    using assms(1) d by (simp_all add: HttpPingTest_PerformTest_def Let_def split_beta)
  ultimately show "tres_MaxMarks (fst (HttpPingTest_PerformTest marshal t rs)) = length (hpt_configs t)"
    "tres_Marks (fst (HttpPingTest_PerformTest marshal t rs)) \<le> length (hpt_configs t)"
    "tres_Marks (fst (HttpPingTest_PerformTest marshal t rs)) = length (hpt_configs t) \<longleftrightarrow>
      (\<forall>r \<in> set rs. jr_Error r = None \<and> fst (jr_ReturnValues r) = 1)"
    using httpPingCollect_marks[OF all, of ?tr "[]"] assms(2) by simp_all
qed

subsection \<open>The timeout of one target\<close>

text \<open>
  The time limit of the whole test is divided by the number of targets per worker, rounded down.
  With nine targets and five workers some worker has two targets, and their limits
  together exceed the limit of the test.
\<close>

lemma httpPingTimeout_rounds_down:
  assumes "2 * second < T"
  shows "httpPingTimeout T 9 = T - second \<and> T < 2 * httpPingTimeout T 9"
  using assms by (simp add: httpPingTimeout_def goDiv_def ParallelWorkers_def second_def)

end
