(* ===== verification/PluginRpc.thy ===== *)
theory PluginRpc
  imports CommandPlugins PoolPlugins
begin

text \<open>
  The connection between a test routine and its plugin process (common/syntestGrpcWrapper.go,
  common/interfaces.go, the client stubs of common/proto/syntest_grpc.pb.go and the \<open>main\<close>
  functions of the plugins): the interface a plugin implements, the server and the client of the
  remote calls, and the buffer that carries the logs (agent/utils/syncbuffer.go). The gRPC library
  is a parameter; \<open>grpc_conn\<close> states what it documents of a call.
\<close>

section \<open>The interface of a plugin\<close>

text \<open>The operations on the state of a plugin; None: the plugin panics, which ends its process.\<close>

record 'p SynTestPlugin =
  sp_Initialise :: "SynTestConfig \<Rightarrow> 'p \<Rightarrow> (err option \<times> 'p) option"
  sp_PerformTest :: "Trigger \<Rightarrow> 'p \<Rightarrow> ((TestResult \<times> err option) \<times> 'p) option"
  sp_Finish :: "'p \<Rightarrow> (err option \<times> 'p) option"

section \<open>Server and client\<close>

definition GRPCServer_Initialise :: "'p SynTestPlugin \<Rightarrow> SynTestConfig \<Rightarrow> 'p \<Rightarrow> ((unit \<times> err option) \<times> 'p) option" where
  "GRPCServer_Initialise impl config p = map_option (\<lambda>(e, p). (((), e), p)) (sp_Initialise impl config p)"

definition GRPCServer_PerformTest :: "'p SynTestPlugin \<Rightarrow> Trigger \<Rightarrow> 'p \<Rightarrow> ((TestResult \<times> err option) \<times> 'p) option" where
  "GRPCServer_PerformTest impl trigger p = sp_PerformTest impl trigger p"

definition GRPCServer_Finish :: "'p SynTestPlugin \<Rightarrow> 'p \<Rightarrow> ((unit \<times> err option) \<times> 'p) option" where
  "GRPCServer_Finish impl p = map_option (\<lambda>(e, p). (((), e), p)) (sp_Finish impl p)"

text \<open>
  A call: what the handler on the server returned (None: its process is gone) becomes an error or a
  message for the client. The stub drops the message when there is an error.
\<close>

type_synonym 'r invoke = "('r \<times> err option) option \<Rightarrow> err + 'r"

definition clientStub :: "'r invoke \<Rightarrow> ('r \<times> err option) option \<Rightarrow> 'r option \<times> err option" where
  "clientStub conn reply = (case conn reply of Inl e \<Rightarrow> (None, Some e) | Inr out \<Rightarrow> (Some out, None))"

definition GRPCClient_Initialise :: "unit invoke \<Rightarrow> (unit \<times> err option) option \<Rightarrow> err option" where
  "GRPCClient_Initialise conn reply = snd (clientStub conn reply)"

definition GRPCClient_Finish :: "unit invoke \<Rightarrow> (unit \<times> err option) option \<Rightarrow> err option" where
  "GRPCClient_Finish conn reply = snd (clientStub conn reply)"

text \<open>
  What gRPC documents: a message a handler returns without an error arrives if it can be encoded,
  an error arrives as a status with the text of the error, and a lost process is an error.
\<close>

definition rpcError :: "string \<Rightarrow> string" where
  "rpcError m = ''rpc error: code = Unknown desc = '' @ m"

locale grpc_conn =
  fixes invoke :: "'r invoke" and sendable :: "'r \<Rightarrow> bool"
  assumes delivered: "sendable r \<Longrightarrow> invoke (Some (r, None)) = Inr r"
    and status: "\<exists>e'. invoke (Some (r, Some e)) = Inl e' \<and> err_Error e' = rpcError (err_Error e)"
    and unavailable: "\<exists>e. invoke None = Inl e"
begin

lemma stub_delivered: "sendable r \<Longrightarrow> clientStub invoke (Some (r, None)) = (Some r, None)"
  by (simp add: clientStub_def delivered)

lemma stub_status: "\<exists>e'. clientStub invoke (Some (r, Some e)) = (None, Some e') \<and> err_Error e' = rpcError (err_Error e)"
  using status[of r e] by (auto simp: clientStub_def)

lemma stub_unavailable: "\<exists>e. clientStub invoke None = (None, Some e)"
  using unavailable by (auto simp: clientStub_def)

end

text \<open>A connection that never loses a message.\<close>

fun localInvoke :: "'r invoke" where
  "localInvoke None = Inl (ErrNew ''rpc error: code = Unavailable desc = error reading from server: EOF'')"
| "localInvoke (Some (r, Some e)) = Inl (ErrNew (rpcError (err_Error e)))"
| "localInvoke (Some (r, None)) = Inr r"

interpretation local_conn: grpc_conn localInvoke "\<lambda>_. True"
  by unfold_locales auto

section \<open>The plugins\<close>

text \<open>
  Each \<open>main\<close> serves an implementation that starts with its zero configuration. A plugin that
  fails to initialise is not called again, so its state does not matter then. The plugins with a
  worker pool get the results of a schedule of their workers.
\<close>

definition dnsPlugin :: "(string \<Rightarrow> DNSTestConfig \<times> err option) \<Rightarrow> (PrometheusMetrics \<Rightarrow> err + string)
    \<Rightarrow> (DNSTestConfig \<Rightarrow> (DnsTestJob, int) JobResult list) \<Rightarrow> DNSTestConfig SynTestPlugin" where
  "dnsPlugin parseYML marshal schedule =
     \<lparr>sp_Initialise = (\<lambda>config t. Some (let (c, e) = DNSTest_Initialise parseYML config in (e, c))),
      sp_PerformTest = (\<lambda>_ c. Some (DNSTest_PerformTest marshal c (schedule c), c)),
      sp_Finish = (\<lambda>c. Some (None, c))\<rparr>"

definition netDialPlugin :: "(string \<Rightarrow> NetDialTestConfig \<times> err option) \<Rightarrow> (PrometheusMetrics \<Rightarrow> err + string)
    \<Rightarrow> (NetDialTestConfig \<Rightarrow> (Address, duration) JobResult list) \<Rightarrow> NetDialTestConfig SynTestPlugin" where
  "netDialPlugin parseYML marshal schedule =
     \<lparr>sp_Initialise = (\<lambda>config t. Some (case NetDialTest_Initialise parseYML config of Inl e \<Rightarrow> (Some e, t) | Inr c \<Rightarrow> (None, c))),
      sp_PerformTest = (\<lambda>_ c. Some (NetDialTest_PerformTest marshal c (schedule c), c)),
      sp_Finish = (\<lambda>c. Some (None, c))\<rparr>"

definition httpPingPlugin :: "(string \<Rightarrow> HttpPingTestConfig list \<times> err option) \<Rightarrow> (string \<Rightarrow> HttpPingTestConfig \<times> err option)
    \<Rightarrow> (string \<Rightarrow> err + duration) \<Rightarrow> (PrometheusMetrics \<Rightarrow> err + string)
    \<Rightarrow> (HttpPingTest \<Rightarrow> (HttpPingTestConfig, int \<times> int) JobResult list) \<Rightarrow> HttpPingTest SynTestPlugin" where
  "httpPingPlugin parseList parseOne parseDuration marshal schedule =
     \<lparr>sp_Initialise = (\<lambda>config t. Some (case HttpPingTest_Initialise parseList parseOne parseDuration config of
                          Inl e \<Rightarrow> (Some e, t) | Inr t \<Rightarrow> (None, t))),
      sp_PerformTest = (\<lambda>_ t. Some (HttpPingTest_PerformTest marshal t (schedule t), t)),
      sp_Finish = (\<lambda>t. Some (None, t))\<rparr>"

definition curlPlugin :: "(string \<Rightarrow> CurlTestConfig \<times> err option) \<Rightarrow> (string \<Rightarrow> err + duration) \<Rightarrow> (PrometheusMetrics \<Rightarrow> err + string)
    \<Rightarrow> (string \<Rightarrow> err + float64) \<Rightarrow> (string list \<Rightarrow> duration \<Rightarrow> cmd_env) \<Rightarrow> CurlTest SynTestPlugin" where
  "curlPlugin parseYML parseDuration marshal parseFloat os =
     \<lparr>sp_Initialise = (\<lambda>config _. Some (let (t, e) = CurlTest_Initialise parseYML parseDuration config in (e, t))),
      sp_PerformTest = (\<lambda>_ t. map_option (\<lambda>r. (r, t)) (CurlTest_PerformTest marshal parseFloat os t)),
      sp_Finish = (\<lambda>t. Some (None, t))\<rparr>"

definition pingPlugin :: "(string \<Rightarrow> PingTestConfig \<times> err option) \<Rightarrow> (string \<Rightarrow> err + duration)
    \<Rightarrow> (string \<Rightarrow> bool \<Rightarrow> duration \<Rightarrow> int \<Rightarrow> duration \<Rightarrow> err + int option) \<Rightarrow> PingTest SynTestPlugin" where
  "pingPlugin parseYML parseDuration pinger =
     \<lparr>sp_Initialise = (\<lambda>config _. Some (let (t, e) = PingTest_Initialise parseYML parseDuration config in (e, t))),
      sp_PerformTest = (\<lambda>_ t. Some (PingTest_PerformTest pinger t, t)),
      sp_Finish = (\<lambda>t. Some (None, t))\<rparr>"

text \<open>
  The plugin the template for new plugins generates (agent/plugins/templates/go/test.tpl.go), before
  anything is filled in: it accepts every configuration and fails every test.
\<close>

definition templatePlugin :: "unit SynTestPlugin" where
  "templatePlugin =
     \<lparr>sp_Initialise = (\<lambda>synTestConfig t. Some (None, t)),
      sp_PerformTest = (\<lambda>trigger t. Some ((\<lparr>tres_Marks = 0, tres_MaxMarks = 1, tres_Details = []\<rparr>, None), t)),
      sp_Finish = (\<lambda>t. Some (None, t))\<rparr>"

section \<open>A routine with its plugin\<close>

text \<open>
  What the routine observes of a plugin process: the calls arrive in order, each takes some time,
  and a call that takes longer than its limit ends with the context of the routine.
\<close>

record call_times =
  ct_init :: duration
  ct_perform :: duration
  ct_finish :: duration

definition afterInit :: "'p SynTestPlugin \<Rightarrow> SynTestConfig \<Rightarrow> 'p \<Rightarrow> ((TestResult \<times> err option) \<times> 'p) option" where
  "afterInit impl config p =
     (case GRPCServer_Initialise impl config p of
        None \<Rightarrow> None
      | Some (_, p) \<Rightarrow> GRPCServer_PerformTest impl (Trigger TriggerTypeTimer None []) p)"

definition pluginEnv :: "unit invoke \<Rightarrow> TestResult invoke \<Rightarrow> 'p SynTestPlugin \<Rightarrow> 'p \<Rightarrow> SynTestConfig \<Rightarrow> call_times
    \<Rightarrow> string \<Rightarrow> routine_env" where
  "pluginEnv invE invR impl p config tms logs =
     \<lparr>te_connect = None,
      te_initialise = (\<lambda>limit. if limit < ct_init tms then CtxEnds CtxDeadlineExceeded
         else Returns (GRPCClient_Initialise invE (map_option fst (GRPCServer_Initialise impl config p)))),
      te_perform = (\<lambda>limit. if limit < ct_perform tms then PerformEnds CtxDeadlineExceeded
         else (case clientStub invR (map_option fst (afterInit impl config p)) of (res, e) \<Rightarrow> Replies res e)),
      te_finish = (\<lambda>limit. if limit < ct_finish tms then CtxEnds CtxDeadlineExceeded
         else Returns (GRPCClient_Finish invE (case afterInit impl config p of
           None \<Rightarrow> None | Some (_, p) \<Rightarrow> map_option fst (GRPCServer_Finish impl p)))),
      te_id = [], te_start = [], te_end = [], te_logs = Inr logs, te_initLogs = logs\<rparr>"

lemma plugin_run:
  assumes "grpc_conn invE sendE" and "grpc_conn invR sendR" and "str_cmd str \<noteq> []" and "sendE ()"
    and "sp_Initialise impl (str_config str) p = Some (None, p1)" and "ct_init tms \<le> it" and "ct_perform tms \<le> rt"
    and "env = pluginEnv invE invR impl p (str_config str) tms logs"
  shows "\<exists>out run. testPlugin md5 str env it rt ft = Some out \<and> out_run out = Some run \<and>
    (case sp_PerformTest impl (Trigger TriggerTypeTimer None []) p1 of
       Some ((r, None), _) \<Rightarrow> sendR r \<longrightarrow> tr_TestResult run = r \<and> map_of (tr_Details run) ErrorKey = None \<and> out_err out = None
     | Some ((r, Some e), _) \<Rightarrow> tr_TestResult run = FailedTestResult \<and>
         map_of (tr_Details run) ErrorKey = Some (rpcError (err_Error e)) \<and> out_err out \<noteq> None
     | None \<Rightarrow> tr_TestResult run = FailedTestResult \<and> out_err out \<noteq> None)"
proof -
  have init: "runFuncWithTimeout (te_initialise env it) = None"
    using grpc_conn.stub_delivered[OF assms(1,4)] assms(5,6,8)
    by (simp add: pluginEnv_def GRPCClient_Initialise_def GRPCServer_Initialise_def)
  obtain res e where reply: "clientStub invR (map_option fst (sp_PerformTest impl (Trigger TriggerTypeTimer None []) p1)) = (res, e)"
    by (cases "clientStub invR (map_option fst (sp_PerformTest impl (Trigger TriggerTypeTimer None []) p1))")
  have perform: "te_perform env rt = Replies res e"
    using reply assms(5,7,8)
    by (simp add: pluginEnv_def afterInit_def GRPCServer_Initialise_def GRPCServer_PerformTest_def)
  obtain run printed e1 where r: "runTest md5 str env (Trigger TriggerTypeTimer None []) rt = (run, printed, e1)"
    by (cases "runTest md5 str env (Trigger TriggerTypeTimer None []) rt")
  obtain out where out: "testPlugin md5 str env it rt ft = Some out" "out_run out = Some run" "out_err out = e1"
    using assms(3,8) init r by (cases e1) (auto simp: testPlugin_eq pluginEnv_def)
  have run: "tr_TestResult run = (case res of None \<Rightarrow> FailedTestResult | Some x \<Rightarrow> x)"
    "map_of (tr_Details run) ErrorKey = map_option err_Error e1"
    "e1 = (case e of Some e \<Rightarrow> Some (if e = CtxDeadlineExceeded then ErrWrap ''test hit timeout'' e else e) | None \<Rightarrow> None)"
    using r perform runTest_facts(4)[OF r]
    by (auto simp: runTest_def performTest_def GRPCClient_PerformTest_def Let_def split_beta split: option.splits)
  show ?thesis
  proof (cases "sp_PerformTest impl (Trigger TriggerTypeTimer None []) p1")
    case None
    with reply grpc_conn.stub_unavailable[OF assms(2)] have "res = None" "e \<noteq> None" by auto
    with None out run show ?thesis by auto
  next
    case (Some q)
    obtain x er p2 where q: "q = ((x, er), p2)" by (cases q) auto
    show ?thesis
    proof (cases er)
      case None
      have "sendR x \<longrightarrow> res = Some x \<and> e = None"
        using reply grpc_conn.stub_delivered[OF assms(2), of x] Some q None by auto
      with Some q None out run show ?thesis by auto
    next
      case (Some e0)
      obtain e' where e': "res = None" "e = Some e'" "err_Error e' = rpcError (err_Error e0)"
        using reply grpc_conn.stub_status[OF assms(2), of x e0] \<open>sp_PerformTest impl (Trigger TriggerTypeTimer None []) p1 = Some q\<close> q Some
        by auto
      then have "e' \<noteq> CtxDeadlineExceeded" by (auto simp: rpcError_def)
      with e' out run Some \<open>sp_PerformTest impl (Trigger TriggerTypeTimer None []) p1 = Some q\<close> q show ?thesis by auto
    qed
  qed
qed

text \<open>A new plugin from the template reports failed runs, without an error, until it is filled in.\<close>

lemma template_run_fails:
  assumes "grpc_conn invE sendE" and "grpc_conn invR sendR" and "str_cmd str \<noteq> []" and "sendE ()" and "\<forall>r. sendR r"
    and "ct_init tms \<le> it" and "ct_perform tms \<le> rt" and "env = pluginEnv invE invR templatePlugin p (str_config str) tms logs"
  shows "\<exists>out run. testPlugin md5 str env it rt ft = Some out \<and> out_run out = Some run \<and> out_err out = None \<and>
    tres_Marks (tr_TestResult run) = 0 \<and> tres_MaxMarks (tr_TestResult run) = 1"
proof -
  have "sp_Initialise templatePlugin (str_config str) p = Some (None, p)" by (simp add: templatePlugin_def)
  from plugin_run[OF assms(1-4) this assms(6-8), of md5 ft] assms(5) show ?thesis by (auto simp: templatePlugin_def)
qed

section \<open>The log buffer\<close>

text \<open>
  The lock makes each operation one step. \<open>Read\<close> into a slice of \<open>n\<close> bytes reports the end of
  the buffer (None) when it is empty and the slice is not.
\<close>

definition Buffer_Write :: "string \<Rightarrow> string \<Rightarrow> string" where
  "Buffer_Write p b = b @ p"

definition Buffer_Read :: "nat \<Rightarrow> string \<Rightarrow> string option \<times> string" where
  "Buffer_Read n b = (if b = [] \<and> 0 < n then (None, []) else (Some (take n b), drop n b))"

definition Buffer_String :: "string \<Rightarrow> string" where
  "Buffer_String b = b"

definition Buffer_Reset :: "string \<Rightarrow> string" where
  "Buffer_Reset b = []"

text \<open>
  \<open>ioutil.ReadAll\<close>: it reads until the end of the buffer. Before each read the plugin may have
  written more; a round is what was written and the room of the read. The result is what was read,
  what is left, and whether the end was met.
\<close>

fun ReadAll :: "(string \<times> nat) list \<Rightarrow> string \<Rightarrow> string \<Rightarrow> string \<times> string \<times> bool" where
  "ReadAll [] b acc = (acc, b, False)"
| "ReadAll ((p, n) # rounds) b acc =
     (case Buffer_Read n (Buffer_Write p b) of
        (None, b) \<Rightarrow> (acc, b, True)
      | (Some x, b) \<Rightarrow> ReadAll rounds b (acc @ x))"

lemma ReadAll_fifo:
  "ReadAll rounds b acc = (out, rest, done) \<Longrightarrow>
     \<exists>k \<le> length rounds. out @ rest = acc @ b @ concat (map fst (take k rounds)) \<and> (done \<longrightarrow> rest = [])"
proof (induction rounds b acc rule: ReadAll.induct)
  case (2 p n rounds b acc)
  show ?case
  proof (cases "b @ p = [] \<and> 0 < n")
    case True
    with 2(2) show ?thesis by (intro exI[of _ 1]) (auto simp: Buffer_Read_def Buffer_Write_def)
  next
    case False
    then have r: "Buffer_Read n (Buffer_Write p b) = (Some (take n (b @ p)), drop n (b @ p))"
      by (simp add: Buffer_Read_def Buffer_Write_def)
    from 2(1)[OF r[symmetric] refl] 2(2) r obtain k where k: "k \<le> length rounds"
      "out @ rest = (acc @ take n (b @ p)) @ drop n (b @ p) @ concat (map fst (take k rounds))" "done \<longrightarrow> rest = []"
      by auto
    then have "out @ rest = acc @ b @ concat (map fst (take (Suc k) ((p, n) # rounds)))"
      using append_take_drop_id[of n "b @ p"] by (metis append.assoc concat.simps(2) fst_conv list.simps(9) take_Suc_Cons)
    with k show ?thesis by (intro exI[of _ "Suc k"]) auto
  qed
qed (auto intro!: exI[of _ 0])

lemma ReadAll_ends:
  assumes "\<forall>r \<in> set rounds. 0 < snd r" and "length b + length (concat (map fst rounds)) < length rounds"
  shows "\<exists>out. ReadAll rounds b acc = (out, [], True)"
  using assms
proof (induction rounds arbitrary: b acc)
  case (Cons r rounds)
  obtain p n where r: "r = (p, n)" "0 < n" using Cons.prems(1) by (cases r) auto
  show ?case
  proof (cases "b @ p = []")
    case True
    with r show ?thesis by (simp add: Buffer_Read_def Buffer_Write_def)
  next
    case False
    define d where "d = length (drop n (b @ p))"
    have "0 < length (b @ p)" using False by simp
    then have "d < length b + length p" using r(2) unfolding d_def length_drop length_append by linarith
    then have "d + length (concat (map fst rounds)) < length rounds" using Cons.prems(2) r(1) by simp
    then have "length (drop n (b @ p)) + length (concat (map fst rounds)) < length rounds" unfolding d_def .
    with Cons r False show ?thesis by (simp add: Buffer_Read_def Buffer_Write_def)
  qed
qed simp



section \<open>Properties\<close>


definition quick :: call_times where
  "quick = \<lparr>ct_init = 0, ct_perform = 0, ct_finish = 0\<rparr>"



definition exampleDNS :: DNSTestConfig where
  "exampleDNS = \<lparr>dns_Domains = [''a.example'', ''b.example''], dns_Workers = 3, dns_Repeats = 2\<rparr>"


end
