(* ===== verification/JsonPing.thy ===== *)
theory JsonPing
  imports PluginRpc "HOL-Library.Sublist"
begin

text \<open>
  The JSON ping plugin, which is written in Python
  (agent/plugins/syntests-python/json-ping/test-json-ping.py): a server of the same protocol without
  the Go wrapper around it. Its configuration is whatever YAML value the test carries, so the model
  has Python's values and the exceptions of reading them. YAML, the HTTP request, the query language
  and regular expressions are libraries, and parameters here.
\<close>

section \<open>Python values\<close>

datatype pyval = PyNone | PyStr string | PyList "pyval list" | PyDict "(pyval \<times> pyval) list" | PyScalar string

datatype pyexc = ValueError string | KeyError string | TypeError | Raised string

text \<open>Membership, subscription with a string, length and iteration, as Python defines them per type.\<close>

fun pyIn :: "string \<Rightarrow> pyval \<Rightarrow> pyexc + bool" where
  "pyIn k (PyDict d) = Inr (PyStr k \<in> fst ` set d)"
| "pyIn k (PyList xs) = Inr (PyStr k \<in> set xs)"
| "pyIn k (PyStr s) = Inr (sublist k s)"
| "pyIn k _ = Inl TypeError"

fun pyGet :: "pyval \<Rightarrow> string \<Rightarrow> pyexc + pyval" where
  "pyGet (PyDict d) k = (case map_of d (PyStr k) of None \<Rightarrow> Inl (KeyError k) | Some x \<Rightarrow> Inr x)"
| "pyGet _ k = Inl TypeError"

fun pyItems :: "pyval \<Rightarrow> pyexc + pyval list" where
  "pyItems (PyDict d) = Inr (map fst d)"
| "pyItems (PyList xs) = Inr xs"
| "pyItems (PyStr s) = Inr (map (\<lambda>c. PyStr [c]) s)"
| "pyItems _ = Inl TypeError"

section \<open>The code\<close>

text \<open>The libraries: the YAML loader, the request with its JSON body, queries, and searches for an expression.\<close>

record py_libs =
  py_yaml :: "string \<Rightarrow> pyexc + pyval"
  py_fetch :: "pyval \<Rightarrow> pyexc + pyval"
  py_jmespath :: "pyval \<Rightarrow> pyval \<Rightarrow> pyexc + pyval"
  py_search :: "pyval \<Rightarrow> pyval \<Rightarrow> pyexc + bool"

definition JsonPing_init :: pyval where
  "JsonPing_init = PyDict []"

definition checkKey :: "string \<Rightarrow> pyval \<Rightarrow> pyexc option" where
  "checkKey k c = (case pyIn k c of
     Inl e \<Rightarrow> Some e
   | Inr present \<Rightarrow> if present then None else Some (KeyError (''expected key: '' @ [CHR 0x27] @ k @ [CHR 0x27] @ '' not found'')))"

definition JsonPing_Initialise :: "py_libs \<Rightarrow> SynTestConfig \<Rightarrow> pyval \<Rightarrow> pyexc option \<times> pyval" where
  "JsonPing_Initialise libs test_config self =
     (case py_yaml libs (stc_Config test_config) of
        Inl e \<Rightarrow> (Some e, self)
      | Inr c \<Rightarrow>
          if c = PyNone then (Some (ValueError ''Invalid yaml config''), self)
          else (case checkKey ''url'' c of Some e \<Rightarrow> (Some e, c) | None \<Rightarrow> (checkKey ''queries'' c, c)))"

text \<open>
  One query. Its two entries are read for the log before the block that catches exceptions, so a
  missing one ends the test; an exception of the query or of the search only costs the mark.
\<close>

definition queryPasses :: "py_libs \<Rightarrow> pyval \<Rightarrow> pyval \<Rightarrow> pyval \<Rightarrow> bool" where
  "queryPasses libs response query expected =
     (case py_jmespath libs query response of
        Inl e \<Rightarrow> False
      | Inr result \<Rightarrow> (case py_search libs expected result of Inl e \<Rightarrow> False | Inr found \<Rightarrow> found))"

fun queryLoop :: "py_libs \<Rightarrow> pyval \<Rightarrow> pyval list \<Rightarrow> nat \<Rightarrow> pyexc + nat" where
  "queryLoop libs response [] marks = Inr marks"
| "queryLoop libs response (q # qs) marks =
     (case pyGet q ''query'' of
        Inl e \<Rightarrow> Inl e
      | Inr query \<Rightarrow>
          (case pyGet q ''expected'' of
             Inl e \<Rightarrow> Inl e
           | Inr expected \<Rightarrow>
               queryLoop libs response qs (if queryPasses libs response query expected then marks + 1 else marks)))"

definition JsonPing_PerformTest :: "py_libs \<Rightarrow> pyval \<Rightarrow> pyexc + TestResult" where
  "JsonPing_PerformTest libs self =
     (case pyGet self ''url'' of
        Inl e \<Rightarrow> Inl e
      | Inr url \<Rightarrow>
          (case py_fetch libs url of
             Inl e \<Rightarrow> Inl e
           | Inr response \<Rightarrow>
               (case pyGet self ''queries'' of
                  Inl e \<Rightarrow> Inl e
                | Inr queries \<Rightarrow>
                    (case pyItems queries of
                       Inl e \<Rightarrow> Inl e
                     | Inr qs \<Rightarrow>
                         (case queryLoop libs response qs 0 of
                            Inl e \<Rightarrow> Inl e
                          | Inr marks \<Rightarrow> Inr \<lparr>tres_Marks = marks, tres_MaxMarks = length qs, tres_Details = []\<rparr>)))))"

text \<open>
  The plugin behind the server: the gRPC library turns an exception of a handler into an error with
  the text of the exception, which is a parameter.
\<close>

definition handlerError :: "(pyexc \<Rightarrow> string) \<Rightarrow> pyexc \<Rightarrow> err" where
  "handlerError str_exc e = ErrNew (''Exception calling application: '' @ str_exc e)"

definition jsonPingPlugin :: "(pyexc \<Rightarrow> string) \<Rightarrow> py_libs \<Rightarrow> pyval SynTestPlugin" where
  "jsonPingPlugin str_exc libs =
     \<lparr>sp_Initialise = (\<lambda>config self. Some (let (e, self) = JsonPing_Initialise libs config self
        in (map_option (handlerError str_exc) e, self))),
      sp_PerformTest = (\<lambda>_ self. Some (case JsonPing_PerformTest libs self of
        Inl e \<Rightarrow> ((FailedTestResult, Some (handlerError str_exc e)), self)
      | Inr r \<Rightarrow> ((r, None), self))),
      sp_Finish = (\<lambda>self. Some (None, self))\<rparr>"

section \<open>Properties\<close>

definition complete :: "pyval \<Rightarrow> bool" where
  "complete q \<longleftrightarrow> (\<exists>x. pyGet q ''query'' = Inr x) \<and> (\<exists>x. pyGet q ''expected'' = Inr x)"

definition passesAt :: "py_libs \<Rightarrow> pyval \<Rightarrow> pyval \<Rightarrow> bool" where
  "passesAt libs response q \<longleftrightarrow>
     (\<exists>query expected. pyGet q ''query'' = Inr query \<and> pyGet q ''expected'' = Inr expected \<and>
       queryPasses libs response query expected)"

lemma queryLoop_marks:
  "list_all complete qs \<Longrightarrow> queryLoop libs response qs m = Inr (m + length (filter (passesAt libs response) qs))"
  by (induction qs arbitrary: m) (auto simp: complete_def passesAt_def)

lemma queryLoop_incomplete: "\<not> list_all complete qs \<Longrightarrow> \<exists>e. queryLoop libs response qs m = Inl e"
  by (induction qs arbitrary: m) (auto simp: complete_def split: sum.splits)

lemma filter_full: "length (filter P xs) = length xs \<longleftrightarrow> list_all P xs"
proof (induction xs)
  case (Cons x xs)
  then show ?case using length_filter_le[of P xs] by (cases "P x") (simp_all add: order.strict_implies_not_eq less_Suc_eq_le)
qed simp

text \<open>A configuration that is a mapping with an address and a list of queries is accepted.\<close>

lemma JsonPing_accepts:
  assumes "py_yaml libs (stc_Config cfg) = Inr (PyDict d)" and "map_of d (PyStr ''url'') = Some url"
    and "map_of d (PyStr ''queries'') = Some qs"
  shows "JsonPing_Initialise libs cfg self = (None, PyDict d)"
proof -
  have "PyStr ''url'' \<in> fst ` set d" "PyStr ''queries'' \<in> fst ` set d"
    using assms(2,3) by (force dest!: map_of_SomeD)+
  then show ?thesis using assms(1) by (simp add: JsonPing_Initialise_def checkKey_def)
qed

text \<open>
  A configuration that is a text is accepted as well when both words occur in it, because Python
  then looks for a substring; the test itself fails.
\<close>

lemma JsonPing_text_accepted:
  assumes "py_yaml libs (stc_Config cfg) = Inr (PyStr t)" and "sublist ''url'' t" "sublist ''queries'' t"
  shows "JsonPing_Initialise libs cfg self = (None, PyStr t) \<and> JsonPing_PerformTest libs (PyStr t) = Inl TypeError"
  using assms by (simp add: JsonPing_Initialise_def checkKey_def JsonPing_PerformTest_def)


definition exampleQueries :: "pyval list" where
  "exampleQueries = [PyDict [(PyStr ''query'', PyStr ''ip''), (PyStr ''expected'', PyStr ''4'')],
     PyDict [(PyStr ''query'', PyStr ''port''), (PyStr ''expected'', PyStr ''8'')]]"

definition exampleLibs :: py_libs where
  "exampleLibs = \<lparr>py_yaml = (\<lambda>_. Inr (PyDict [(PyStr ''url'', PyStr ''u''), (PyStr ''queries'', PyList exampleQueries)])),
     py_fetch = (\<lambda>_. Inr PyNone), py_jmespath = (\<lambda>q _. Inr q), py_search = (\<lambda>_ x. Inr (x = PyStr ''ip''))\<rparr>"


end
