(* ===== verification/Broadcaster.thy ===== *)
theory Broadcaster
  imports Models
begin

text \<open>
  The broadcaster of agent/utils/broadcaster.go, by which the test routines of an agent learn of
  each other's runs. The channels of the broadcaster and of its listeners are queues with a
  capacity; \<open>bc_heap\<close> holds the channels that were made, by address. A receive from an empty
  channel waits, and a send to a channel with a waiting receiver hands the value over. Which
  goroutine moves next is not determined: the executions are the sequences of steps of a relation.
  \<open>ch_out\<close>, \<open>bc_published\<close> and \<open>bc_log\<close> are history variables: what was received from
  a channel, what was published, and what the loop has taken from the publish channel.
\<close>

section \<open>State\<close>

record chan =
  ch_cap :: nat
  ch_queue :: "TestRun list"
  ch_waiting :: bool
  ch_out :: "TestRun list"

record Listener =
  ls_ResCh :: nat
  ls_Name :: string
  ls_ChannelSize :: nat

record Broadcaster =
  bc_testRunSubCh :: "Listener list"
  bc_testRunUnsubCh :: "nat list"
  bc_testRunPubCh :: "TestRun list"
  bc_stopCh :: bool
  bc_testRunSubs :: "(nat \<times> Listener) list"
  bc_running :: bool
  bc_heap :: "nat \<rightharpoonup> chan"
  bc_next :: nat
  bc_published :: "TestRun list"
  bc_log :: "TestRun list"

definition BroadcasterPublishChannelSize :: nat where "BroadcasterPublishChannelSize = 1000"

definition NewBroadcaster :: Broadcaster where
  "NewBroadcaster = \<lparr>bc_testRunSubCh = [], bc_testRunUnsubCh = [], bc_testRunPubCh = [], bc_stopCh = False,
     bc_testRunSubs = [], bc_running = True, bc_heap = Map.empty, bc_next = 0, bc_published = [], bc_log = []\<rparr>"

section \<open>Operations of the clients\<close>

text \<open>None: the send blocks, or the closed channel is closed again.\<close>

definition PublishTestRun :: "TestRun \<Rightarrow> Broadcaster \<Rightarrow> Broadcaster option" where
  "PublishTestRun testRun b =
     (if length (bc_testRunPubCh b) < BroadcasterPublishChannelSize
      then Some (b\<lparr>bc_testRunPubCh := bc_testRunPubCh b @ [testRun], bc_published := bc_published b @ [testRun]\<rparr>)
      else None)"

definition SubscribeToTestRuns :: "string \<Rightarrow> nat \<Rightarrow> Broadcaster \<Rightarrow> (nat \<times> Broadcaster) option" where
  "SubscribeToTestRuns listenerName channelSize b =
     (let resCh = bc_next b;
          c = \<lparr>ch_cap = channelSize, ch_queue = [], ch_waiting = False, ch_out = []\<rparr>
      in if length (bc_testRunSubCh b) < 1
         then Some (resCh, b\<lparr>bc_heap := (bc_heap b)(resCh \<mapsto> c), bc_next := resCh + 1,
                bc_testRunSubCh := bc_testRunSubCh b @
                  [\<lparr>ls_ResCh = resCh, ls_Name = listenerName, ls_ChannelSize = channelSize\<rparr>]\<rparr>)
         else None)"

definition UnsubscribeFromTestRuns :: "nat \<Rightarrow> Broadcaster \<Rightarrow> Broadcaster option" where
  "UnsubscribeFromTestRuns rCh b =
     (if length (bc_testRunUnsubCh b) < 1 then Some (b\<lparr>bc_testRunUnsubCh := bc_testRunUnsubCh b @ [rCh]\<rparr>) else None)"

definition Broadcaster_Stop :: "Broadcaster \<Rightarrow> Broadcaster option" where
  "Broadcaster_Stop b = (if bc_stopCh b then None else Some (b\<lparr>bc_stopCh := True\<rparr>))"

text \<open>A listener receives, or gives up waiting because another case of its select is ready.\<close>

definition receiveRun :: "chan \<Rightarrow> chan" where
  "receiveRun c = (case ch_queue c of
     r # rs \<Rightarrow> c\<lparr>ch_queue := rs, ch_out := ch_out c @ [r]\<rparr>
   | [] \<Rightarrow> c\<lparr>ch_waiting := True\<rparr>)"

definition abandon :: "chan \<Rightarrow> chan" where
  "abandon c = c\<lparr>ch_waiting := False\<rparr>"

section \<open>The loop of Start\<close>

text \<open>The select with a default: hand over, buffer, or drop.\<close>

definition trySend :: "TestRun \<Rightarrow> chan \<Rightarrow> chan" where
  "trySend res c =
     (if ch_waiting c then c\<lparr>ch_waiting := False, ch_out := ch_out c @ [res]\<rparr>
      else if length (ch_queue c) < ch_cap c then c\<lparr>ch_queue := ch_queue c @ [res]\<rparr>
      else c)"

definition deliver :: "TestRun \<Rightarrow> (nat \<times> Listener) list \<Rightarrow> (nat \<rightharpoonup> chan) \<Rightarrow> (nat \<rightharpoonup> chan)" where
  "deliver res subs heap = fold (\<lambda>(resCh, listener) h. h(resCh := map_option (trySend res) (h resCh))) subs heap"

datatype loop_case = OnStop | OnSub | OnUnsub | OnPub

text \<open>One case of the select; None when it is not ready.\<close>

fun Broadcaster_Start :: "loop_case \<Rightarrow> Broadcaster \<Rightarrow> Broadcaster option" where
  "Broadcaster_Start OnStop b = (if bc_stopCh b then Some (b\<lparr>bc_running := False\<rparr>) else None)"
| "Broadcaster_Start OnSub b =
     (case bc_testRunSubCh b of
        [] \<Rightarrow> None
      | listener # rest \<Rightarrow> Some (b\<lparr>bc_testRunSubCh := rest,
            bc_testRunSubs := AList.update (ls_ResCh listener) listener (bc_testRunSubs b)\<rparr>))"
| "Broadcaster_Start OnUnsub b =
     (case bc_testRunUnsubCh b of
        [] \<Rightarrow> None
      | ch # rest \<Rightarrow> Some (b\<lparr>bc_testRunUnsubCh := rest, bc_testRunSubs := AList.delete ch (bc_testRunSubs b)\<rparr>))"
| "Broadcaster_Start OnPub b =
     (case bc_testRunPubCh b of
        [] \<Rightarrow> None
      | res # rest \<Rightarrow> Some (b\<lparr>bc_testRunPubCh := rest, bc_log := bc_log b @ [res],
            bc_heap := deliver res (bc_testRunSubs b) (bc_heap b)\<rparr>))"

section \<open>Executions\<close>

inductive bstep :: "Broadcaster \<Rightarrow> Broadcaster \<Rightarrow> bool" where
  publish: "PublishTestRun r b = Some b' \<Longrightarrow> bstep b b'"
| subscribe: "SubscribeToTestRuns name n b = Some (ch, b') \<Longrightarrow> bstep b b'"
| unsubscribe: "UnsubscribeFromTestRuns ch b = Some b' \<Longrightarrow> bstep b b'"
| stop: "Broadcaster_Stop b = Some b' \<Longrightarrow> bstep b b'"
| loop: "\<lbrakk>bc_running b; Broadcaster_Start k b = Some b'\<rbrakk> \<Longrightarrow> bstep b b'"
| listen: "bc_heap b ch = Some c \<Longrightarrow> bstep b (b\<lparr>bc_heap := (bc_heap b)(ch \<mapsto> receiveRun c)\<rparr>)"
| giveUp: "bc_heap b ch = Some c \<Longrightarrow> bstep b (b\<lparr>bc_heap := (bc_heap b)(ch \<mapsto> abandon c)\<rparr>)"

text \<open>What a listener has got or will get from its channel.\<close>

definition content :: "chan \<Rightarrow> TestRun list" where
  "content c = ch_out c @ ch_queue c"

text \<open>There is room for one more run: the listener waits, or its buffer is not full.\<close>

definition roomFor :: "chan \<Rightarrow> bool" where
  "roomFor c \<longleftrightarrow> ch_waiting c \<or> length (ch_queue c) < ch_cap c"

definition chanOk :: "TestRun list \<Rightarrow> chan \<Rightarrow> bool" where
  "chanOk log c \<longleftrightarrow> length (ch_queue c) \<le> ch_cap c \<and> (ch_waiting c \<longrightarrow> ch_queue c = []) \<and> subseq (content c) log"

definition broadcastInv :: "Broadcaster \<Rightarrow> bool" where
  "broadcastInv b \<longleftrightarrow>
     length (bc_testRunPubCh b) \<le> BroadcasterPublishChannelSize \<and> bc_published b = bc_log b @ bc_testRunPubCh b \<and>
     gwf (bc_testRunSubs b) \<and> (\<forall>ch c. bc_heap b ch = Some c \<longrightarrow> chanOk (bc_log b) c)"

lemma deliver_exact:
  "gwf subs \<Longrightarrow> deliver res subs heap ch = (if ch \<in> fst ` set subs then map_option (trySend res) (heap ch) else heap ch)"
proof (induction subs arbitrary: heap)
  case (Cons p subs)
  obtain a l where p: "p = (a, l)" by (cases p)
  have g: "gwf subs" "a \<notin> fst ` set subs" using Cons.prems p by (auto simp: gwf_def)
  define h where "h = heap(a := map_option (trySend res) (heap a))"
  have "deliver res (p # subs) heap = deliver res subs h" by (simp add: deliver_def p h_def)
  moreover have "h ch = (if ch = a then map_option (trySend res) (heap a) else heap ch)" by (simp add: h_def)
  ultimately show ?case using Cons.IH[OF g(1), of h] g(2) p by auto
qed (simp add: deliver_def)

lemma trySend_content: "chanOk log c \<Longrightarrow> content (trySend res c) = (if roomFor c then content c @ [res] else content c)"
  by (auto simp: trySend_def roomFor_def content_def chanOk_def)

lemma trySend_ok: "chanOk log c \<Longrightarrow> chanOk (log @ [res]) (trySend res c)"
proof -
  assume c: "chanOk log c"
  then have "subseq (content (trySend res c)) (log @ [res])"
    by (auto simp: trySend_content chanOk_def)
  with c show ?thesis by (auto simp: chanOk_def trySend_def)
qed

lemma chanOk_append: "chanOk log c \<Longrightarrow> chanOk (log @ [res]) c"
  by (auto simp: chanOk_def)

lemma receive_ok: "chanOk log c \<Longrightarrow> chanOk log (receiveRun c)" "chanOk log c \<Longrightarrow> chanOk log (abandon c)"
  by (auto simp: chanOk_def receiveRun_def abandon_def content_def split: list.split)

lemma receive_content [simp]: "content (receiveRun c) = content c" "content (abandon c) = content c"
  by (auto simp: receiveRun_def abandon_def content_def split: list.split)

lemma bstep_inv: "bstep b b' \<Longrightarrow> broadcastInv b \<Longrightarrow> broadcastInv b'"
proof (induction rule: bstep.induct)
  case (loop b k b')
  show ?case
  proof (cases k)
    case OnPub
    with loop obtain res rest where r: "bc_testRunPubCh b = res # rest" and b': "b' = b\<lparr>bc_testRunPubCh := rest,
        bc_log := bc_log b @ [res], bc_heap := deliver res (bc_testRunSubs b) (bc_heap b)\<rparr>"
      by (auto split: list.splits)
    have "chanOk (bc_log b @ [res]) c" if "deliver res (bc_testRunSubs b) (bc_heap b) ch = Some c" for ch c
      using that loop.prems by (auto simp: broadcastInv_def deliver_exact trySend_ok chanOk_append split: if_splits)
    with r b' loop.prems show ?thesis by (auto simp: broadcastInv_def)
  qed (use loop in \<open>auto simp: broadcastInv_def split: list.splits if_splits\<close>)
next
  case (subscribe name n b ch b')
  have "chanOk (bc_log b) \<lparr>ch_cap = n, ch_queue = [], ch_waiting = False, ch_out = []\<rparr>"
    by (simp add: chanOk_def content_def)
  with subscribe show ?case by (auto simp: broadcastInv_def SubscribeToTestRuns_def Let_def split: if_splits)
qed (auto simp: broadcastInv_def PublishTestRun_def UnsubscribeFromTestRuns_def Broadcaster_Stop_def receive_ok
    split: if_splits)

lemma broadcast_reachable: "bstep\<^sup>*\<^sup>* NewBroadcaster b \<Longrightarrow> broadcastInv b"
proof (induction rule: rtranclp_induct)
  case base
  show ?case by (simp add: broadcastInv_def NewBroadcaster_def)
qed (rule bstep_inv)

section \<open>What listeners receive\<close>

text \<open>
  C22. No listener sees runs out of order, twice or from nowhere: in every reachable state, what
  a listener has received followed by what is in its buffer is a subsequence of the runs the
  broadcaster has processed, these are the first of the runs that were published, and no buffer
  exceeds its capacity.
\<close>

theorem broadcast_in_order:
  assumes "bstep\<^sup>*\<^sup>* NewBroadcaster b" and "bc_heap b ch = Some c"
  shows "subseq (ch_out c @ ch_queue c) (bc_log b) \<and> prefix (bc_log b) (bc_published b) \<and>
    length (ch_queue c) \<le> ch_cap c \<and> length (bc_testRunPubCh b) \<le> BroadcasterPublishChannelSize"
  using broadcast_reachable[OF assms(1)] assms(2) by (auto simp: broadcastInv_def chanOk_def content_def)

text \<open>A run is published to one listener, and delivered.\<close>

definition publishedRun :: TestRun where
  "publishedRun = TestRun ''run-1'' ''pod-1/heart'' [] [] zeroSynTestConfig (Trigger TriggerTypeTimer None []) FailedTestResult []"

definition examplePublished :: Broadcaster where
  "examplePublished = NewBroadcaster
     \<lparr>bc_heap := [0 \<mapsto> \<lparr>ch_cap = 2, ch_queue = [], ch_waiting = False, ch_out = []\<rparr>], bc_next := 1,
      bc_testRunSubs := [(0, \<lparr>ls_ResCh = 0, ls_Name = ''ext-storage-manager'', ls_ChannelSize = 2\<rparr>)],
      bc_testRunPubCh := [publishedRun], bc_published := [publishedRun]\<rparr>"

definition exampleDelivered :: Broadcaster where
  "exampleDelivered = examplePublished
     \<lparr>bc_heap := [0 \<mapsto> \<lparr>ch_cap = 2, ch_queue = [publishedRun], ch_waiting = False, ch_out = []\<rparr>],
      bc_testRunPubCh := [], bc_log := [publishedRun]\<rparr>"

lemma examplePublished_reachable: "bstep\<^sup>*\<^sup>* NewBroadcaster examplePublished"
proof -
  let ?l = "\<lparr>ls_ResCh = 0, ls_Name = ''ext-storage-manager'', ls_ChannelSize = 2\<rparr>"
  let ?b1 = "NewBroadcaster\<lparr>bc_heap := [0 \<mapsto> \<lparr>ch_cap = 2, ch_queue = [], ch_waiting = False, ch_out = []\<rparr>],
    bc_next := 1, bc_testRunSubCh := [?l]\<rparr>"
  let ?b2 = "?b1\<lparr>bc_testRunSubCh := [], bc_testRunSubs := [(0, ?l)]\<rparr>"
  have "SubscribeToTestRuns ''ext-storage-manager'' 2 NewBroadcaster = Some (0, ?b1)"
    by (simp add: SubscribeToTestRuns_def NewBroadcaster_def)
  moreover have "bc_running ?b1" "Broadcaster_Start OnSub ?b1 = Some ?b2" by (simp_all add: NewBroadcaster_def)
  moreover have "PublishTestRun publishedRun ?b2 = Some examplePublished"
    by (simp add: PublishTestRun_def NewBroadcaster_def BroadcasterPublishChannelSize_def examplePublished_def)
  ultimately show ?thesis by (meson bstep.intros rtranclp.rtrancl_into_rtrancl rtranclp.rtrancl_refl)
qed

lemma exampleDelivered_step: "bstep examplePublished exampleDelivered"
  by (rule bstep.loop[of _ OnPub])
    (simp_all add: examplePublished_def exampleDelivered_def NewBroadcaster_def deliver_def trySend_def)

theorem broadcast_in_order_witness:
  "\<exists>c. bc_heap exampleDelivered 0 = Some c \<and> ch_queue c = [publishedRun] \<and> subseq (ch_out c @ ch_queue c) (bc_log exampleDelivered)"
  using broadcast_in_order[OF rtranclp.rtrancl_into_rtrancl[OF examplePublished_reachable exampleDelivered_step], of 0]
  by (simp add: exampleDelivered_def)

text \<open>
  The steps of a period in which a subscribed listener keeps up: its unsubscription is not
  processed, and whenever a run is processed there is room for it.
\<close>

definition keepsUp :: "nat \<Rightarrow> Broadcaster \<Rightarrow> Broadcaster \<Rightarrow> bool" where
  "keepsUp ch b b' \<longleftrightarrow> bstep b b' \<and> ch \<in> fst ` set (bc_testRunSubs b') \<and>
     (bc_log b' \<noteq> bc_log b \<longrightarrow> (\<exists>c. bc_heap b ch = Some c \<and> roomFor c))"

lemma keepsUp_step:
  assumes "keepsUp ch b b'" "broadcastInv b" "ch \<in> fst ` set (bc_testRunSubs b)" "bc_heap b ch = Some c" "ch < bc_next b"
  shows "\<exists>c' new. bc_heap b' ch = Some c' \<and> bc_log b' = bc_log b @ new \<and> content c' = content c @ new \<and> ch < bc_next b'"
proof -
  have "bstep b b'" using assms(1) by (simp add: keepsUp_def)
  then show ?thesis
  proof cases
    case (loop k)
    show ?thesis
    proof (cases k)
      case OnPub
      with loop obtain res rest where b': "b' = b\<lparr>bc_testRunPubCh := rest, bc_log := bc_log b @ [res],
          bc_heap := deliver res (bc_testRunSubs b) (bc_heap b)\<rparr>"
        by (auto split: list.splits)
      then have room: "roomFor c" using assms(1,4) by (auto simp: keepsUp_def)
      have "bc_heap b' ch = Some (trySend res c)" using assms(2-4) b' by (simp add: deliver_exact broadcastInv_def)
      moreover have "content (trySend res c) = content c @ [res]"
        using trySend_content[of "bc_log b" c res] room assms(2,4) by (auto simp: broadcastInv_def)
      ultimately show ?thesis using b' assms(5) by auto
    qed (use loop assms(4,5) in \<open>auto split: list.splits if_splits\<close>)
  next
    case (listen a ca)
    then show ?thesis using assms(4,5) by (cases "a = ch") auto
  next
    case (giveUp a ca)
    then show ?thesis using assms(4,5) by (cases "a = ch") auto
  qed (use assms(4,5) in \<open>auto simp: PublishTestRun_def SubscribeToTestRuns_def UnsubscribeFromTestRuns_def
      Broadcaster_Stop_def Let_def split: if_splits\<close>)
qed

lemma keepsUp_run:
  assumes "(keepsUp ch)\<^sup>*\<^sup>* b b'" "broadcastInv b" "ch \<in> fst ` set (bc_testRunSubs b)" "bc_heap b ch = Some c" "ch < bc_next b"
  shows "broadcastInv b' \<and> ch \<in> fst ` set (bc_testRunSubs b') \<and> ch < bc_next b' \<and>
    (\<exists>c' new. bc_heap b' ch = Some c' \<and> bc_log b' = bc_log b @ new \<and> content c' = content c @ new)"
  using assms(1)
proof (induction rule: rtranclp_induct)
  case (step d e)
  then obtain c1 new1 where 1: "bc_heap d ch = Some c1" "bc_log d = bc_log b @ new1" "content c1 = content c @ new1" by blast
  from keepsUp_step[OF step(2) _ _ 1(1)] step.IH obtain c2 new2 where
    2: "bc_heap e ch = Some c2" "bc_log e = bc_log d @ new2" "content c2 = content c1 @ new2" "ch < bc_next e" by blast
  have "broadcastInv e" using bstep_inv step by (auto simp: keepsUp_def)
  moreover have "ch \<in> fst ` set (bc_testRunSubs e)" using step(2) by (simp add: keepsUp_def)
  moreover have "bc_log e = bc_log b @ (new1 @ new2)" "content c2 = content c @ (new1 @ new2)" using 1 2 by simp_all
  ultimately show ?case using 2(1,4) by blast
qed (use assms in auto)

text \<open>
  The addresses of the subscribed channels were handed out.
\<close>

definition allocated :: "Broadcaster \<Rightarrow> bool" where
  "allocated b \<longleftrightarrow> (\<forall>l \<in> set (bc_testRunSubCh b). ls_ResCh l < bc_next b) \<and>
     (\<forall>ch. map_of (bc_testRunSubs b) ch \<noteq> None \<longrightarrow> ch < bc_next b) \<and> (\<forall>ch. bc_heap b ch = None \<longleftrightarrow> bc_next b \<le> ch)"

lemma allocated_same:
  "\<lbrakk>allocated b; bc_testRunSubCh b' = bc_testRunSubCh b; bc_testRunSubs b' = bc_testRunSubs b; bc_next b' = bc_next b;
    \<And>ch. bc_heap b' ch = None \<longleftrightarrow> bc_heap b ch = None\<rbrakk> \<Longrightarrow> allocated b'"
  by (simp add: allocated_def)

lemma subscribed_allocated: "bstep\<^sup>*\<^sup>* NewBroadcaster b \<Longrightarrow> allocated b"
proof (induction rule: rtranclp_induct)
  case base
  show ?case by (simp add: NewBroadcaster_def allocated_def)
next
  case (step b b')
  from broadcast_reachable[OF step(1)] have wf: "gwf (bc_testRunSubs b)" by (simp add: broadcastInv_def)
  note same = allocated_same[OF step.IH]
  from step(2) show ?case
  proof cases
    case (subscribe name n ch)
    then have b': "bc_testRunSubs b' = bc_testRunSubs b" "bc_next b' = Suc (bc_next b)"
      "set (bc_testRunSubCh b') = insert \<lparr>ls_ResCh = bc_next b, ls_Name = name, ls_ChannelSize = n\<rparr> (set (bc_testRunSubCh b))"
      "bc_heap b' = (bc_heap b)(bc_next b \<mapsto> \<lparr>ch_cap = n, ch_queue = [], ch_waiting = False, ch_out = []\<rparr>)"
      by (auto simp: SubscribeToTestRuns_def Let_def split: if_splits)
    show ?thesis using step.IH by (auto simp: allocated_def b' less_Suc_eq not_less_eq_eq le_Suc_eq)
  next
    case (loop k)
    show ?thesis
    proof (cases k)
      case OnSub
      with loop obtain l rest where r: "bc_testRunSubCh b = l # rest"
        and b': "b' = b\<lparr>bc_testRunSubCh := rest, bc_testRunSubs := AList.update (ls_ResCh l) l (bc_testRunSubs b)\<rparr>"
        by (auto split: list.splits)
      show ?thesis using step.IH r by (auto simp: allocated_def b' update_conv')
    next
      case OnUnsub
      with loop obtain ch rest where b': "b' = b\<lparr>bc_testRunUnsubCh := rest, bc_testRunSubs := AList.delete ch (bc_testRunSubs b)\<rparr>"
        by (auto split: list.splits)
      show ?thesis using step.IH by (simp add: allocated_def b' delete_conv')
    next
      case OnPub
      with loop wf show ?thesis by (intro same) (auto simp: deliver_exact split: list.splits if_splits)
    next
      case OnStop
      with loop show ?thesis by (intro same) (auto split: if_splits)
    qed
  next
    case (listen ch c)
    then show ?thesis by (intro same) auto
  next
    case (giveUp ch c)
    then show ?thesis by (intro same) auto
  qed (rule same; auto simp: PublishTestRun_def UnsubscribeFromTestRuns_def Broadcaster_Stop_def split: if_splits)+
qed

text \<open>
  C23. A listener that keeps up misses nothing: while a listener is subscribed and has room
  whenever a run is processed, exactly the runs processed in that time are added to what it
  receives, in their order, whatever the other listeners do.
\<close>

theorem broadcast_complete:
  assumes "bstep\<^sup>*\<^sup>* NewBroadcaster b" and "ch \<in> fst ` set (bc_testRunSubs b)" and "(keepsUp ch)\<^sup>*\<^sup>* b b'"
  shows "\<exists>c c' new. bc_heap b ch = Some c \<and> bc_heap b' ch = Some c' \<and> bc_log b' = bc_log b @ new \<and>
    ch_out c' @ ch_queue c' = (ch_out c @ ch_queue c) @ new"
proof -
  have lt: "ch < bc_next b" using subscribed_allocated[OF assms(1)] assms(2) by (simp only: allocated_def map_of_eq_None_iff) blast
  then obtain c where c: "bc_heap b ch = Some c" using subscribed_allocated[OF assms(1)] by (metis allocated_def not_le not_None_eq)
  from keepsUp_run[OF assms(3) broadcast_reachable[OF assms(1)] assms(2) c lt] c show ?thesis
    by (auto simp: content_def)
qed

theorem broadcast_complete_witness:
  "\<exists>c c'. bc_heap examplePublished 0 = Some c \<and> bc_heap exampleDelivered 0 = Some c' \<and>
     ch_out c' @ ch_queue c' = (ch_out c @ ch_queue c) @ [publishedRun]"
proof -
  have "keepsUp 0 examplePublished exampleDelivered"
    using exampleDelivered_step by (simp add: keepsUp_def roomFor_def examplePublished_def exampleDelivered_def)
  then have "(keepsUp 0)\<^sup>*\<^sup>* examplePublished exampleDelivered" by blast
  from broadcast_complete[OF examplePublished_reachable _ this] show ?thesis
    by (simp add: examplePublished_def exampleDelivered_def NewBroadcaster_def)
qed

end
