(* ===== verification/ControllerLoop.thy ===== *)
theory ControllerLoop
  imports Controller
begin

text \<open>
  The goroutines of the controller (\<open>SetupWithManager\<close> in
  controller/internal/controller/synthetictest_controller.go) and the subscriptions of the storage
  they and the agents listen to (common/storage/redis.go). A periodic pass and the watch for agent
  events send to the event channel; every event makes all tests due for a reconcile. The work queue
  of the controller runtime holds each request once. The goroutines move in any order, so the
  executions are the sequences of steps of a relation.
\<close>

section \<open>Subscriptions\<close>

text \<open>
  What a subscription observes: a message of its channel (None: the channel was closed, and reading
  the payload of nil panics) or the end of its context.
\<close>

datatype sub_event = SubMessage "string option" | SubDone

datatype sub_end = StillSubscribed | SubReturns "err option" | SubPanics

text \<open>The payloads that are forwarded, and how it ends.\<close>

fun forwardLoop :: "sub_event list \<Rightarrow> string list \<times> sub_end" where
  "forwardLoop [] = ([], StillSubscribed)"
| "forwardLoop (SubDone # es) = ([], SubReturns None)"
| "forwardLoop (SubMessage None # es) = ([], SubPanics)"
| "forwardLoop (SubMessage (Some m) # es) = apfst ((#) m) (forwardLoop es)"

text \<open>The confirmation of the subscription may fail.\<close>

definition subscribe :: "string \<Rightarrow> err option \<Rightarrow> sub_event list \<Rightarrow> string list \<times> sub_end" where
  "subscribe channel receive es =
     (case receive of
        Some e \<Rightarrow> ([], SubReturns (Some (ErrWrap (''error subscribing to channel '' @ channel) e)))
      | None \<Rightarrow> forwardLoop es)"

definition SubscribeToTestRunEvents :: "err option \<Rightarrow> sub_event list \<Rightarrow> string list \<times> sub_end" where
  "SubscribeToTestRunEvents = subscribe SynTestChannel"

definition SubscribeToConfigEvents :: "err option \<Rightarrow> sub_event list \<Rightarrow> string list \<times> sub_end" where
  "SubscribeToConfigEvents = subscribe ConfigChannel"

definition SubscribeToAgentEvents :: "err option \<Rightarrow> sub_event list \<Rightarrow> string list \<times> sub_end" where
  "SubscribeToAgentEvents = subscribe AgentChannel"

text \<open>Everything that arrives before the end of the context is forwarded, in order.\<close>

lemma forwardLoop_messages: "forwardLoop (map (SubMessage \<circ> Some) ms @ es) = apfst ((@) ms) (forwardLoop es)"
  by (induction ms) (auto simp: apfst_def map_prod_def split: prod.splits)

section \<open>State\<close>

text \<open>The program points of the two goroutines, the channels, and the work queue.\<close>

datatype sync_pc = SyncStarting | SyncWaiting | SyncSending

datatype watch_pc = WatchWaiting | WatchSending

record 's ctrl =
  cn_state :: 's
  cn_sync :: sync_pc
  cn_watch :: watch_pc
  cn_agentChan :: "string list"
  cn_eventChan :: nat
  cn_queue :: "(string \<times> string) list"
  cn_exited :: bool

definition agentChanSize :: nat where "agentChanSize = 3"
definition eventChanSize :: nat where "eventChanSize = 100"

definition setupController :: "'s \<Rightarrow> 's ctrl" where
  "setupController s =
     \<lparr>cn_state = s, cn_sync = SyncStarting, cn_watch = WatchWaiting, cn_agentChan = [], cn_eventChan = 0,
      cn_queue = [], cn_exited = False\<rparr>"

section \<open>The goroutines\<close>

text \<open>A pass, the first time without an event after it. None of the pass: the process exits.\<close>

definition syncPass :: "(string \<Rightarrow> 's RedisSynHeartStore) \<Rightarrow> string option \<Rightarrow> sync_env \<Rightarrow> 's K8sClient \<Rightarrow> sync_pc \<Rightarrow> 's ctrl \<Rightarrow> 's ctrl" where
  "syncPass connect storeAddr env k8s pc c =
     (case All storeAddr connect env k8s (cn_state c) of
        (r, s) \<Rightarrow> c\<lparr>cn_state := s, cn_sync := pc, cn_exited := (r = None)\<rparr>)"

definition forwardSignal :: "string \<Rightarrow> 's ctrl \<Rightarrow> 's ctrl" where
  "forwardSignal m c = c\<lparr>cn_agentChan := cn_agentChan c @ [m]\<rparr>"

definition takeSignal :: "'s ctrl \<Rightarrow> 's ctrl" where
  "takeSignal c = c\<lparr>cn_agentChan := tl (cn_agentChan c), cn_watch := WatchSending\<rparr>"

definition sendEvent :: "'s ctrl \<Rightarrow> 's ctrl" where
  "sendEvent c = c\<lparr>cn_eventChan := cn_eventChan c + 1\<rparr>"

definition enqueue :: "'r \<Rightarrow> 'r list \<Rightarrow> 'r list" where
  "enqueue r q = (if r \<in> set q then q else q @ [r])"

definition handleEvent :: "'s K8sClient \<Rightarrow> 's ctrl \<Rightarrow> 's ctrl" where
  "handleEvent k8s c =
     (case ReconcileForExternalEvents k8s (cn_state c) of
        (requests, s) \<Rightarrow> c\<lparr>cn_state := s, cn_eventChan := cn_eventChan c - 1, cn_queue := fold enqueue requests (cn_queue c)\<rparr>)"

text \<open>
  A request is reconciled and comes back when an error or the result asks for it; the delay is not
  modelled.
\<close>

definition comesBack :: "ctrl_Result \<Rightarrow> err option \<Rightarrow> bool" where
  "comesBack r e \<longleftrightarrow> e \<noteq> None \<or> res_Requeue r \<or> 0 < res_RequeueAfter r"

definition work :: "controller_env \<Rightarrow> (string \<Rightarrow> 's RedisSynHeartStore) \<Rightarrow> string option \<Rightarrow> 's K8sClient \<Rightarrow> string \<times> string \<Rightarrow> 's ctrl \<Rightarrow> 's ctrl" where
  "work env connect storeAddr k8s rq c =
     (case Reconcile env connect storeAddr k8s (fst rq) (snd rq) (cn_state c) of
        (None, s) \<Rightarrow> c\<lparr>cn_state := s, cn_exited := True\<rparr>
      | (Some (r, e), s) \<Rightarrow>
          (let q = removeAll rq (cn_queue c) in
           c\<lparr>cn_state := s, cn_queue := (if comesBack r e then q @ [rq] else q)\<rparr>))"

section \<open>Executions\<close>

text \<open>The steps on the channels, which need nothing from outside.\<close>

inductive chanStep :: "'s K8sClient \<Rightarrow> 's ctrl \<Rightarrow> 's ctrl \<Rightarrow> bool" for k8s where
  take: "\<lbrakk>\<not> cn_exited c; cn_watch c = WatchWaiting; cn_agentChan c \<noteq> []\<rbrakk> \<Longrightarrow> chanStep k8s c (takeSignal c)"
| sendWatch: "\<lbrakk>\<not> cn_exited c; cn_watch c = WatchSending; cn_eventChan c < eventChanSize\<rbrakk>
    \<Longrightarrow> chanStep k8s c (sendEvent c\<lparr>cn_watch := WatchWaiting\<rparr>)"
| sendSync: "\<lbrakk>\<not> cn_exited c; cn_sync c = SyncSending; cn_eventChan c < eventChanSize\<rbrakk>
    \<Longrightarrow> chanStep k8s c (sendEvent c\<lparr>cn_sync := SyncWaiting\<rparr>)"
| handle: "\<lbrakk>\<not> cn_exited c; 0 < cn_eventChan c\<rbrakk> \<Longrightarrow> chanStep k8s c (handleEvent k8s c)"

text \<open>All steps: the timer, agent events, changes of resources, the workers, and other writers.\<close>

inductive ctrlStep :: "(string \<Rightarrow> 's RedisSynHeartStore) \<Rightarrow> string option \<Rightarrow> 's K8sClient \<Rightarrow> ('s \<Rightarrow> bool) \<Rightarrow> 's ctrl \<Rightarrow> 's ctrl \<Rightarrow> bool"
  for connect storeAddr k8s ok where
  chan: "chanStep k8s c c' \<Longrightarrow> ctrlStep connect storeAddr k8s ok c c'"
| firstPass: "\<lbrakk>\<not> cn_exited c; cn_sync c = SyncStarting\<rbrakk>
    \<Longrightarrow> ctrlStep connect storeAddr k8s ok c (syncPass connect storeAddr env k8s SyncWaiting c)"
| tick: "\<lbrakk>\<not> cn_exited c; cn_sync c = SyncWaiting\<rbrakk>
    \<Longrightarrow> ctrlStep connect storeAddr k8s ok c (syncPass connect storeAddr env k8s SyncSending c)"
| signal: "\<lbrakk>\<not> cn_exited c; length (cn_agentChan c) < agentChanSize\<rbrakk>
    \<Longrightarrow> ctrlStep connect storeAddr k8s ok c (forwardSignal m c)"
| resource: "\<not> cn_exited c \<Longrightarrow> ctrlStep connect storeAddr k8s ok c (c\<lparr>cn_queue := enqueue rq (cn_queue c)\<rparr>)"
| worker: "\<lbrakk>\<not> cn_exited c; rq \<in> set (cn_queue c)\<rbrakk>
    \<Longrightarrow> ctrlStep connect storeAddr k8s ok c (work env connect storeAddr k8s rq c)"
| subscriptionFails: "\<not> cn_exited c \<Longrightarrow> ctrlStep connect storeAddr k8s ok c (c\<lparr>cn_exited := True\<rparr>)"
| others: "\<lbrakk>\<not> cn_exited c; ok s\<rbrakk> \<Longrightarrow> ctrlStep connect storeAddr k8s ok c (c\<lparr>cn_state := s\<rparr>)"

inductive_cases chanStep_cases: "chanStep k8s c c'"
inductive_cases ctrlStep_cases: "ctrlStep connect storeAddr k8s ok c c'"

section \<open>Invariant\<close>

definition ctrlInv :: "'s ctrl \<Rightarrow> bool" where
  "ctrlInv c \<longleftrightarrow> length (cn_agentChan c) \<le> agentChanSize \<and> cn_eventChan c \<le> eventChanSize \<and> distinct (cn_queue c)"

lemma enqueue_set [simp]: "set (enqueue r q) = insert r (set q)" "distinct (enqueue r q) \<longleftrightarrow> distinct q"
  by (auto simp: enqueue_def)

lemma enqueue_all: "set (fold enqueue rs q) = set q \<union> set rs" "distinct (fold enqueue rs q) \<longleftrightarrow> distinct q"
  by (induction rs arbitrary: q) auto

lemmas ctrl_defs = takeSignal_def sendEvent_def forwardSignal_def handleEvent_def

lemma chanStep_inv: "chanStep k8s c c' \<Longrightarrow> ctrlInv c \<Longrightarrow> ctrlInv c'"
  by (induction rule: chanStep.induct) (auto simp: ctrlInv_def ctrl_defs enqueue_all split: prod.split)

lemma work_inv: "ctrlInv c \<Longrightarrow> ctrlInv (work env connect storeAddr k8s rq c)"
  by (auto simp: work_def ctrlInv_def Let_def distinct_removeAll split: prod.split option.split)

lemma ctrlStep_inv: "ctrlStep connect storeAddr k8s ok c c' \<Longrightarrow> ctrlInv c \<Longrightarrow> ctrlInv c'"
proof (induction rule: ctrlStep.induct)
  case (chan c c')
  then show ?case by (rule chanStep_inv)
next
  case (worker c rq env)
  then show ?case by (intro work_inv)
qed (auto simp: ctrlInv_def syncPass_def forwardSignal_def split: prod.split)

lemma ctrl_reachable:
  "(ctrlStep connect storeAddr k8s ok)\<^sup>*\<^sup>* (setupController s) c \<Longrightarrow> ctrlInv c"
proof (induction rule: rtranclp_induct)
  case base
  show ?case by (simp add: ctrlInv_def setupController_def)
next
  case (step c d)
  then show ?case using ctrlStep_inv by blast
qed

section \<open>Draining the channels\<close>

text \<open>How many channel steps are left.\<close>

definition pending :: "'s ctrl \<Rightarrow> nat" where
  "pending c = 3 * length (cn_agentChan c) + (if cn_watch c = WatchSending then 2 else 0) +
     (if cn_sync c = SyncSending then 2 else 0) + cn_eventChan c"

lemma chanStep_pending: "chanStep k8s c c' \<Longrightarrow> pending c = Suc (pending c')"
  by (induction rule: chanStep.induct) (auto simp: pending_def ctrl_defs length_greater_0_conv[symmetric] simp del: length_greater_0_conv split: prod.split)

lemma chanStep_exists:
  assumes "\<not> cn_exited c" and "0 < pending c"
  shows "\<exists>c'. chanStep k8s c c'"
proof (cases "0 < cn_eventChan c")
  case True
  with assms(1) show ?thesis by (blast intro: chanStep.handle)
next
  case False
  then have room: "cn_eventChan c < eventChanSize" by (simp add: eventChanSize_def)
  consider "cn_watch c = WatchSending" | "cn_sync c = SyncSending" | "cn_watch c = WatchWaiting" "cn_agentChan c \<noteq> []"
    using assms(2) False by (cases "cn_watch c") (auto simp: pending_def split: if_splits)
  then show ?thesis using assms(1) room by cases (blast intro: chanStep.intros)+
qed

lemma chanStep_exited: "chanStep k8s c c' \<Longrightarrow> \<not> cn_exited c'"
  by (induction rule: chanStep.induct) (auto simp: ctrl_defs split: prod.split)

text \<open>All tests of a listing are due.\<close>

definition allDue :: "SyntheticTest list \<Rightarrow> 's ctrl \<Rightarrow> bool" where
  "allDue ts c \<longleftrightarrow> (\<forall>t \<in> set ts. (cr_Name t, cr_Namespace t) \<in> set (cn_queue c))"

lemma chanStep_due:
  assumes "chanStep k8s c c'" and "\<forall>s. fst (k8_ListTests k8s s) = Inr ts"
  shows "allDue ts c \<longrightarrow> allDue ts c'" "0 < pending c' \<or> allDue ts c'"
proof -
  have handled: "allDue ts (handleEvent k8s c)" for c :: "'a ctrl"
  proof -
    obtain s where "k8_ListTests k8s (cn_state c) = (Inr ts, s)"
      using assms(2)[rule_format, of "cn_state c"] by (metis prod.collapse)
    then show ?thesis by (auto simp: handleEvent_def ReconcileForExternalEvents_def allDue_def enqueue_all)
  qed
  show "allDue ts c \<longrightarrow> allDue ts c'" "0 < pending c' \<or> allDue ts c'"
    using assms(1) by (cases rule: chanStep.cases; auto simp: handled; auto simp: allDue_def pending_def ctrl_defs)+
qed

lemma drain:
  assumes "(chanStep k8s ^^ n) c c'" and "\<forall>s. fst (k8_ListTests k8s s) = Inr ts"
  shows "pending c = n + pending c'" and "\<not> cn_exited c \<Longrightarrow> \<not> cn_exited c'"
    and "0 < pending c \<Longrightarrow> 0 < pending c' \<or> allDue ts c'"
proof -
  have "pending c = n + pending c' \<and> (\<not> cn_exited c \<longrightarrow> \<not> cn_exited c') \<and> (0 < pending c \<longrightarrow> 0 < pending c' \<or> allDue ts c')"
    using assms(1)
  proof (induction n arbitrary: c')
    case (Suc n)
    then obtain d where d: "(chanStep k8s ^^ n) c d" "chanStep k8s d c'" by auto
    from Suc.IH[OF d(1)] chanStep_pending[OF d(2)] chanStep_exited[OF d(2)] chanStep_due(2)[OF d(2) assms(2)] show ?case by auto
  qed auto
  then show "pending c = n + pending c'" "\<not> cn_exited c \<Longrightarrow> \<not> cn_exited c'"
    "0 < pending c \<Longrightarrow> 0 < pending c' \<or> allDue ts c'" by blast+
qed

section \<open>Properties\<close>



text \<open>
  C29. An agent that joins or leaves makes every test due: from a state with an agent signal or an
  event pending, every sequence of channel steps is finite, with at most as many steps as
  \<open>pending\<close> counts; and in whatever order the goroutines move, when no step is left the channels
  are empty and every listed test is in the work queue.
\<close>

theorem agent_event_reconciles_all:
  assumes "\<not> cn_exited c" and "0 < pending c" and "\<forall>s. fst (k8_ListTests k8s s) = Inr ts"
    and "(chanStep k8s ^^ n) c c'"
  shows "n \<le> pending c \<and>
    ((\<nexists>c''. chanStep k8s c' c'') \<longrightarrow> cn_agentChan c' = [] \<and> cn_eventChan c' = 0 \<and> allDue ts c')"
proof -
  note d = drain[OF assms(4,3)]
  have "pending c' = 0" if "\<nexists>c''. chanStep k8s c' c''" using chanStep_exists[of c' k8s] d(2)[OF assms(1)] that by blast
  then show ?thesis using d(1) d(3)[OF assms(2)] by (auto simp: pending_def)
qed

lemma exampleDrain:
  assumes "c = forwardSignal m (setupController s)"
  shows "pending c = 3" "\<not> cn_exited c" "\<exists>c'. (chanStep k8s ^^ 3) c c'"
proof -
  show p: "pending c = 3" "\<not> cn_exited c" by (simp_all add: assms pending_def forwardSignal_def setupController_def)
  have "chanStep k8s c (takeSignal c)"
    by (rule chanStep.take) (simp_all add: assms forwardSignal_def setupController_def)
  moreover have "chanStep k8s (takeSignal c) (sendEvent (takeSignal c)\<lparr>cn_watch := WatchWaiting\<rparr>)"
    by (rule chanStep.sendWatch) (simp_all add: assms forwardSignal_def setupController_def takeSignal_def eventChanSize_def)
  moreover have "chanStep k8s (sendEvent (takeSignal c)\<lparr>cn_watch := WatchWaiting\<rparr>) (handleEvent k8s (sendEvent (takeSignal c)\<lparr>cn_watch := WatchWaiting\<rparr>))"
    by (rule chanStep.handle) (simp_all add: assms forwardSignal_def setupController_def takeSignal_def sendEvent_def)
  ultimately show "\<exists>c'. (chanStep k8s ^^ 3) c c'" unfolding numeral_3_eq_3 relpowp.simps relcompp_apply by blast
qed

theorem agent_event_reconciles_all_witness:
  "\<exists>c'. (chanStep (memCluster (Inr []) (Inr [exampleTest])) ^^ 3)
      (forwardSignal ''new agent: pod-1/heart'' (setupController agentMem)) c' \<and> allDue [exampleTest] c'"
proof -
  let ?k = "memCluster (Inr []) (Inr [exampleTest])"
  define c where "c = forwardSignal ''new agent: pod-1/heart'' (setupController agentMem)"
  note e = exampleDrain(1,2)[OF c_def] exampleDrain(3)[OF c_def, of ?k]
  obtain c' where c': "(chanStep ?k ^^ 3) c c'" using e(3) by blast
  have l: "\<forall>s. fst (k8_ListTests ?k s) = Inr [exampleTest]" by (simp add: memCluster_def)
  have "\<nexists>c''. chanStep ?k c' c''" using drain(1)[OF c' l] e(1) chanStep_pending by fastforce
  with agent_event_reconciles_all[OF e(2) _ l c'] e(1) c' show ?thesis unfolding c_def by auto
qed

end
