(* ===== verification/ControllerMain.thy ===== *)
theory ControllerMain
  imports Prelude
begin

text \<open>
  The process of the controller (controller/cmd/main.go): the command-line flags as the \<open>flag\<close>
  package of the Go standard library reads them, the options of the manager, and the steps in which
  the controller is set up and started. The controller and the zap library declare flags of their
  own, and the steps are calls of the controller library; both are parameters. A step that fails ends
  the process.
\<close>

section \<open>Flags\<close>

record ctrl_flags =
  fl_metricsAddr :: string
  fl_probeAddr :: string
  fl_leaderElection :: bool
  fl_secureMetrics :: bool
  fl_enableHTTP2 :: bool
  fl_others :: "(string \<times> string) list"

definition defaultFlags :: ctrl_flags where
  "defaultFlags = \<lparr>fl_metricsAddr = '':8080'', fl_probeAddr = '':8081'', fl_leaderElection = False,
     fl_secureMetrics = False, fl_enableHTTP2 = False, fl_others = []\<rparr>"

definition strconv_ParseBool :: "string \<Rightarrow> bool option" where
  "strconv_ParseBool s =
     (if s \<in> {''1'', ''t'', ''T'', ''TRUE'', ''true'', ''True''} then Some True
      else if s \<in> {''0'', ''f'', ''F'', ''FALSE'', ''false'', ''False''} then Some False
      else None)"

text \<open>Whether a flag is boolean, and the effect of its value; None: the value is refused.\<close>

type_synonym flag_var = "bool \<times> (string \<Rightarrow> ctrl_flags \<Rightarrow> ctrl_flags option)"

definition StringVar :: "(string \<Rightarrow> ctrl_flags \<Rightarrow> ctrl_flags) \<Rightarrow> flag_var" where
  "StringVar put = (False, \<lambda>v f. Some (put v f))"

definition BoolVar :: "(bool \<Rightarrow> ctrl_flags \<Rightarrow> ctrl_flags) \<Rightarrow> flag_var" where
  "BoolVar put = (True, \<lambda>v f. map_option (\<lambda>b. put b f) (strconv_ParseBool v))"

definition ownFlags :: "string \<rightharpoonup> flag_var" where
  "ownFlags = map_of
     [(''metrics-bind-address'', StringVar (\<lambda>v f. f\<lparr>fl_metricsAddr := v\<rparr>)),
      (''health-probe-bind-address'', StringVar (\<lambda>v f. f\<lparr>fl_probeAddr := v\<rparr>)),
      (''leader-elect'', BoolVar (\<lambda>b f. f\<lparr>fl_leaderElection := b\<rparr>)),
      (''metrics-secure'', BoolVar (\<lambda>b f. f\<lparr>fl_secureMetrics := b\<rparr>)),
      (''enable-http2'', BoolVar (\<lambda>b f. f\<lparr>fl_enableHTTP2 := b\<rparr>))]"

text \<open>
  The flags of the libraries: whether each is boolean, and whether it accepts a value. A name that is
  declared twice panics at start-up, so the tables have no name in common.
\<close>

definition lookupFlag :: "(string \<rightharpoonup> bool \<times> (string \<Rightarrow> bool)) \<Rightarrow> string \<Rightarrow> flag_var option" where
  "lookupFlag others name =
     (case ownFlags name of
        Some x \<Rightarrow> Some x
      | None \<Rightarrow> map_option (\<lambda>(isBool, ok). (isBool, \<lambda>v f. if ok v then Some (f\<lparr>fl_others := fl_others f @ [(name, v)]\<rparr>) else None))
                  (others name))"

text \<open>The name and the value behind the first equals sign after its first character.\<close>

definition splitEq :: "string \<Rightarrow> string \<times> string option" where
  "splitEq s = (take 1 s @ takeWhile (\<lambda>c. c \<noteq> CHR ''='') (drop 1 s),
     case dropWhile (\<lambda>c. c \<noteq> CHR ''='') (drop 1 s) of [] \<Rightarrow> None | _ # v \<Rightarrow> Some v)"

datatype flag_step = FlagsEnd "string list" | FlagHelp | FlagError | FlagNext ctrl_flags "string list"

definition setFlag :: "(string \<Rightarrow> ctrl_flags \<Rightarrow> ctrl_flags option) \<Rightarrow> string \<Rightarrow> ctrl_flags \<Rightarrow> string list \<Rightarrow> flag_step" where
  "setFlag put v f rest = (case put v f of None \<Rightarrow> FlagError | Some f \<Rightarrow> FlagNext f rest)"

definition parseOne :: "(string \<rightharpoonup> bool \<times> (string \<Rightarrow> bool)) \<Rightarrow> ctrl_flags \<Rightarrow> string list \<Rightarrow> flag_step" where
  "parseOne others f args =
     (case args of
        [] \<Rightarrow> FlagsEnd []
      | s # rest \<Rightarrow>
          if length s < 2 \<or> s ! 0 \<noteq> CHR ''-'' then FlagsEnd args
          else if s = ''--'' then FlagsEnd rest
          else
            (let name = drop (if s ! 1 = CHR ''-'' then 2 else 1) s in
             if name = [] \<or> name ! 0 = CHR ''-'' \<or> name ! 0 = CHR ''='' then FlagError
             else
               (let (name, value) = splitEq name in
                case lookupFlag others name of
                  None \<Rightarrow> if name = ''help'' \<or> name = ''h'' then FlagHelp else FlagError
                | Some (isBool, put) \<Rightarrow>
                    (case value of
                       Some v \<Rightarrow> setFlag put v f rest
                     | None \<Rightarrow>
                         if isBool then setFlag put ''true'' f rest
                         else (case rest of [] \<Rightarrow> FlagError | v # rest \<Rightarrow> setFlag put v f rest)))))"

lemma parseOne_shorter: "parseOne others f args = FlagNext f' rest \<Longrightarrow> length rest < length args"
  by (auto simp: parseOne_def setFlag_def Let_def split: list.splits if_splits option.splits prod.splits)

text \<open>All flags. The end of the flags, a request for help, or an error with which the process exits.\<close>

function parseFlags :: "(string \<rightharpoonup> bool \<times> (string \<Rightarrow> bool)) \<Rightarrow> ctrl_flags \<Rightarrow> string list \<Rightarrow> nat + ctrl_flags \<times> string list" where
  "parseFlags others f args =
     (case parseOne others f args of
        FlagsEnd rest \<Rightarrow> Inr (f, rest)
      | FlagHelp \<Rightarrow> Inl 0
      | FlagError \<Rightarrow> Inl 2
      | FlagNext f rest \<Rightarrow> parseFlags others f rest)"
  by pat_completeness auto
termination
  by (relation "measure (\<lambda>(_, _, args). length args)") (auto dest: parseOne_shorter)

declare parseFlags.simps [simp del]

section \<open>Setting up\<close>

text \<open>An option of a TLS configuration changes the protocols it offers.\<close>

definition disableHTTP2 :: "string list \<Rightarrow> string list" where
  "disableHTTP2 nextProtos = [''http/1.1'']"

definition tlsOptsOf :: "ctrl_flags \<Rightarrow> (string list \<Rightarrow> string list) list" where
  "tlsOptsOf f = (if fl_enableHTTP2 f then [] else [disableHTTP2])"

record manager_opts =
  mo_metricsAddr :: string
  mo_secureServing :: bool
  mo_metricsTLS :: "(string list \<Rightarrow> string list) list"
  mo_webhookTLS :: "(string list \<Rightarrow> string list) list"
  mo_probeAddr :: string
  mo_leaderElection :: bool
  mo_leaderElectionID :: string

definition managerOptions :: "ctrl_flags \<Rightarrow> manager_opts" where
  "managerOptions f = \<lparr>mo_metricsAddr = fl_metricsAddr f, mo_secureServing = fl_secureMetrics f,
     mo_metricsTLS = tlsOptsOf f, mo_webhookTLS = tlsOptsOf f, mo_probeAddr = fl_probeAddr f,
     mo_leaderElection = fl_leaderElection f, mo_leaderElectionID = ''954c9e0a.infra.webex.com''\<rparr>"

datatype boot_step = GetConfig | NewManager manager_opts | SetupReconciler | AddHealthzCheck | AddReadyzCheck | StartManager

datatype boot_exit = BootReturns | BootExits nat

text \<open>The steps that were tried, and how main ended; \<open>fails\<close> says which calls return an error.\<close>

fun runBoot :: "(boot_step \<Rightarrow> bool) \<Rightarrow> boot_step list \<Rightarrow> boot_step list \<times> boot_exit" where
  "runBoot fails [] = ([], BootReturns)"
| "runBoot fails (x # xs) = (if fails x then ([x], BootExits 1) else apfst ((#) x) (runBoot fails xs))"

definition bootSteps :: "ctrl_flags \<Rightarrow> boot_step list" where
  "bootSteps f = [GetConfig, NewManager (managerOptions f), SetupReconciler, AddHealthzCheck, AddReadyzCheck, StartManager]"

definition controllerMain :: "(string \<rightharpoonup> bool \<times> (string \<Rightarrow> bool)) \<Rightarrow> (boot_step \<Rightarrow> bool) \<Rightarrow> string list \<Rightarrow> boot_step list \<times> boot_exit" where
  "controllerMain others fails args =
     (case parseFlags others defaultFlags args of
        Inl code \<Rightarrow> ([], BootExits code)
      | Inr (f, _) \<Rightarrow> runBoot fails (bootSteps f))"

section \<open>Reading flags\<close>

text \<open>The two ways of writing a flag with a value, and the same for a boolean one.\<close>

definition writeFlag :: "bool \<Rightarrow> string \<Rightarrow> string \<Rightarrow> string list" where
  "writeFlag joined name v = (if joined then [''-'' @ name @ ''='' @ v] else [''--'' @ name, v])"

definition writeBool :: "string \<Rightarrow> bool \<Rightarrow> string list" where
  "writeBool name b = [''--'' @ name @ (if b then [] else ''=false'')]"

lemma splitEq_name:
  assumes "name \<noteq> []" and "CHR ''='' \<notin> set (tl name)"
  shows "splitEq name = (name, None)" "splitEq (name @ CHR ''='' # v) = (name, Some v)"
proof -
  obtain c cs where n: "name = c # cs" using assms(1) by (cases name) auto
  with assms(2) have plain: "\<forall>x \<in> set cs. x \<noteq> CHR ''=''" by auto
  then have whole: "takeWhile (\<lambda>x. x \<noteq> CHR ''='') cs = cs" "dropWhile (\<lambda>x. x \<noteq> CHR ''='') cs = []"
    by simp_all
  from plain have cut: "takeWhile (\<lambda>x. x \<noteq> CHR ''='') (cs @ CHR ''='' # v) = cs"
    "dropWhile (\<lambda>x. x \<noteq> CHR ''='') (cs @ CHR ''='' # v) = CHR ''='' # v"
    by (simp_all add: takeWhile_append2 dropWhile_append2)
  show "splitEq name = (name, None)" "splitEq (name @ CHR ''='' # v) = (name, Some v)"
    by (simp_all add: splitEq_def n whole cut)
qed

definition plainName :: "string \<Rightarrow> bool" where
  "plainName n \<longleftrightarrow> n \<noteq> [] \<and> n ! 0 \<noteq> CHR ''-'' \<and> CHR ''='' \<notin> set n"

lemma plainName_Cons: "plainName (c # cs) \<longleftrightarrow> c \<noteq> CHR ''-'' \<and> c \<noteq> CHR ''='' \<and> CHR ''='' \<notin> set cs"
  by (auto simp: plainName_def)

lemma parseOne_value:
  assumes n: "plainName (c # cs)" and l: "lookupFlag others (c # cs) = Some (False, put)"
  shows "parseOne others f (writeFlag joined (c # cs) v @ rest) = setFlag put v f rest"
proof -
  have c: "c \<noteq> CHR ''-''" "c \<noteq> CHR ''=''" "CHR ''='' \<notin> set (tl (c # cs))" using n by (auto simp: plainName_Cons)
  have e: "splitEq (c # cs) = (c # cs, None)" "splitEq (c # cs @ CHR ''='' # v) = (c # cs, Some v)"
    using splitEq_name[OF _ c(3)] by simp_all
  show ?thesis by (cases joined) (simp_all add: parseOne_def writeFlag_def l c(1,2) e)
qed

lemma parseOne_bool:
  assumes n: "plainName (c # cs)" and l: "lookupFlag others (c # cs) = Some (True, put)"
  shows "parseOne others f (writeBool (c # cs) b @ rest) = setFlag put (if b then ''true'' else ''false'') f rest"
proof -
  have c: "c \<noteq> CHR ''-''" "c \<noteq> CHR ''=''" "CHR ''='' \<notin> set (tl (c # cs))" using n by (auto simp: plainName_Cons)
  have e: "splitEq (c # cs) = (c # cs, None)" "splitEq (c # cs @ CHR ''='' # ''false'') = (c # cs, Some ''false'')"
    using splitEq_name[OF _ c(3)] by simp_all
  show ?thesis by (cases b) (simp_all add: parseOne_def writeBool_def l c(1,2) e)
qed

lemma parseFlags_step: "parseOne others f args = FlagNext f' rest \<Longrightarrow> parseFlags others f args = parseFlags others f' rest"
  by (subst parseFlags.simps) simp

lemma own_names: "plainName ''metrics-bind-address''" "plainName ''health-probe-bind-address''" "plainName ''leader-elect''"
  "plainName ''metrics-secure''" "plainName ''enable-http2''"
  by (simp_all add: plainName_def)

lemma own_lookup:
  "lookupFlag others ''metrics-bind-address'' = Some (StringVar (\<lambda>v f. f\<lparr>fl_metricsAddr := v\<rparr>))"
  "lookupFlag others ''health-probe-bind-address'' = Some (StringVar (\<lambda>v f. f\<lparr>fl_probeAddr := v\<rparr>))"
  "lookupFlag others ''leader-elect'' = Some (BoolVar (\<lambda>b f. f\<lparr>fl_leaderElection := b\<rparr>))"
  "lookupFlag others ''metrics-secure'' = Some (BoolVar (\<lambda>b f. f\<lparr>fl_secureMetrics := b\<rparr>))"
  "lookupFlag others ''enable-http2'' = Some (BoolVar (\<lambda>b f. f\<lparr>fl_enableHTTP2 := b\<rparr>))"
  by (simp_all add: lookupFlag_def ownFlags_def)

text \<open>One flag of the controller, in any of its spellings.\<close>

lemma parse_own:
  "parseFlags others f (writeFlag j ''metrics-bind-address'' v @ rest) = parseFlags others (f\<lparr>fl_metricsAddr := v\<rparr>) rest"
  "parseFlags others f (writeFlag j ''health-probe-bind-address'' v @ rest) = parseFlags others (f\<lparr>fl_probeAddr := v\<rparr>) rest"
  "parseFlags others f (writeBool ''leader-elect'' b @ rest) = parseFlags others (f\<lparr>fl_leaderElection := b\<rparr>) rest"
  "parseFlags others f (writeBool ''metrics-secure'' b @ rest) = parseFlags others (f\<lparr>fl_secureMetrics := b\<rparr>) rest"
  "parseFlags others f (writeBool ''enable-http2'' b @ rest) = parseFlags others (f\<lparr>fl_enableHTTP2 := b\<rparr>) rest"
proof -
  note text_flags = own_lookup(1,2)[unfolded StringVar_def] and bool_flags = own_lookup(3-5)[unfolded BoolVar_def]
  show "parseFlags others f (writeFlag j ''metrics-bind-address'' v @ rest) = parseFlags others (f\<lparr>fl_metricsAddr := v\<rparr>) rest"
    by (rule parseFlags_step) (simp add: parseOne_value[OF own_names(1) text_flags(1)] setFlag_def)
  show "parseFlags others f (writeFlag j ''health-probe-bind-address'' v @ rest) = parseFlags others (f\<lparr>fl_probeAddr := v\<rparr>) rest"
    by (rule parseFlags_step) (simp add: parseOne_value[OF own_names(2) text_flags(2)] setFlag_def)
  show "parseFlags others f (writeBool ''leader-elect'' b @ rest) = parseFlags others (f\<lparr>fl_leaderElection := b\<rparr>) rest"
    by (rule parseFlags_step) (simp add: parseOne_bool[OF own_names(3) bool_flags(1)] setFlag_def strconv_ParseBool_def)
  show "parseFlags others f (writeBool ''metrics-secure'' b @ rest) = parseFlags others (f\<lparr>fl_secureMetrics := b\<rparr>) rest"
    by (rule parseFlags_step) (simp add: parseOne_bool[OF own_names(4) bool_flags(2)] setFlag_def strconv_ParseBool_def)
  show "parseFlags others f (writeBool ''enable-http2'' b @ rest) = parseFlags others (f\<lparr>fl_enableHTTP2 := b\<rparr>) rest"
    by (rule parseFlags_step) (simp add: parseOne_bool[OF own_names(5) bool_flags(3)] setFlag_def strconv_ParseBool_def)
qed

section \<open>Properties\<close>

definition allFlags :: "bool \<Rightarrow> bool \<Rightarrow> ctrl_flags \<Rightarrow> string list" where
  "allFlags j k f = writeFlag j ''metrics-bind-address'' (fl_metricsAddr f) @ writeFlag k ''health-probe-bind-address'' (fl_probeAddr f) @
     writeBool ''leader-elect'' (fl_leaderElection f) @ writeBool ''metrics-secure'' (fl_secureMetrics f) @
     writeBool ''enable-http2'' (fl_enableHTTP2 f)"

lemma runBoot_complete: "\<forall>x \<in> set xs. \<not> fails x \<Longrightarrow> runBoot fails xs = (xs, BootReturns)"
  by (induction xs) auto

lemma runBoot_stops:
  "\<lbrakk>\<forall>x \<in> set xs. \<not> fails x; fails y\<rbrakk> \<Longrightarrow> runBoot fails (xs @ y # ys) = (xs @ [y], BootExits 1)"
  by (induction xs) auto



text \<open>
  A boolean flag does not take the next argument: after \<open>--leader-elect false\<close> leader election is
  on, and the argument ends the flags.
\<close>

lemma bool_flag_takes_no_argument:
  "parseFlags others f (''--leader-elect'' # ''false'' # rest) = Inr (f\<lparr>fl_leaderElection := True\<rparr>, ''false'' # rest)"
proof -
  have "parseFlags others f (writeBool ''leader-elect'' True @ ''false'' # rest) =
      parseFlags others (f\<lparr>fl_leaderElection := True\<rparr>) (''false'' # rest)"
    by (rule parse_own)
  then show ?thesis by (subst (asm) (2) parseFlags.simps) (simp add: writeBool_def parseOne_def)
qed

end
