(* ===== verification/DeepCopy.thy ===== *)
theory DeepCopy
  imports Controller
begin

text \<open>
  The copies of custom resources (controller/api/v1/zz_generated.deepcopy.go). Maps, slices and
  pointers are references, so the objects live in an explicit store; a copy must have the same
  values and share no reference with the original, because the controller changes objects that come
  from a shared cache. The metadata of a resource and of a list are types of the Kubernetes library,
  and the copies of them parameters. A new object is entered into the store when its fields have been
  copied; addresses are never compared with anything but each other, so the order does not matter.
\<close>

section \<open>Objects\<close>

record SpecObject =
  so_value :: SyntheticTestSpec
  so_PodLabelSelector :: "nat option"
  so_DependsOn :: "nat option"
  so_Timeouts :: "nat option"

record 'm TestObject =
  tb_meta :: 'm
  tb_spec :: SpecObject
  tb_status :: SyntheticTestStatus

record 'l ListObject =
  lo_meta :: 'l
  lo_Items :: "nat option"

section \<open>The store\<close>

text \<open>What a reference may refer to: a map, the array of a slice, or a struct behind a pointer.\<close>

datatype ('m, 'l) cell =
    MapCell gomap
  | SliceCell "string list"
  | ItemsCell "'m TestObject list"
  | TimeoutsCell Timeouts
  | SpecCell SpecObject
  | StatusCell SyntheticTestStatus
  | TestCell "'m TestObject"
  | ListCell "'l ListObject"

record ('m, 'l) heap =
  hp_cells :: "nat \<rightharpoonup> ('m, 'l) cell"
  hp_next :: nat

definition alloc :: "('m, 'l) cell \<Rightarrow> ('m, 'l) heap \<Rightarrow> nat \<times> ('m, 'l) heap" where
  "alloc c h = (hp_next h, h\<lparr>hp_cells := (hp_cells h)(hp_next h \<mapsto> c), hp_next := Suc (hp_next h)\<rparr>)"

definition setCell :: "nat \<Rightarrow> ('m, 'l) cell \<Rightarrow> ('m, 'l) heap \<Rightarrow> ('m, 'l) heap" where
  "setCell n c h = h\<lparr>hp_cells := (hp_cells h)(n \<mapsto> c)\<rparr>"

definition wfHeap :: "('m, 'l) heap \<Rightarrow> bool" where
  "wfHeap h \<longleftrightarrow> (\<forall>n \<ge> hp_next h. hp_cells h n = None) \<and> (\<forall>n m. hp_cells h n = Some (MapCell m) \<longrightarrow> gwf m)"

text \<open>The contents of a reference; nil maps and slices read as empty.\<close>

definition cellAt :: "('m, 'l) heap \<Rightarrow> nat option \<Rightarrow> ('m, 'l) cell option" where
  "cellAt h r = (case r of None \<Rightarrow> None | Some n \<Rightarrow> hp_cells h n)"

fun mapOf :: "('m, 'l) cell option \<Rightarrow> gomap" where
  "mapOf (Some (MapCell m)) = m"
| "mapOf _ = []"

fun sliceOf :: "('m, 'l) cell option \<Rightarrow> string list" where
  "sliceOf (Some (SliceCell xs)) = xs"
| "sliceOf _ = []"

fun itemsOf :: "('m, 'l) cell option \<Rightarrow> 'm TestObject list" where
  "itemsOf (Some (ItemsCell xs)) = xs"
| "itemsOf _ = []"

fun timeoutsOf :: "('m, 'l) cell option \<Rightarrow> Timeouts option" where
  "timeoutsOf (Some (TimeoutsCell t)) = Some t"
| "timeoutsOf _ = None"

fun specOf :: "('m, 'l) cell option \<Rightarrow> SpecObject option" where
  "specOf (Some (SpecCell x)) = Some x"
| "specOf _ = None"

fun statusOfCell :: "('m, 'l) cell option \<Rightarrow> SyntheticTestStatus option" where
  "statusOfCell (Some (StatusCell x)) = Some x"
| "statusOfCell _ = None"

fun testOfCell :: "('m, 'l) cell option \<Rightarrow> 'm TestObject option" where
  "testOfCell (Some (TestCell x)) = Some x"
| "testOfCell _ = None"

fun listOf :: "('m, 'l) cell option \<Rightarrow> 'l ListObject option" where
  "listOf (Some (ListCell x)) = Some x"
| "listOf _ = None"

section \<open>The code\<close>

text \<open>
  Copying what a pointer refers to: nil for nil, otherwise a new object filled by the function that
  copies into it.
\<close>

definition newCopy :: "(('m, 'l) cell option \<Rightarrow> 'a option) \<Rightarrow> ('b \<Rightarrow> ('m, 'l) cell) \<Rightarrow> ('a \<Rightarrow> ('m, 'l) heap \<Rightarrow> 'b \<times> ('m, 'l) heap)
    \<Rightarrow> nat option \<Rightarrow> ('m, 'l) heap \<Rightarrow> nat option \<times> ('m, 'l) heap" where
  "newCopy get cell copyInto p h = (case get (cellAt h p) of
     None \<Rightarrow> (None, h)
   | Some x \<Rightarrow> (let (y, h) = copyInto x h; (n, h) = alloc (cell y) h in (Some n, h)))"

definition Timeouts_DeepCopyInto :: "Timeouts \<Rightarrow> ('m, 'l) heap \<Rightarrow> Timeouts \<times> ('m, 'l) heap" where
  "Timeouts_DeepCopyInto x h = (x, h)"

definition Timeouts_DeepCopy :: "nat option \<Rightarrow> ('m, 'l) heap \<Rightarrow> nat option \<times> ('m, 'l) heap" where
  "Timeouts_DeepCopy = newCopy timeoutsOf TimeoutsCell Timeouts_DeepCopyInto"

definition copyMap :: "nat option \<Rightarrow> ('m, 'l) heap \<Rightarrow> nat option \<times> ('m, 'l) heap" where
  "copyMap r h = (if r = None then (None, h)
     else apfst Some (alloc (MapCell (fold (\<lambda>(key, val). AList.update key val) (mapOf (cellAt h r)) [])) h))"

definition copySlice :: "nat option \<Rightarrow> ('m, 'l) heap \<Rightarrow> nat option \<times> ('m, 'l) heap" where
  "copySlice r h = (if r = None then (None, h) else apfst Some (alloc (SliceCell (sliceOf (cellAt h r))) h))"

definition copyTimeouts :: "nat option \<Rightarrow> ('m, 'l) heap \<Rightarrow> nat option \<times> ('m, 'l) heap" where
  "copyTimeouts r h = (case timeoutsOf (cellAt h r) of None \<Rightarrow> (None, h) | Some t \<Rightarrow> apfst Some (alloc (TimeoutsCell t) h))"

definition Spec_DeepCopyInto :: "SpecObject \<Rightarrow> ('m, 'l) heap \<Rightarrow> SpecObject \<times> ('m, 'l) heap" where
  "Spec_DeepCopyInto x h =
     (let (psel, h) = copyMap (so_PodLabelSelector x) h;
          (deps, h) = copySlice (so_DependsOn x) h;
          (tms, h) = copyTimeouts (so_Timeouts x) h
      in (x\<lparr>so_PodLabelSelector := psel, so_DependsOn := deps, so_Timeouts := tms\<rparr>, h))"

definition Spec_DeepCopy :: "nat option \<Rightarrow> ('m, 'l) heap \<Rightarrow> nat option \<times> ('m, 'l) heap" where
  "Spec_DeepCopy = newCopy specOf SpecCell Spec_DeepCopyInto"

definition Status_DeepCopyInto :: "SyntheticTestStatus \<Rightarrow> ('m, 'l) heap \<Rightarrow> SyntheticTestStatus \<times> ('m, 'l) heap" where
  "Status_DeepCopyInto x h = (x, h)"

definition Status_DeepCopy :: "nat option \<Rightarrow> ('m, 'l) heap \<Rightarrow> nat option \<times> ('m, 'l) heap" where
  "Status_DeepCopy = newCopy statusOfCell StatusCell Status_DeepCopyInto"

definition Test_DeepCopyInto :: "('m \<Rightarrow> ('m, 'l) heap \<Rightarrow> 'm \<times> ('m, 'l) heap) \<Rightarrow> 'm TestObject \<Rightarrow> ('m, 'l) heap
    \<Rightarrow> 'm TestObject \<times> ('m, 'l) heap" where
  "Test_DeepCopyInto metaCopy x h =
     (let (m, h) = metaCopy (tb_meta x) h; (spec, h) = Spec_DeepCopyInto (tb_spec x) h
      in (x\<lparr>tb_meta := m, tb_spec := spec, tb_status := tb_status x\<rparr>, h))"

definition Test_DeepCopy :: "('m \<Rightarrow> ('m, 'l) heap \<Rightarrow> 'm \<times> ('m, 'l) heap) \<Rightarrow> nat option \<Rightarrow> ('m, 'l) heap \<Rightarrow> nat option \<times> ('m, 'l) heap" where
  "Test_DeepCopy metaCopy = newCopy testOfCell TestCell (Test_DeepCopyInto metaCopy)"

fun copyItems :: "('m \<Rightarrow> ('m, 'l) heap \<Rightarrow> 'm \<times> ('m, 'l) heap) \<Rightarrow> 'm TestObject list \<Rightarrow> ('m, 'l) heap
    \<Rightarrow> 'm TestObject list \<times> ('m, 'l) heap" where
  "copyItems metaCopy [] h = ([], h)"
| "copyItems metaCopy (x # xs) h =
     (let (y, h) = Test_DeepCopyInto metaCopy x h; (ys, h) = copyItems metaCopy xs h in (y # ys, h))"

definition List_DeepCopyInto :: "('l \<Rightarrow> ('m, 'l) heap \<Rightarrow> 'l \<times> ('m, 'l) heap) \<Rightarrow> ('m \<Rightarrow> ('m, 'l) heap \<Rightarrow> 'm \<times> ('m, 'l) heap)
    \<Rightarrow> 'l ListObject \<Rightarrow> ('m, 'l) heap \<Rightarrow> 'l ListObject \<times> ('m, 'l) heap" where
  "List_DeepCopyInto listMetaCopy metaCopy x h =
     (let (m, h) = listMetaCopy (lo_meta x) h in
      if lo_Items x = None then (x\<lparr>lo_meta := m\<rparr>, h)
      else (let (ys, h) = copyItems metaCopy (itemsOf (cellAt h (lo_Items x))) h; (n, h) = alloc (ItemsCell ys) h
            in (x\<lparr>lo_meta := m, lo_Items := Some n\<rparr>, h)))"

definition List_DeepCopy :: "('l \<Rightarrow> ('m, 'l) heap \<Rightarrow> 'l \<times> ('m, 'l) heap) \<Rightarrow> ('m \<Rightarrow> ('m, 'l) heap \<Rightarrow> 'm \<times> ('m, 'l) heap)
    \<Rightarrow> nat option \<Rightarrow> ('m, 'l) heap \<Rightarrow> nat option \<times> ('m, 'l) heap" where
  "List_DeepCopy listMetaCopy metaCopy = newCopy listOf ListCell (List_DeepCopyInto listMetaCopy metaCopy)"

text \<open>The copies as objects of the Kubernetes interface: a nil pointer becomes the nil interface.\<close>

definition Test_DeepCopyObject :: "('m \<Rightarrow> ('m, 'l) heap \<Rightarrow> 'm \<times> ('m, 'l) heap) \<Rightarrow> nat option \<Rightarrow> ('m, 'l) heap \<Rightarrow> nat option \<times> ('m, 'l) heap" where
  "Test_DeepCopyObject metaCopy p h = (case Test_DeepCopy metaCopy p h of (Some c, h) \<Rightarrow> (Some c, h) | (None, h) \<Rightarrow> (None, h))"

definition List_DeepCopyObject :: "('l \<Rightarrow> ('m, 'l) heap \<Rightarrow> 'l \<times> ('m, 'l) heap) \<Rightarrow> ('m \<Rightarrow> ('m, 'l) heap \<Rightarrow> 'm \<times> ('m, 'l) heap)
    \<Rightarrow> nat option \<Rightarrow> ('m, 'l) heap \<Rightarrow> nat option \<times> ('m, 'l) heap" where
  "List_DeepCopyObject listMetaCopy metaCopy p h =
     (case List_DeepCopy listMetaCopy metaCopy p h of (Some c, h) \<Rightarrow> (Some c, h) | (None, h) \<Rightarrow> (None, h))"

section \<open>Values and references\<close>

text \<open>The value of an object: the fields without references are those of \<open>so_value\<close>.\<close>

definition specValue :: "('m, 'l) heap \<Rightarrow> SpecObject \<Rightarrow> SyntheticTestSpec" where
  "specValue h x = (so_value x)\<lparr>ss_PodLabelSelector := mapOf (cellAt h (so_PodLabelSelector x)),
     ss_DependsOn := sliceOf (cellAt h (so_DependsOn x)), ss_Timeouts := timeoutsOf (cellAt h (so_Timeouts x))\<rparr>"

definition specRefs :: "SpecObject \<Rightarrow> nat set" where
  "specRefs x = set_option (so_PodLabelSelector x) \<union> set_option (so_DependsOn x) \<union> set_option (so_Timeouts x)"

definition listItems :: "('m, 'l) heap \<Rightarrow> 'l ListObject \<Rightarrow> 'm TestObject list" where
  "listItems h l = itemsOf (cellAt h (lo_Items l))"

text \<open>The resources a pointer to a list leads to, and every reference on the way to them.\<close>

definition listValue :: "('m, 'l) heap \<Rightarrow> nat option \<Rightarrow> (SyntheticTestSpec \<times> SyntheticTestStatus) list option" where
  "listValue h p = map_option (\<lambda>l. map (\<lambda>x. (specValue h (tb_spec x), tb_status x)) (listItems h l)) (listOf (cellAt h p))"

definition listRefs :: "('m, 'l) heap \<Rightarrow> nat option \<Rightarrow> nat set" where
  "listRefs h p = set_option p \<union> (case listOf (cellAt h p) of None \<Rightarrow> {}
     | Some l \<Rightarrow> set_option (lo_Items l) \<union> (\<Union>x \<in> set (listItems h l). specRefs (tb_spec x)))"

section \<open>Copies\<close>

text \<open>A later store that still has every cell of an earlier one.\<close>

definition extends :: "('m, 'l) heap \<Rightarrow> ('m, 'l) heap \<Rightarrow> bool" where
  "extends h h' \<longleftrightarrow> wfHeap h' \<and> hp_next h \<le> hp_next h' \<and> (\<forall>n. n < hp_next h \<longrightarrow> hp_cells h' n = hp_cells h n)"

lemma extends_refl: "wfHeap h \<Longrightarrow> extends h h"
  by (simp add: extends_def)

lemma extends_trans: "extends a b \<Longrightarrow> extends b c \<Longrightarrow> extends a c"
  by (auto simp: extends_def)

lemma alloc_extends:
  assumes "wfHeap h" and "\<forall>m. c = MapCell m \<longrightarrow> gwf m"
  shows "extends h (snd (alloc c h))" "fst (alloc c h) = hp_next h"
    "hp_cells (snd (alloc c h)) (hp_next h) = Some c" "hp_next (snd (alloc c h)) = Suc (hp_next h)"
  using assms by (auto simp: alloc_def extends_def wfHeap_def)

text \<open>Entering the entries of a map one by one into an empty map gives the map.\<close>

lemma update_new: "k \<notin> fst ` set m \<Longrightarrow> AList.update k v m = m @ [(k, v)]"
  by (induction m) auto

lemma refill: "distinct (map fst (acc @ m)) \<Longrightarrow> fold (\<lambda>(k, x). AList.update k x) m acc = acc @ m"
proof (induction m arbitrary: acc)
  case (Cons p m)
  have "AList.update (fst p) (snd p) acc = acc @ [p]"
    using Cons.prems update_new[of "fst p" acc "snd p"] by force
  with Cons show ?case by (simp add: split_beta)
qed simp

text \<open>A reference within a stretch of the store.\<close>

definition between :: "('m, 'l) heap \<Rightarrow> ('m, 'l) heap \<Rightarrow> nat option \<Rightarrow> bool" where
  "between h h' r \<longleftrightarrow> (\<forall>n \<in> set_option r. hp_next h \<le> n \<and> n < hp_next h')"

lemma mapOf_gwf: "wfHeap h \<Longrightarrow> gwf (mapOf (cellAt h r))"
  by (cases "cellAt h r" rule: mapOf.cases) (auto simp: cellAt_def wfHeap_def gwf_def split: option.splits)

lemma copyMap_copied:
  assumes "wfHeap h" and "copyMap r h = (r', h')"
  shows "extends h h' \<and> mapOf (cellAt h' r') = mapOf (cellAt h r) \<and> between h h' r'"
proof -
  have "fold (\<lambda>(k, x). AList.update k x) (mapOf (cellAt h r)) [] = mapOf (cellAt h r)"
    using refill[of "[]"] mapOf_gwf[OF assms(1), of r] by (simp add: gwf_def)
  then show ?thesis
    using assms alloc_extends[OF assms(1), of "MapCell (mapOf (cellAt h r))"] mapOf_gwf[OF assms(1), of r]
    by (cases "alloc (MapCell (mapOf (cellAt h r))) h") (auto simp: copyMap_def between_def cellAt_def extends_refl split: if_splits)
qed

lemma copySlice_copied:
  assumes "wfHeap h" and "copySlice r h = (r', h')"
  shows "extends h h' \<and> sliceOf (cellAt h' r') = sliceOf (cellAt h r) \<and> between h h' r'"
  using assms alloc_extends[OF assms(1), of "SliceCell (sliceOf (cellAt h r))"]
  by (cases "alloc (SliceCell (sliceOf (cellAt h r))) h") (auto simp: copySlice_def between_def cellAt_def extends_refl split: if_splits)

lemma Timeouts_copied:
  assumes "wfHeap h" and "copyTimeouts r h = (r', h')"
  shows "extends h h' \<and> timeoutsOf (cellAt h' r') = timeoutsOf (cellAt h r) \<and> between h h' r'"
proof (cases "timeoutsOf (cellAt h r)")
  case None
  then show ?thesis using assms by (auto simp: copyTimeouts_def between_def cellAt_def extends_refl)
next
  case (Some t)
  then show ?thesis using assms alloc_extends[OF assms(1), of "TimeoutsCell t"]
    by (cases "alloc (TimeoutsCell t) h") (auto simp: copyTimeouts_def between_def cellAt_def)
qed

text \<open>What lies within a store reads the same in a later one.\<close>

definition within :: "('m, 'l) heap \<Rightarrow> SpecObject \<Rightarrow> bool" where
  "within h x \<longleftrightarrow> (\<forall>n \<in> specRefs x. n < hp_next h)"

lemma cellAt_extends: "extends h h' \<Longrightarrow> \<forall>n \<in> set_option r. n < hp_next h \<Longrightarrow> cellAt h' r = cellAt h r"
  by (cases r) (auto simp: cellAt_def extends_def)

lemma specValue_extends: "extends h h' \<Longrightarrow> within h x \<Longrightarrow> specValue h' x = specValue h x"
  by (simp add: specValue_def within_def specRefs_def cellAt_extends)

lemma within_extends: "extends h h' \<Longrightarrow> within h x \<Longrightarrow> within h' x"
  by (auto simp: within_def extends_def)

lemma specValue_setCell: "n \<notin> specRefs x \<Longrightarrow> specValue (setCell n c h) x = specValue h x"
  by (auto simp: specValue_def setCell_def cellAt_def specRefs_def split: option.splits)

lemma Spec_copied:
  assumes wf: "wfHeap h" and x: "within h x" and run: "Spec_DeepCopyInto x h = (y, h')"
  shows "extends h h' \<and> specValue h' y = specValue h x \<and> (\<forall>n \<in> specRefs y. hp_next h \<le> n) \<and> within h' y"
proof -
  obtain p h1 where 1: "copyMap (so_PodLabelSelector x) h = (p, h1)" by force
  obtain d h2 where 2: "copySlice (so_DependsOn x) h1 = (d, h2)" by force
  obtain t h3 where 3: "copyTimeouts (so_Timeouts x) h2 = (t, h3)" by force
  have y: "y = x\<lparr>so_PodLabelSelector := p, so_DependsOn := d, so_Timeouts := t\<rparr>" "h' = h3"
    using run by (auto simp: Spec_DeepCopyInto_def 1 2 3)
  note c1 = copyMap_copied[OF wf 1]
  then have w1: "wfHeap h1" by (simp add: extends_def)
  note c2 = copySlice_copied[OF w1 2]
  then have w2: "wfHeap h2" by (simp add: extends_def)
  note c3 = Timeouts_copied[OF w2 3]
  have e: "extends h h1" "extends h h2" "extends h h3" "extends h1 h3" "extends h2 h3"
    using c1 c2 c3 extends_trans by blast+
  then have le: "hp_next h \<le> hp_next h1" "hp_next h1 \<le> hp_next h2" "hp_next h2 \<le> hp_next h3"
    using c1 c2 c3 by (auto simp: extends_def)
  have keep: "cellAt h3 p = cellAt h1 p" "cellAt h3 d = cellAt h2 d"
    "cellAt h1 (so_DependsOn x) = cellAt h (so_DependsOn x)" "cellAt h2 (so_Timeouts x) = cellAt h (so_Timeouts x)"
    using c1 c2 e x by (auto simp: between_def within_def specRefs_def intro!: cellAt_extends)
  show ?thesis using c1 c2 c3 e le keep x
    by (force simp: y specValue_def within_def specRefs_def between_def)
qed

text \<open>What is relied on for the copies of metadata: they keep the rest of the store as it is.\<close>

definition copiesMeta :: "('a \<Rightarrow> ('m, 'l) heap \<Rightarrow> 'a \<times> ('m, 'l) heap) \<Rightarrow> bool" where
  "copiesMeta metaCopy \<longleftrightarrow> (\<forall>m h. wfHeap h \<longrightarrow> extends h (snd (metaCopy m h)))"

lemma Test_copied:
  assumes "copiesMeta metaCopy" and "wfHeap h" and "within h (tb_spec x)" and "Test_DeepCopyInto metaCopy x h = (y, h')"
  shows "extends h h' \<and> specValue h' (tb_spec y) = specValue h (tb_spec x) \<and> tb_status y = tb_status x \<and>
    (\<forall>n \<in> specRefs (tb_spec y). hp_next h \<le> n) \<and> within h' (tb_spec y)"
proof -
  obtain m h1 where 1: "metaCopy (tb_meta x) h = (m, h1)" by force
  obtain z h2 where 2: "Spec_DeepCopyInto (tb_spec x) h1 = (z, h2)" by force
  have y: "y = x\<lparr>tb_meta := m, tb_spec := z, tb_status := tb_status x\<rparr>" "h' = h2"
    using assms(4) by (auto simp: Test_DeepCopyInto_def 1 2)
  have e1: "extends h h1" using assms(1,2) 1 by (metis copiesMeta_def snd_conv)
  then have w1: "wfHeap h1" and le: "hp_next h \<le> hp_next h1" by (auto simp: extends_def)
  from Spec_copied[OF w1 within_extends[OF e1 assms(3)] 2] specValue_extends[OF e1 assms(3)] extends_trans[OF e1] le
  show ?thesis by (auto simp: y)
qed

text \<open>Copied items: values are kept and all references are new.\<close>

definition itemsCopied :: "('m, 'l) heap \<Rightarrow> 'm TestObject list \<Rightarrow> ('m, 'l) heap \<Rightarrow> 'm TestObject list \<Rightarrow> bool" where
  "itemsCopied h xs h' ys \<longleftrightarrow>
     map (\<lambda>x. (specValue h' (tb_spec x), tb_status x)) ys = map (\<lambda>x. (specValue h (tb_spec x), tb_status x)) xs \<and>
     (\<forall>y \<in> set ys. within h' (tb_spec y) \<and> (\<forall>n \<in> specRefs (tb_spec y). hp_next h \<le> n))"

lemma itemsCopied_extends:
  assumes "itemsCopied h xs h1 ys" and "extends h1 h2"
  shows "itemsCopied h xs h2 ys"
proof -
  have "map (\<lambda>x. (specValue h2 (tb_spec x), tb_status x)) ys = map (\<lambda>x. (specValue h1 (tb_spec x), tb_status x)) ys"
    using assms(1) by (intro map_cong) (simp_all add: itemsCopied_def specValue_extends[OF assms(2)])
  from trans[OF this conjunct1[OF assms(1)[unfolded itemsCopied_def]]] show ?thesis
    using assms(1) within_extends[OF assms(2)] unfolding itemsCopied_def by blast
qed

lemma copyItems_copied:
  assumes "copiesMeta metaCopy" and "wfHeap h" and "\<forall>x \<in> set xs. within h (tb_spec x)" and "copyItems metaCopy xs h = (ys, h')"
  shows "extends h h' \<and> itemsCopied h xs h' ys"
  using assms(2-)
proof (induction xs arbitrary: h ys)
  case Nil
  then show ?case by (simp add: extends_refl itemsCopied_def)
next
  case (Cons x xs)
  obtain y h1 where 1: "Test_DeepCopyInto metaCopy x h = (y, h1)" by force
  obtain zs h2 where 2: "copyItems metaCopy xs h1 = (zs, h2)" by force
  have ys: "ys = y # zs" "h' = h2" using Cons.prems(3) by (auto simp: 1 2)
  have t: "extends h h1" "specValue h1 (tb_spec y) = specValue h (tb_spec x)" "tb_status y = tb_status x"
    "\<forall>n \<in> specRefs (tb_spec y). hp_next h \<le> n" "within h1 (tb_spec y)"
    using Test_copied[OF assms(1) Cons.prems(1) _ 1] Cons.prems(2) by auto
  then have w1: "wfHeap h1" and le: "hp_next h \<le> hp_next h1" by (auto simp: extends_def)
  have in1: "\<forall>x \<in> set xs. within h1 (tb_spec x)" using Cons.prems(2) within_extends[OF t(1)] by simp
  have rest: "copyItems metaCopy xs h1 = (zs, h')" using 2 ys(2) by simp
  from Cons.IH[OF w1 in1 rest] have ih: "extends h1 h'" "itemsCopied h1 xs h' zs" by simp_all
  have keep: "map (\<lambda>x. (specValue h1 (tb_spec x), tb_status x)) xs = map (\<lambda>x. (specValue h (tb_spec x), tb_status x)) xs"
    using Cons.prems(2) specValue_extends[OF t(1)] by simp
  have "specValue h' (tb_spec y) = specValue h (tb_spec x)" using specValue_extends[OF ih(1) t(5)] t(2) by simp
  moreover have "within h' (tb_spec y)" using within_extends[OF ih(1) t(5)] .
  moreover have "\<forall>z \<in> set zs. \<forall>n \<in> specRefs (tb_spec z). hp_next h \<le> n"
    using ih(2) le by (fastforce simp: itemsCopied_def)
  ultimately show ?case
    using ih t(3,4) keep extends_trans[OF t(1) ih(1)] by (simp add: ys(1) itemsCopied_def)
qed

lemma newCopy_new:
  assumes "newCopy get cell copyInto p h = (p', h')" and "get (cellAt h p) = Some x" and "copyInto x h = (y, h1)"
    and "extends h h1" and "\<forall>m. cell y \<noteq> MapCell m"
  shows "p' = Some (hp_next h1)" "extends h1 h'" "hp_cells h' (hp_next h1) = Some (cell y)" "hp_next h1 < hp_next h'"
proof -
  have "wfHeap h1" using assms(4) by (simp add: extends_def)
  note a = alloc_extends[OF this, of "cell y"]
  have "(p', h') = (Some (fst (alloc (cell y) h1)), snd (alloc (cell y) h1))"
    using assms(1-3) by (simp add: newCopy_def split_beta)
  with a assms(5) show "p' = Some (hp_next h1)" "extends h1 h'" "hp_cells h' (hp_next h1) = Some (cell y)" "hp_next h1 < hp_next h'"
    by auto
qed

text \<open>The copies behind single pointers: a new object with the value of the old one.\<close>

lemma pointer_copies:
  assumes "wfHeap h"
  shows "\<lbrakk>timeoutsOf (cellAt h p) = Some t; Timeouts_DeepCopy p h = (p', h')\<rbrakk> \<Longrightarrow>
      extends h h' \<and> timeoutsOf (cellAt h' p') = Some t \<and> between h h' p'"
    "\<lbrakk>statusOfCell (cellAt h p) = Some u; Status_DeepCopy p h = (p', h')\<rbrakk> \<Longrightarrow>
      extends h h' \<and> statusOfCell (cellAt h' p') = Some u \<and> between h h' p'"
    "\<lbrakk>specOf (cellAt h p) = Some x; within h x; Spec_DeepCopy p h = (p', h')\<rbrakk> \<Longrightarrow>
      extends h h' \<and> between h h' p' \<and> (\<exists>y. specOf (cellAt h' p') = Some y \<and> specValue h' y = specValue h x \<and>
        (\<forall>n \<in> specRefs y. hp_next h \<le> n))"
proof -
  show "extends h h' \<and> timeoutsOf (cellAt h' p') = Some t \<and> between h h' p'"
    if "timeoutsOf (cellAt h p) = Some t" "Timeouts_DeepCopy p h = (p', h')"
    using newCopy_new[OF that(2)[unfolded Timeouts_DeepCopy_def] that(1) Timeouts_DeepCopyInto_def extends_refl[OF assms]]
    by (auto simp: cellAt_def between_def)
  show "extends h h' \<and> statusOfCell (cellAt h' p') = Some u \<and> between h h' p'"
    if "statusOfCell (cellAt h p) = Some u" "Status_DeepCopy p h = (p', h')"
    using newCopy_new[OF that(2)[unfolded Status_DeepCopy_def] that(1) Status_DeepCopyInto_def extends_refl[OF assms]]
    by (auto simp: cellAt_def between_def)
  show "extends h h' \<and> between h h' p' \<and> (\<exists>y. specOf (cellAt h' p') = Some y \<and> specValue h' y = specValue h x \<and>
      (\<forall>n \<in> specRefs y. hp_next h \<le> n))"
    if "specOf (cellAt h p) = Some x" "within h x" "Spec_DeepCopy p h = (p', h')"
  proof -
    obtain y h1 where 1: "Spec_DeepCopyInto x h = (y, h1)" by force
    note c = Spec_copied[OF assms that(2) 1]
    note n = newCopy_new[OF that(3)[unfolded Spec_DeepCopy_def] that(1) 1 conjunct1[OF c]]
    then have "extends h1 h'" by simp
    with n c show ?thesis
      using extends_trans[of h h1 h'] specValue_extends[of h1 h' y] by (auto simp: cellAt_def between_def extends_def)
  qed
qed

lemma Test_DeepCopy_copied:
  assumes "copiesMeta metaCopy" and "wfHeap h" and "testOfCell (cellAt h p) = Some x" and "within h (tb_spec x)"
    and "Test_DeepCopyObject metaCopy p h = (p', h')"
  shows "extends h h' \<and> between h h' p' \<and> (\<exists>y. testOfCell (cellAt h' p') = Some y \<and> tb_status y = tb_status x \<and>
    specValue h' (tb_spec y) = specValue h (tb_spec x) \<and> (\<forall>n \<in> specRefs (tb_spec y). hp_next h \<le> n))"
proof -
  obtain y h1 where 1: "Test_DeepCopyInto metaCopy x h = (y, h1)" by force
  have run: "Test_DeepCopy metaCopy p h = (p', h')"
    using assms(5) by (auto simp: Test_DeepCopyObject_def split: prod.splits option.splits)
  note c = Test_copied[OF assms(1,2,4) 1]
  note n = newCopy_new[OF run[unfolded Test_DeepCopy_def] assms(3) 1 conjunct1[OF c]]
  then have "extends h1 h'" by simp
  with n c show ?thesis
    using extends_trans[of h h1 h'] specValue_extends[of h1 h' "tb_spec y"] by (auto simp: cellAt_def between_def extends_def)
qed

text \<open>A pointer to a list all of whose references are in the store.\<close>

definition listWithin :: "('m, 'l) heap \<Rightarrow> nat option \<Rightarrow> bool" where
  "listWithin h p \<longleftrightarrow> (\<forall>n \<in> listRefs h p. n < hp_next h)"

lemma list_extends:
  assumes "extends h h'" and "listWithin h p"
  shows "listValue h' p = listValue h p" "listRefs h' p = listRefs h p"
proof -
  have p: "cellAt h' p = cellAt h p"
    using assms by (intro cellAt_extends) (auto simp: listWithin_def listRefs_def)
  have "listValue h' p = listValue h p \<and> listRefs h' p = listRefs h p"
  proof (cases "listOf (cellAt h p)")
    case None
    then show ?thesis using p by (simp add: listValue_def listRefs_def)
  next
    case (Some l)
    then have r: "\<forall>n \<in> set_option (lo_Items l). n < hp_next h" "\<forall>x \<in> set (listItems h l). within h (tb_spec x)"
      using assms(2) by (auto simp: listWithin_def listRefs_def within_def)
    have items: "listItems h' l = listItems h l" using cellAt_extends[OF assms(1) r(1)] by (simp add: listItems_def)
    show ?thesis using Some p items r(2) specValue_extends[OF assms(1)] by (simp add: listValue_def listRefs_def)
  qed
  then show "listValue h' p = listValue h p" "listRefs h' p = listRefs h p" by simp_all
qed

lemma cellAt_setCell: "n \<notin> set_option r \<Longrightarrow> cellAt (setCell n c h) r = cellAt h r"
  by (cases r) (auto simp: cellAt_def setCell_def)

lemma list_setCell: "n \<notin> listRefs h p \<Longrightarrow> listValue (setCell n c h) p = listValue h p"
  by (cases "listOf (cellAt h p)")
    (auto simp: listValue_def listRefs_def listItems_def cellAt_setCell specValue_setCell)

lemma List_copied:
  assumes meta: "copiesMeta listMetaCopy" "copiesMeta metaCopy" and wf: "wfHeap h" and p: "listWithin h p"
    and l: "listOf (cellAt h p) = Some l" and run: "List_DeepCopy listMetaCopy metaCopy p h = (p', h')"
  shows "extends h h' \<and> listValue h' p' = listValue h p \<and> (\<forall>n \<in> listRefs h' p'. hp_next h \<le> n)"
proof -
  obtain m h1 where 1: "listMetaCopy (lo_meta l) h = (m, h1)" by force
  have e1: "extends h h1" using meta(1) wf 1 by (metis copiesMeta_def snd_conv)
  then have w1: "wfHeap h1" and le1: "hp_next h \<le> hp_next h1" by (auto simp: extends_def)
  obtain l' h2 where 2: "List_DeepCopyInto listMetaCopy metaCopy l h = (l', h2)" by force
  have items: "listItems h1 l = listItems h l"
    using p l cellAt_extends[OF e1, of "lo_Items l"] by (auto simp: listItems_def listWithin_def listRefs_def)
  have in1: "\<forall>x \<in> set (listItems h l). within h (tb_spec x)" "\<forall>x \<in> set (listItems h l). within h1 (tb_spec x)"
    using p l within_extends[OF e1] by (auto simp: listWithin_def listRefs_def within_def)
  have keep: "map (\<lambda>x. (specValue h1 (tb_spec x), tb_status x)) (listItems h l) =
      map (\<lambda>x. (specValue h (tb_spec x), tb_status x)) (listItems h l)"
    using in1(1) specValue_extends[OF e1] by simp
  have body: "extends h h2 \<and> itemsCopied h1 (listItems h l) h2 (listItems h2 l') \<and> between h h2 (lo_Items l')"
  proof (cases "lo_Items l")
    case None
    then have "l' = l\<lparr>lo_meta := m\<rparr>" "h2 = h1" using 2 by (auto simp: List_DeepCopyInto_def 1)
    then show ?thesis using None e1 by (simp add: listItems_def cellAt_def itemsCopied_def between_def)
  next
    case (Some r)
    obtain ys h3 where 3: "copyItems metaCopy (listItems h l) h1 = (ys, h3)" by force
    from copyItems_copied[OF meta(2) w1 in1(2) 3] have c: "extends h1 h3" "itemsCopied h1 (listItems h l) h3 ys" by simp_all
    then have w3: "wfHeap h3" and le3: "hp_next h1 \<le> hp_next h3" by (auto simp: extends_def)
    note a = alloc_extends[OF w3, of "ItemsCell ys"]
    have l': "l' = l\<lparr>lo_meta := m, lo_Items := Some (hp_next h3)\<rparr>" "h2 = snd (alloc (ItemsCell ys) h3)"
      using 2 3 Some items a(2) by (auto simp: List_DeepCopyInto_def 1 split_beta listItems_def)
    have e3: "extends h3 h2" using a(1) l'(2) by simp
    have "listItems h2 l' = ys" using a(3) by (simp add: listItems_def cellAt_def l')
    with itemsCopied_extends[OF c(2) e3] extends_trans[OF extends_trans[OF e1 c(1)] e3] le1 le3 a(4)
    show ?thesis by (simp add: between_def l')
  qed
  then have w2: "extends h h2" "itemsCopied h1 (listItems h l) h2 (listItems h2 l')" "between h h2 (lo_Items l')" by simp_all
  note n = newCopy_new[OF run[unfolded List_DeepCopy_def] l 2 w2(1)]
  have n': "p' = Some (hp_next h2)" "extends h2 h'" "cellAt h' p' = Some (ListCell l')"
    using n by (auto simp: cellAt_def)
  have it: "listItems h' l' = listItems h2 l'"
    using cellAt_extends[OF n'(2), of "lo_Items l'"] w2(3) by (simp add: listItems_def between_def)
  have "itemsCopied h1 (listItems h l) h' (listItems h' l')" using itemsCopied_extends[OF w2(2) n'(2)] it by simp
  then show ?thesis
    using n' extends_trans[OF w2(1) n'(2)] w2(1,3) le1 keep l
    by (fastforce simp: listValue_def listRefs_def itemsCopied_def between_def extends_def)
qed


definition exampleHeap :: "(unit, unit) heap" where
  "exampleHeap = \<lparr>hp_cells = [0 \<mapsto> MapCell [(''app'', ''web'')], 1 \<mapsto> TimeoutsCell zeroTimeouts,
     2 \<mapsto> ItemsCell [\<lparr>tb_meta = (),
       tb_spec = \<lparr>so_value = cr_Spec exampleTest, so_PodLabelSelector = Some 0, so_DependsOn = None, so_Timeouts = Some 1\<rparr>,
       tb_status = cr_Status exampleTest\<rparr>],
     3 \<mapsto> ListCell \<lparr>lo_meta = (), lo_Items = Some 2\<rparr>], hp_next = 4\<rparr>"


end
