(* ===== verification/Spec2Isabelle.thy ===== *)
theory Spec2Isabelle
  imports AgentLoop RestServer Prometheus JsonPing Broadcaster Selector StoreProps ControllerLoop ControllerMain DeepCopy
begin

text \<open>
  Verification of synthetic-heart, a system that runs synthetic tests on the nodes of a Kubernetes
  cluster. Three programs share a Redis server.

  \<^item> The controller (src/controller) copies the custom resources of the tests to Redis, assigns an
    agent to a test that asks for one, and periodically removes what belongs to pods, resources or
    agents that are gone.
  \<^item> An agent (src/agent) runs on every node. Its plugin manager starts and stops tests to match the
    configurations in Redis that select the agent. A test routine starts a plugin process, calls it
    over gRPC and publishes the run to a broadcaster. Exporters carry the runs and the states of the
    plugins to Redis and to Prometheus.
  \<^item> The REST API (src/restapi) serves what Redis holds and a summary of the health of all tests.

  \<^bold>\<open>Conventions.\<close> Structs are records, enumerations are datatypes or the strings the code uses, and
  a function of the code is a function of the same name that takes and returns the state it changes.
  Errors are values (\<open>err\<close>, or a sum type with the error on the left); \<open>os.Exit\<close> and panics are the
  outcome None. A Go map is an association list with distinct keys in the order one \<open>range\<close> visits
  it, so a theorem about every list is one about every order. Integers have their width where it
  matters (the back-off, the marks); float64 is modelled exactly in \<open>Float64\<close>. Code outside src/ (the
  Redis client, Kubernetes, gRPC, YAML, JSON, the Prometheus client, the clock, the operating system)
  is a parameter; what is relied on is a locale or a hypothesis, and each is shown to be satisfiable
  by an instance, usually the server in memory of \<open>MemoryRedis\<close>.

  \<^bold>\<open>Shared code.\<close>
  \<^item> \<open>Prelude\<close>: Go maps, errors, the chaining of fallible operations, strings.
  \<^item> \<open>Glob\<close>: \<open>filepath.Match\<close>; equivalence of the matcher with the meaning of a pattern.
  \<^item> \<open>Models\<close>: common/models.go, common/constants.go, the messages, identifiers of common/helpers.go;
    identifiers are read back as they were built.
  \<^item> \<open>Selector\<close>: \<open>IsAgentValidForSynTest\<close>; it is the conjunction of its conditions.
  \<^item> \<open>Float64\<close>, \<open>Metrics\<close>: pass ratios, the gauges of a result and the logger of its details.

  \<^bold>\<open>Storage\<close> (common/storage).
  \<^item> \<open>Store\<close>: every method of redis.go as its sequence of commands with retries and error paths.
  \<^item> \<open>StoreLaws\<close>, \<open>StoreContract\<close>: the locales \<open>redis_service\<close> (a server, any command of which may
    fail), \<open>reliable_redis\<close> (one that answers) and \<open>synheart_store\<close>, \<open>reliable_store\<close> (what clients
    rely on). \<open>RedisStore\<close>, \<open>RedisReliable\<close> and \<open>RunStore\<close> show that the code implements the
    contract over every such server (sublocales), and \<open>MemoryRedis\<close> that there is one.
  \<^item> \<open>StoreProps\<close>: round trips, confinement of failed writes, complete deletion.

  \<^bold>\<open>Controller.\<close>
  \<^item> \<open>Sync\<close>: controller/sync/sync.go; after a pass the stored agents, configurations and runs are
    those of the cluster. The effects of a failed listing are stated as they are.
  \<^item> \<open>Controller\<close>: \<open>Reconcile\<close>; a test that asks for one agent is accepted by exactly one.
  \<^item> \<open>ControllerLoop\<close>: \<open>SetupWithManager\<close> and the subscriptions as step relations over all
    interleavings; the channels keep their bounds, cannot block for good, and an agent event makes
    every test due after finitely many steps.
  \<^item> \<open>ControllerMain\<close>: controller/cmd/main.go; the flags are read back as they were written, reach the
    manager, and the first call that fails ends the process.
  \<^item> \<open>DeepCopy\<close>: every copy function of resources and lists over an explicit store; a copy shares
    nothing.

  \<^bold>\<open>Agent.\<close>
  \<^item> \<open>StateMap\<close>, \<open>Lifecycle\<close>: the table of plugin states (state.go) with its abstract map, and
    \<open>StartPlugin\<close> with restart policies and back-off.
  \<^item> \<open>PluginManager\<close>: \<open>SyncSyntestPluginConfigs\<close> and the clean-up; after a pass exactly the selected
    configurations run. \<open>AgentStartup\<close>: configuration, labels and plugin discovery. \<open>AgentLoop\<close>:
    \<open>Start\<close> and main as a step relation with its invariant, and the two ways in which it can block.
  \<^item> \<open>TestRoutine\<close>: syntest.go; every test that initialises publishes one run, one run per trigger.
  \<^item> \<open>Broadcaster\<close>, \<open>WorkerPool\<close>: goroutines and channels as step relations; runs arrive in order and
    within the buffers, and the pool ends with one result per job after at most five steps per job.
  \<^item> \<open>PoolPlugins\<close> (dns, netDial, httpPing), \<open>CommandPlugins\<close> (curl, ping, run.go), \<open>JsonPing\<close> (the
    Python plugin): the marks of a test are those of its targets, for every schedule of the workers.
  \<^item> \<open>PluginRpc\<close>: the gRPC wrappers, the plugins and the Go template as servers (\<open>grpc_conn\<close>)
    and the log buffer; the result of a plugin is the result of the published run, and no log line is lost.
  \<^item> \<open>Exporter\<close> (storage.go) and \<open>Prometheus\<close> (prometheus.go): what is exported follows the runs.

  \<^bold>\<open>REST API.\<close> \<open>RestApi\<close> has the routes and handlers of restapi/main.go and \<open>RestServer\<close> the process;
  requests are answered with the stored data, the summary is that of the last refresh, and the API
  never writes.

  \<^bold>\<open>This theory\<close> has the properties that span the programs: a run is visible from the plugin to the
  API, a test that asks for one agent is run by exactly one of a fleet, a test whose resource is
  deleted stops on every agent, and the clean-up of the controller keeps what an agent has just
  reported.

  \<^bold>\<open>Bounds and termination.\<close> Loops over finite data are structural recursions. The loops of the
  goroutines that run for ever are functions of the finite list of what they receive, of any length,
  or step relations whose reachable states are covered by invariants; \<open>agentMain\<close>, which might
  restart for ever, is a partial function shown to end after one round. No definition has fuel that a
  theorem depends on: reading the log buffer is a function of the rounds of the reader, and more
  rounds than there are bytes are shown to be enough.

  \<^bold>\<open>Not modelled.\<close> groupversion_info.go only registers the resource type with the Kubernetes
  library. The accessors and descriptors of the protobuf packages are generated. Logging,
  \<open>printConfig\<close>, \<open>PrintIPAndUserAgent\<close>, the HTTP server of \<open>startPrometheusClient\<close>, \<open>Close\<close>,
  \<open>Finish\<close> of the REST API (the shutdown of its server) and the handshake of plugin processes, in
  Python also \<open>serve\<close>, have no effect on the state of the model. \<open>ChronySource\<close> is unused. The
  Python template, the test client and the test utilities are not part of the programs.
\<close>

section \<open>From a test to the API\<close>

lemma published_run:
  assumes "testPlugin md5 str env i t f = Some out" and "out_run out = Some run"
  obtains printed e where "runTest md5 str env (Trigger TriggerTypeTimer None []) t = (run, printed, e)"
  using assms that by (auto simp: testPlugin_eq split: if_splits option.splits prod.splits)

text \<open>A request for a run of a plugin, or for the logs of it.\<close>

definition runRequest :: "string \<Rightarrow> string \<Rightarrow> request" where
  "runRequest i what = \<lparr>rq_Path = pluginPath ''testrun'' i what, rq_RawQuery = []\<rparr>"

context reliable_redis begin

lemma run_served:
  assumes "redisInv r (v s)" and "ra_store api = r"
    and "segment n" "segment ns" "segment p" "segment pns" and "i = ComputePluginId n ns (ComputeAgentId p pns)"
    and "(what, get) \<in> {(''latest'', v_latest), (''lastFailed'', v_failed)}" and "get (viewOf r (v s)) i = Some t"
  shows "\<exists>w s' w' s'' body. serve env api (runRequest i what) s = Some (w, s') \<and> v s' = v s \<and>
    response w = (200, ''application/json'', body) \<and> rs_unmarshalRun r body = Inr t \<and>
    serve env api (runRequest i (what @ ''/logs'')) s' = Some (w', s'') \<and>
    response w' = (200, ''text/plain'', gidx (tr_Details t) LogKey)"
proof -
  note route = route_run[OF assms(3-6), folded assms(7)]
  have sfx: "strings_HasSuffix (URL_String (runRequest i x)) q \<longleftrightarrow>
      prefix (rev q) (rev x @ CHR ''/'' # rev (''/api/v1/testrun/'' @ i))" for x q
    by (simp add: HasSuffix_rev URL_String_def pluginPath_def runRequest_def)
  have path: "rq_Path (runRequest i x) = pluginPath ''testrun'' i x" for x by (simp add: runRequest_def)
  have what: "(what = ''latest'' \<and> get = v_latest) \<or> (what = ''lastFailed'' \<and> get = v_failed)" using assms(8) by simp
  let ?f = "if what = ''lastFailed'' then TestRunLastFailedFmt else TestRunLatestFmt"
  obtain body where body: "rv_str (v s) (?f i) = Some body" "rs_unmarshalRun r body = Inr t"
    using assms(9) what by (cases "rv_str (v s) (?f i)") (auto simp: viewOf_def split: sum.splits)
  obtain w s' where run: "GetTestRun api (Some i) (runRequest i what) newWriter s = (w, s')" "v s' = v s"
    "response w = servedAs (rv_str (v s) (?f i)) ''no testrun found''"
    using GetTestRun_served[OF assms(1,2), of i "runRequest i what"] what by (auto simp: sfx)
  have inv: "redisInv r (v s')" using assms(1) run(2) by simp
  have "(if strings_HasSuffix (URL_String (runRequest i (what @ ''/logs''))) ''/lastFailed/logs'' then v_failed else v_latest)
      (viewOf r (v s')) i = Some t"
    using what assms(9) run(2) by (auto simp: sfx)
  from GetTestLogs_served[OF inv assms(2) this] obtain w' s'' where
    logs: "GetTestLogs api (Some i) (runRequest i (what @ ''/logs'')) newWriter s' = (w', s'')"
      "response w' = (200, ''text/plain'', gidx (tr_Details t) LogKey)" by blast
  have "serve env api (runRequest i what) s = Some (w, s')"
    "serve env api (runRequest i (what @ ''/logs'')) s' = Some (w', s'')"
    using what run(1) logs(1) route(1-4) by (auto simp: serve_def path)
  with run(2,3) body logs(2) show ?thesis by (auto simp: servedAs_def)
qed

lemma run_stored:
  assumes "redisInv r (v s)" and "esh_Store esh = NewRedisSynHeartStore r"
    and "rs_marshalRun r run = Inr b" and "tr_AgentId run = esh_agentId esh"
  shows "\<exists>s'. runTestRunExporter esh [RunReceived run] s = (True, s') \<and> redisInv r (v s') \<and>
    v_latest (viewOf r (v s')) (runPluginId run) = Some run \<and>
    (f64_lt1 (passRatioOf run) \<longrightarrow> v_failed (viewOf r (v s')) (runPluginId run) = Some run)"
  using rruns.export_runs_exact[OF assms(1) _ assms(2), of "[run]" "runPluginId run"] assms(3,4)
  by (auto simp: exported_def lastOr_def)

end

text \<open>
  C1. A test is visible end to end: a run that a test routine publishes goes through the exporter of
  its agent into the storage, and the API then serves it. For names the routes accept, a request for
  the latest run gets bytes that decode to exactly that run, and a request for its logs gets the
  text the plugin wrote; when the plugin did not answer in time, the same holds for the last failed
  run.
\<close>

theorem run_visible_end_to_end:
  assumes "reliable_redis (ra_store api) v" and "redisInv (ra_store api) (v s)"
    and "esh_Store esh = NewRedisSynHeartStore (ra_store api)"
    and "esh_agentId esh = ComputeAgentId p pns" and "str_agentId str = esh_agentId esh"
    and "segment (stc_Name (str_config str))" "segment (stc_Namespace (str_config str))" "segment p" "segment pns"
    and "testPlugin md5 str tenv it rt ft = Some out" and "out_run out = Some run"
    and "rs_marshalRun (ra_store api) run = Inr b"
    and "what = ''latest'' \<or> what = ''lastFailed'' \<and> te_perform tenv rt = PerformEnds e"
    and "i = ComputePluginId (stc_Name (str_config str)) (stc_Namespace (str_config str)) (esh_agentId esh)"
  shows "\<exists>s1 w s2 w' s3 body. runTestRunExporter esh [RunReceived run] s = (True, s1) \<and>
    serve env api (runRequest i what) s1 = Some (w, s2) \<and> response w = (200, ''application/json'', body) \<and>
    rs_unmarshalRun (ra_store api) body = Inr run \<and>
    serve env api (runRequest i (what @ ''/logs'')) s2 = Some (w', s3) \<and>
    response w' = (200, ''text/plain'', case te_logs tenv of Inl _ \<Rightarrow> ''<unable to fetch logs>'' | Inr l \<Rightarrow> l)"
proof -
  obtain printed er where r: "runTest md5 str tenv (Trigger TriggerTypeTimer None []) rt = (run, printed, er)"
    by (rule published_run[OF assms(10,11)])
  note f = runTest_facts[OF r]
  have i: "runPluginId run = i" using f(1,2) assms(5,14) by (simp add: runPluginId_def)
  have logs: "gidx (tr_Details run) LogKey = (case te_logs tenv of Inl _ \<Rightarrow> ''<unable to fetch logs>'' | Inr l \<Rightarrow> l)"
    using f(3) by (simp add: gidx_def)
  have agent: "tr_AgentId run = esh_agentId esh" using f(1) assms(5) by simp
  have failed: "f64_lt1 (passRatioOf run)" if "te_perform tenv rt = PerformEnds e"
    using f(5) that f64_lt1_div[of 0 1] by (simp add: passRatioOf_def)
  obtain s1 where s1: "runTestRunExporter esh [RunReceived run] s = (True, s1)" "redisInv (ra_store api) (v s1)"
    "v_latest (viewOf (ra_store api) (v s1)) i = Some run"
    "f64_lt1 (passRatioOf run) \<longrightarrow> v_failed (viewOf (ra_store api) (v s1)) i = Some run"
    using reliable_redis.run_stored[OF assms(1-3,12) agent] i by auto
  obtain get where "(what, get) \<in> {(''latest'', v_latest), (''lastFailed'', v_failed)}"
    "get (viewOf (ra_store api) (v s1)) i = Some run"
    using assms(13) s1(3,4) failed by blast
  from reliable_redis.run_served[OF assms(1) s1(2) refl assms(6-9) assms(14)[unfolded assms(4)] this, of env] s1(1)
  show ?thesis unfolding logs by blast
qed

definition visibleRoutine :: SynTestRoutine where
  "visibleRoutine = exampleRoutine\<lparr>str_config := zeroSynTestConfig\<lparr>stc_Name := ''dns'', stc_Namespace := ''prod''\<rparr>\<rparr>"

theorem run_visible_end_to_end_witness:
  "\<exists>out run s1 w s2. testPlugin (\<lambda>s. s) visibleRoutine slowTest 1 1 1 = Some out \<and> out_run out = Some run \<and>
     runTestRunExporter exampleHandler [RunReceived run] emptyMem = (True, s1) \<and>
     serve exampleRest exampleApi (runRequest ''dns/prod/pod-1/heart'' ''lastFailed'') s1 = Some (w, s2) \<and>
     fst (response w) = 200"
proof -
  obtain run printed e where r: "runTest (\<lambda>s. s) visibleRoutine slowTest (Trigger TriggerTypeTimer None []) 1 = (run, printed, e)"
    by (cases "runTest (\<lambda>s. s) visibleRoutine slowTest (Trigger TriggerTypeTimer None []) 1")
  then obtain out where out: "testPlugin (\<lambda>s. s) visibleRoutine slowTest 1 1 1 = Some out" "out_run out = Some run"
    by (cases e) (auto simp: testPlugin_eq visibleRoutine_def exampleRoutine_def slowTest_def)
  obtain b where b: "rs_marshalRun memStore run = Inr b"
    using r by (auto simp: runTest_def performTest_def GRPCClient_PerformTest_def FailedTestResult_def Let_def slowTest_def
        memStore_def encRun_def)
  have seg: "segment ''dns''" "segment ''prod''" "segment ''pod-1''" "segment ''heart''" by code_simp+
  have parts: "ra_store exampleApi = memStore" "esh_agentId exampleHandler = ''pod-1/heart''"
    "str_agentId visibleRoutine = ''pod-1/heart''" "stc_Name (str_config visibleRoutine) = ''dns''"
    "stc_Namespace (str_config visibleRoutine) = ''prod''" "te_perform slowTest 1 = PerformEnds CtxDeadlineExceeded"
    by (simp_all add: exampleApi_def exampleHandler_def visibleRoutine_def exampleRoutine_def slowTest_def)
  have ids: "''pod-1/heart'' = ComputeAgentId ''pod-1'' ''heart''" "''dns/prod/pod-1/heart'' = ComputePluginId ''dns'' ''prod'' ''pod-1/heart''"
    by (simp_all add: ComputePluginId_def ComputeAgentId_def)
  show ?thesis
    using run_visible_end_to_end[of exampleApi memView emptyMem exampleHandler "''pod-1''" "''heart''" visibleRoutine
        "\<lambda>s. s" slowTest 1 1 1 out run b "''lastFailed''" CtxDeadlineExceeded "''dns/prod/pod-1/heart''" exampleRest,
        unfolded parts, OF memory.reliable_redis_axioms emptyMem_inv exampleHandler_store ids(1) refl seg out b _ ids(2)] out
    by fastforce
qed

section \<open>Agents that report keep their data\<close>

text \<open>
  C9. Reporting and cleaning up agree: when an agent has exported its status and the controller then
  makes a pass before the status is out of date, the pass keeps the run status of exactly those
  plugins of the agent that were in its table, and removes that of every other plugin of the agent.
\<close>

theorem reported_plugins_kept:
  assumes "reliable_run_store (esh_Store esh) view ok nsum nagent nstatus nstate encodableRun"
    and "reliable_cluster (esh_Store esh) view ok nsum nagent nstatus k8s encodable"
    and "ok s" and "wfStates sm" and "esh_agentId esh = ComputeAgentId pod pns"
    and "nagent (GetAgentStatus now sm) = GetAgentStatus now sm"
    and "se_deadline env = Some d" "se_parseDuration env d = Inr dur"
    and "se_parseTime env now = Inr tm" "se_now env (esh_agentId esh) - tm < dur"
    and "slashFree pod" "slashFree pns" and "slashFree t" "slashFree ns" and "p = ComputePluginId t ns (esh_agentId esh)"
    and "\<forall>i \<in> dom (stateOf sm). \<exists>t ns. slashFree t \<and> slashFree ns \<and> i = ComputePluginId t ns (esh_agentId esh)"
  shows "\<exists>s1 s2. runPluginHealthExporter esh [HealthTick now sm] s = (True, s1) \<and>
    SynTests env (esh_Store esh) k8s s1 = (Some (Inr ()), s2) \<and>
    v_runStatus (view s2) p = (if p \<in> dom (stateOf sm) then v_runStatus (view s) p else None)"
proof -
  let ?a = "esh_agentId esh"
  have tick: "runPluginHealthExporter esh [HealthTick now sm] s = (True, exportHealth esh now sm s)" by simp
  let ?s1 = "exportHealth esh now sm s"
  have s1: "ok ?s1" "v_runStatus (view ?s1) = v_runStatus (view s)" "v_agents (view ?s1) ?a = Some (GetAgentStatus now sm)"
    using reliable_run_store.export_health_exact[OF assms(1,3,4) refl, of now] assms(6)
    by (auto simp: runAt_def fun_eq_iff)
  have ids: "synTestOfPluginId (ComputePluginId t ns ?a) = ComputeSynTestConfigId t ns" if "slashFree t" "slashFree ns" for t ns
    using GetPluginIdComponents_Compute[OF that assms(11,12)] assms(5) by (simp add: synTestOfPluginId_def)
  have listed: "ComputeSynTestConfigId t ns \<in> set (as_SynTests (GetAgentStatus now sm)) \<longleftrightarrow> p \<in> dom (stateOf sm)"
  proof -
    have "set (as_SynTests (GetAgentStatus now sm)) = synTestOfPluginId ` dom (stateOf sm)"
      by (auto simp: GetAgentStatus_def dom_map_of_conv_image_fst image_comp)
    moreover have "synTestOfPluginId i = ComputeSynTestConfigId t ns \<longleftrightarrow> i = p" if "i \<in> dom (stateOf sm)" for i
      using assms(16)[rule_format, OF that] assms(13-15) ids by (auto simp: ComputeSynTestConfigId_inject)
    ultimately show ?thesis using ids[OF assms(13,14)] assms(15) by force
  qed
  have active: "activeOf env (v_agents (view ?s1)) ?a = Some (GetAgentStatus now sm)"
    using s1(3) assms(7-10) by (simp add: activeOf_def expired_def GetAgentStatus_def)
  obtain listed1 s' where l: "k8_ListTests k8s ?s1 = (listed1, s')" by (cases "k8_ListTests k8s ?s1")
  obtain s2 act where s2: "SynTests env (esh_Store esh) k8s ?s1 = (Some (Inr ()), s2)"
    "\<And>i. map_of act i = activeOf env (v_agents (view ?s1)) i"
    "\<And>p. v_runStatus (view s2) p = (if isStale act p = Some True then None else v_runStatus (view ?s1) p)"
    by (rule reliable_cluster.SynTests_exact[OF assms(2) s1(1) l assms(7,8) refl]) auto
  have "isStale act p = Some (p \<notin> dom (stateOf sm))"
    using GetPluginIdComponents_Compute[OF assms(13,14,11,12)] assms(5,15) s2(2)[of ?a] active listed
    by (simp add: isStale_def)
  with tick s2(1,3) s1(2) show ?thesis by auto
qed

definition promptEnv :: sync_env where
  "promptEnv = exampleEnv\<lparr>se_parseTime := (\<lambda>_. Inr 100), se_now := (\<lambda>_. 130)\<rparr>"

theorem reported_plugins_kept_witness:
  "\<exists>s s1 s2 x. runPluginHealthExporter exampleHandler [HealthTick ''now'' exampleTable] s = (True, s1) \<and>
     SynTests promptEnv (NewRedisSynHeartStore memStore) (memCluster (Inr []) (Inr [])) s1 = (Some (Inr ()), s2) \<and>
     v_runStatus (memView' s2) ''dns/prod/pod-1/heart'' = Some x"
proof -
  let ?i = "''dns/prod/pod-1/heart''"
  obtain s where s: "st_WriteTestRun (NewRedisSynHeartStore memStore) ?i exampleRun emptyMem = (Inr (), s)"
    using exampleRun_written by (auto simp: NewRedisSynHeartStore_def)
  obtain x where x: "memInv s" "v_runStatus (memView' s) ?i = Some x"
    using memory.runs.write_run[OF emptyMem_inv s] by blast
  have parts: "esh_agentId exampleHandler = ''pod-1/heart''" "dom (stateOf exampleTable) = {?i}" "wfStates exampleTable"
    by (auto simp: exampleHandler_def exampleTable_def SetPluginState_def NewStateMap_def gwf_def split: if_splits)
  have ids: "''pod-1/heart'' = ComputeAgentId ''pod-1'' ''heart''" "?i = ComputePluginId ''dns'' ''prod'' ''pod-1/heart''"
    by (simp_all add: ComputePluginId_def ComputeAgentId_def)
  have sf: "slashFree ''pod-1''" "slashFree ''heart''" "slashFree ''dns''" "slashFree ''prod''" by (simp_all add: slashFree_def)
  have env: "se_deadline promptEnv = Some ''1m''" "se_parseDuration promptEnv ''1m'' = Inr 60"
    "se_parseTime promptEnv ''now'' = Inr 100" "se_now promptEnv ''pod-1/heart'' - 100 < 60"
    by (simp_all add: promptEnv_def exampleEnv_def)
  have n: "through (rs_marshalAgent memStore) (rs_unmarshalAgent memStore) a = a" for a
    by (simp add: memStore_def through_def)
  have dom: "\<forall>i \<in> {?i}. \<exists>t ns. slashFree t \<and> slashFree ns \<and> i = ComputePluginId t ns ''pod-1/heart''"
    using sf(3,4) ids(2) by blast
  from reported_plugins_kept[of exampleHandler, unfolded exampleHandler_store parts(1), OF memory.rruns.reliable_run_store_axioms
      mem_cluster.reliable_cluster_axioms x(1) parts(3) ids(1) n env sf ids(2), unfolded parts(2), OF dom]
  show ?thesis using x(2) by fastforce
qed

section \<open>From a resource to the agents\<close>

text \<open>Each of several agents makes a pass over the shared storage, one after the other.\<close>

fun passes :: "pm_env \<Rightarrow> 's SynHeartStore \<Rightarrow> PluginManager list \<Rightarrow> 's \<Rightarrow> (PluginManager list \<times> 's) option" where
  "passes env st [] s = Some ([], s)"
| "passes env st (pm # pms) s =
     (case SyncSyntestPluginConfigs env st pm s of
        None \<Rightarrow> None
      | Some (_, pm', s) \<Rightarrow> map_option (\<lambda>(pms, s). (pm' # pms, s)) (passes env st pms s))"

context reliable_store begin

lemma passes_exact:
  assumes "inv s" and "\<forall>pm \<in> set pms. gwf (pm_SyntheticTests pm) \<and> testOf pm i = None"
    and "v_sum (view s) i \<noteq> None" and "v_cfg (view s) i = Some c"
  shows "\<exists>pms' s'. passes env st pms s = Some (pms', s') \<and>
    list_all2 (\<lambda>pm pm'. if runsHere pm c then \<exists>t. testOf pm' i = Some t \<and> at_config t = c else testOf pm' i = None) pms pms'"
  using assms
proof (induction pms arbitrary: s)
  case (Cons pm pms)
  obtain x where x: "v_sum (view s) i = Some x" using Cons.prems(3) by auto
  have g: "gwf (pm_SyntheticTests pm)" "testOf pm i = None" using Cons.prems(2) by simp_all
  obtain ch pm' s1 where p: "SyncSyntestPluginConfigs env st pm s = Some ((ch, None), pm', s1)" "sameConfigs inv view s s1"
    "\<forall>j. case v_sum (view s) j of None \<Rightarrow> testOf pm' j = None
       | Some sm \<Rightarrow> syncedEntry pm (v_cfg (view s) j) (sum_Version sm) (testOf pm j) (testOf pm' j)"
    using sync_exact[OF Cons.prems(1) g(1), of env] by blast
  have "syncedEntry pm (v_cfg (view s) i) (sum_Version x) (testOf pm i) (testOf pm' i)"
    using p(3)[THEN spec, of i] unfolding x option.case .
  then have e: "if runsHere pm c then \<exists>t. testOf pm' i = Some t \<and> at_config t = c else testOf pm' i = None"
    unfolding syncedEntry_def g(2) Cons.prems(4) by (auto split: if_splits)
  have "inv s1" "v_sum (view s1) i \<noteq> None" "v_cfg (view s1) i = Some c"
    using p(2) Cons.prems(3,4) by (auto simp: sameConfigs_def)
  from Cons.IH[OF this(1) _ this(2,3)] Cons.prems(2) obtain pms' s' where
    "passes env st pms s1 = Some (pms', s')"
    "list_all2 (\<lambda>pm pm'. if runsHere pm c then \<exists>t. testOf pm' i = Some t \<and> at_config t = c else testOf pm' i = None) pms pms'"
    by auto
  with p(1) e show ?case by (simp only: passes.simps option.case prod.case option.map list_all2_Cons) simp
qed auto

end

lemma list_all2_right: "list_all2 R xs ys \<Longrightarrow> y \<in> set ys \<Longrightarrow> \<exists>x \<in> set xs. R x y"
  by (induction rule: list_all2_induct) auto

lemma one_runs:
  assumes "list_all2 (\<lambda>pm pm'. P pm' \<longleftrightarrow> f pm = a) pms pms'" and "distinct (map f pms)" and "a \<in> f ` set pms"
  shows "length (filter P pms') = 1"
proof -
  have "length (filter P pms') = length (filter (\<lambda>pm. f pm = a) pms)"
    using assms(1) by (induction rule: list_all2_induct) auto
  also have "\<dots> = count_list (map f pms) a" by (induction pms) auto
  also have "\<dots> = 1" using assms(2,3) by (induction pms) auto
  finally show ?thesis .
qed


definition exampleFleet :: "PluginManager list" where
  "exampleFleet = [exampleManager\<lparr>pm_AgentId := ''pod-2/heart''\<rparr>, exampleManager]"


section \<open>From a deleted resource to the agents\<close>

context reliable_store begin

lemma passes_gone:
  assumes "inv s" and "\<forall>pm \<in> set pms. gwf (pm_SyntheticTests pm)" and "v_sum (view s) i = None"
  shows "\<exists>pms' s'. passes env st pms s = Some (pms', s') \<and> length pms' = length pms \<and> (\<forall>pm \<in> set pms'. testOf pm i = None)"
  using assms
proof (induction pms arbitrary: s)
  case (Cons pm pms)
  have g: "gwf (pm_SyntheticTests pm)" using Cons.prems(2) by simp
  obtain ch pm' s1 where p: "SyncSyntestPluginConfigs env st pm s = Some ((ch, None), pm', s1)" "sameConfigs inv view s s1"
    "\<forall>j. case v_sum (view s) j of None \<Rightarrow> testOf pm' j = None
       | Some sm \<Rightarrow> syncedEntry pm (v_cfg (view s) j) (sum_Version sm) (testOf pm j) (testOf pm' j)"
    using sync_exact[OF Cons.prems(1) g, of env] by blast
  have e: "testOf pm' i = None" using p(3)[THEN spec, of i] Cons.prems(3) by simp
  have "inv s1" "v_sum (view s1) i = None" using p(2) Cons.prems(3) by (auto simp: sameConfigs_def)
  with Cons.IH[of s1] Cons.prems(2) obtain pms' s' where "passes env st pms s1 = Some (pms', s')"
    "length pms' = length pms" "\<forall>pm \<in> set pms'. testOf pm i = None" by auto
  with p(1) e show ?case by simp
qed simp

end

text \<open>
  C3. A deleted test stops everywhere: when the resource of a test is gone, its reconciliation
  succeeds and asks for nothing more, and after all the agents have then made a pass none of them
  runs the test, whatever each was running before.
\<close>

theorem deleted_test_stops_everywhere:
  assumes "reliable_cluster (NewRedisSynHeartStore (connect addr)) view ok nsum nagent nstatus k8s encodable"
    and "ok s" and "k8_Get k8s n ns s = (Inl e, s0)" and "k8_IsNotFound k8s e"
    and "\<forall>pm \<in> set pms. gwf (pm_SyntheticTests pm)"
  shows "\<exists>s1 pms' s2. Reconcile env connect (Some addr) k8s n ns s = (Some (emptyResult, None), s1) \<and>
    passes penv (NewRedisSynHeartStore (connect addr)) pms s1 = Some (pms', s2) \<and> length pms' = length pms \<and>
    (\<forall>pm \<in> set pms'. testOf pm (ComputeSynTestConfigId n ns) = None)"
proof -
  obtain s1 where r: "Reconcile env connect (Some addr) k8s n ns s = (Some (emptyResult, None), s1)" "ok s1"
    "v_sum (view s1) (ComputeSynTestConfigId n ns) = None"
    using reconcile_deleted[of connect addr, OF assms(1-4)] by blast
  from reliable_store.passes_gone[OF reliable_cluster.axioms(2)[OF assms(1)] r(2) assms(5) r(3), of penv] r(1)
  show ?thesis by blast
qed

theorem deleted_test_stops_everywhere_witness:
  "\<exists>s1 pms s2. Reconcile exampleController (\<lambda>_. memStore) (Some ''redis:6379'') (memCluster (Inr []) (Inr [])) ''dns'' ''prod''
      agentMem = (Some (emptyResult, None), s1) \<and>
    passes examplePmEnv (NewRedisSynHeartStore memStore)
      [exampleManager\<lparr>pm_SyntheticTests := [(''dns/prod'', \<lparr>at_config = zeroSynTestConfig, at_version = ''v1'', at_routine = None\<rparr>)]\<rparr>]
      s1 = Some (pms, s2) \<and> (\<forall>pm \<in> set pms. testOf pm ''dns/prod'' = None)"
proof -
  let ?pm = "exampleManager\<lparr>pm_SyntheticTests := [(''dns/prod'', \<lparr>at_config = zeroSynTestConfig, at_version = ''v1'', at_routine = None\<rparr>)]\<rparr>"
  have g: "\<forall>pm \<in> set [?pm]. gwf (pm_SyntheticTests pm)" by (simp add: gwf_def)
  have i: "ComputeSynTestConfigId ''dns'' ''prod'' = ''dns/prod''" by (simp add: ComputeSynTestConfigId_def)
  have k: "k8_Get (memCluster (Inr []) (Inr [])) ''dns'' ''prod'' agentMem = (Inl ErrNotFound, agentMem)"
    "k8_IsNotFound (memCluster (Inr []) (Inr [])) ErrNotFound"
    by (simp_all add: memCluster_def)
  from deleted_test_stops_everywhere[of "\<lambda>_. memStore" "''redis:6379''", OF mem_cluster.reliable_cluster_axioms agentMem_inv k g,
      of exampleController examplePmEnv, unfolded i]
  show ?thesis by blast
qed

end
